theory Spec2Isabelle
  imports Complex_Main
begin

section \<open>Values of the smoothing module\<close>

text \<open>
  The module \<^verbatim>\<open>trimesh/smoothing.py\<close> works on numpy arrays of float64. A float64 that
  is a number is the real it denotes. The coordinates of the vertices go through float64
  arithmetic, which rounds: an operation on coordinates stores \<open>r x\<close>, where \<open>x\<close> is its
  exact result and \<open>r\<close> the rounding of the machine. The rounding is a parameter, so a
  statement proved for every \<open>r\<close> holds of float64 arithmetic (\<open>fl64\<close> below) and of exact
  arithmetic (\<open>exact\<close>) alike; a statement that holds in exact arithmetic only has
  \<open>r = exact\<close> among its hypotheses. The weights of the operator and the entries of the system matrix are kept
  as the exact quotients and sums. The one place where numpy yields a non-finite float
  instead of raising (a division by zero inside an array expression) is kept apart as
  \<open>None\<close> in a \<open>real option\<close>, see \<open>np_divide\<close>.
\<close>

datatype error =
    NameError string
  | ZeroDivisionError
  | ValueError
  | IndexError
  | LibraryError string

text \<open>\<open>LibraryError\<close> stands for whatever an external collaborator raises.\<close>

type_synonym rounding = "real \<Rightarrow> real"

text \<open>Exact arithmetic: nothing is rounded.\<close>

definition exact :: rounding where
  "exact x = x"

text \<open>
  IEEE 754 binary64, round to nearest, ties to even: the result has 53 significant bits.
  The exponent is not bounded here, so overflow and subnormal numbers are left out.
\<close>

definition round_half_even :: "real \<Rightarrow> int" where
  "round_half_even y =
     (let f = \<lfloor>y\<rfloor>; d = y - of_int f
      in if d < 1 / 2 then f else if 1 / 2 < d then f + 1 else if even f then f else f + 1)"

definition fl64 :: rounding where
  "fl64 x =
     (if x = 0 then 0
      else let ulp = 2 powr (of_int \<lfloor>log 2 \<bar>x\<bar>\<rfloor> - 52)
           in of_int (round_half_even (x / ulp)) * ulp)"

type_synonym vec3 = "real \<times> real \<times> real"

type_synonym ndarray = "vec3 list"

type_synonym triangle = "vec3 \<times> vec3 \<times> vec3"

fun vadd :: "rounding \<Rightarrow> vec3 \<Rightarrow> vec3 \<Rightarrow> vec3" where
  "vadd r (a, b, c) (x, y, z) = (r (a + x), r (b + y), r (c + z))"

fun vsub :: "rounding \<Rightarrow> vec3 \<Rightarrow> vec3 \<Rightarrow> vec3" where
  "vsub r (a, b, c) (x, y, z) = (r (a - x), r (b - y), r (c - z))"

fun smul :: "rounding \<Rightarrow> real \<Rightarrow> vec3 \<Rightarrow> vec3" where
  "smul r k (x, y, z) = (r (k * x), r (k * y), r (k * z))"

definition vzero :: vec3 where
  "vzero = (0, 0, 0)"

text \<open>A sum accumulated from zero, one term after the other.\<close>

definition vsum :: "rounding \<Rightarrow> vec3 list \<Rightarrow> vec3" where
  "vsum r vs = foldl (vadd r) vzero vs"

text \<open>\<^verbatim>\<open>np.dot(d ** 2, ones)\<close> for one row \<open>d\<close>: the sum of the squared components.\<close>

fun sqnorm :: "vec3 \<Rightarrow> real" where
  "sqnorm (x, y, z) = x\<^sup>2 * 1 + y\<^sup>2 * 1 + z\<^sup>2 * 1"

subsection \<open>Fallible pure computations\<close>

definition bind_res :: "error + 'a \<Rightarrow> ('a \<Rightarrow> error + 'b) \<Rightarrow> error + 'b" where
  "bind_res r f = (case r of Inl e \<Rightarrow> Inl e | Inr x \<Rightarrow> f x)"

text \<open>A list comprehension whose element expression may raise: the first failure wins.\<close>

fun traverse :: "('a \<Rightarrow> error + 'b) \<Rightarrow> 'a list \<Rightarrow> error + 'b list" where
  "traverse f [] = Inr []"
| "traverse f (x # xs) =
     (case f x of
        Inl e \<Rightarrow> Inl e
      | Inr y \<Rightarrow> (case traverse f xs of Inl e \<Rightarrow> Inl e | Inr ys \<Rightarrow> Inr (y # ys)))"

text \<open>Python scalar division \<^verbatim>\<open>a / b\<close> raises on a zero divisor.\<close>

definition py_div :: "real \<Rightarrow> real \<Rightarrow> error + real" where
  "py_div a b = (if b = 0 then Inl ZeroDivisionError else Inr (a / b))"

text \<open>
  numpy division never raises. Positive operands only reach it in this module, so the
  non-finite results are: \<open>x / 0 = inf\<close> for \<open>x > 0\<close>, \<open>inf / inf = nan\<close>, and the one
  finite result with a non-finite operand is \<open>x / inf = 0\<close>. \<open>None\<close> is inf or nan.
\<close>

fun np_divide :: "real option \<Rightarrow> real option \<Rightarrow> real option" where
  "np_divide (Some a) (Some b) = (if b = 0 then None else Some (a / b))"
| "np_divide (Some a) None = Some 0"
| "np_divide None _ = None"

fun np_add :: "real option \<Rightarrow> real option \<Rightarrow> real option" where
  "np_add (Some a) (Some b) = Some (a + b)"
| "np_add _ _ = None"

definition np_sum :: "real option list \<Rightarrow> real option" where
  "np_sum xs = foldr np_add xs (Some 0)"

text \<open>\<^verbatim>\<open>np.concatenate\<close> refuses an empty sequence of arrays.\<close>

definition np_concatenate :: "'a list list \<Rightarrow> error + 'a list" where
  "np_concatenate xss = (if xss = [] then Inl ValueError else Inr (concat xss))"

subsection \<open>Broadcasting along the first axis\<close>

text \<open>
  Every array of the filters has shape \<open>(n, 3)\<close>, so only the first axis can differ between
  two operands. A binary operation accepts equal lengths or a length of one on either side;
  an in-place operation (\<^verbatim>\<open>+=\<close>, \<^verbatim>\<open>-=\<close>) keeps the shape of its left operand.
\<close>

definition np_binary :: "(vec3 \<Rightarrow> vec3 \<Rightarrow> vec3) \<Rightarrow> ndarray \<Rightarrow> ndarray \<Rightarrow> error + ndarray" where
  "np_binary f a b =
     (if length a = length b then Inr (map2 f a b)
      else if length a = 1 then Inr (map (f (hd a)) b)
      else if length b = 1 then Inr (map (\<lambda>x. f x (hd b)) a)
      else Inl ValueError)"

definition np_inplace :: "(vec3 \<Rightarrow> vec3 \<Rightarrow> vec3) \<Rightarrow> ndarray \<Rightarrow> ndarray \<Rightarrow> error + ndarray" where
  "np_inplace f a b =
     (if length b = length a then Inr (map2 f a b)
      else if length b = 1 then Inr (map (\<lambda>x. f x (hd b)) a)
      else Inl ValueError)"

text \<open>A scalar times an array.\<close>

definition np_scale :: "rounding \<Rightarrow> real \<Rightarrow> ndarray \<Rightarrow> ndarray" where
  "np_scale r k a = map (smul r k) a"

section \<open>Sparse matrices\<close>

text \<open>
  A sparse matrix is its shape and its stored triplets, as the attributes \<^verbatim>\<open>row\<close>,
  \<^verbatim>\<open>col\<close> and \<^verbatim>\<open>data\<close> of a scipy \<^verbatim>\<open>coo_matrix\<close>. Triplets at the same
  position add up. The storage format scipy chooses for a sum or a product is left out:
  every matrix is kept as triplets.
\<close>

record 'v coo =
  shape :: "nat \<times> nat"
  row :: "nat list"
  col :: "nat list"
  data :: "'v list"

type_synonym spmat = "real coo"

definition entries :: "'v coo \<Rightarrow> (nat \<times> nat \<times> 'v) list" where
  "entries M = zip (row M) (zip (col M) (data M))"

definition row_entries :: "'v coo \<Rightarrow> nat \<Rightarrow> (nat \<times> nat \<times> 'v) list" where
  "row_entries M i = filter (\<lambda>t. fst t = i) (entries M)"

definition entry :: "spmat \<Rightarrow> nat \<Rightarrow> nat \<Rightarrow> real" where
  "entry M i j = sum_list (map (\<lambda>t. snd (snd t)) (filter (\<lambda>t. fst (snd t) = j) (row_entries M i)))"

definition row_sum :: "spmat \<Rightarrow> nat \<Rightarrow> real" where
  "row_sum M i = sum_list (map (\<lambda>t. snd (snd t)) (row_entries M i))"

text \<open>
  The invariant of a scipy matrix object: the three arrays have one length and the indices
  lie inside the shape. \<open>coo_matrix\<close> checks it, so the operator built by this module has
  it, and an operator passed in by the caller is such an object too. Under it, the product
  below reads its argument inside its bounds.
\<close>

definition valid_coo :: "'v coo \<Rightarrow> bool" where
  "valid_coo M \<longleftrightarrow>
     length (row M) = length (data M) \<and> length (col M) = length (data M) \<and>
     list_all (\<lambda>i. i < fst (shape M)) (row M) \<and> list_all (\<lambda>j. j < snd (shape M)) (col M)"

text \<open>
  Row \<open>i\<close> of the product of a matrix with an \<open>(n, 3)\<close> array: the products of the stored
  triplets of the row are added to zero in the order in which they are stored.
\<close>

definition matvec_row :: "rounding \<Rightarrow> spmat \<Rightarrow> ndarray \<Rightarrow> nat \<Rightarrow> vec3" where
  "matvec_row r M x i =
     vsum r (map (\<lambda>t. smul r (snd (snd t)) (x ! fst (snd t))) (row_entries M i))"

definition matvec :: "rounding \<Rightarrow> spmat \<Rightarrow> ndarray \<Rightarrow> ndarray" where
  "matvec r M x = map (matvec_row r M x) [0..<fst (shape M)]"

text \<open>\<^verbatim>\<open>M.dot(x)\<close>: the inner dimensions must agree.\<close>

definition dot :: "rounding \<Rightarrow> spmat \<Rightarrow> ndarray \<Rightarrow> error + ndarray" where
  "dot r M x = (if snd (shape M) \<noteq> length x then Inl ValueError else Inr (matvec r M x))"

definition mat_scale :: "real \<Rightarrow> spmat \<Rightarrow> spmat" where
  "mat_scale k M = M\<lparr>data := map (\<lambda>d. k * d) (data M)\<rparr>"

definition mat_add :: "spmat \<Rightarrow> spmat \<Rightarrow> error + spmat" where
  "mat_add A B =
     (if shape A \<noteq> shape B then Inl ValueError
      else Inr \<lparr>shape = shape A, row = row A @ row B, col = col A @ col B,
                data = data A @ data B\<rparr>)"

definition mat_sub :: "spmat \<Rightarrow> spmat \<Rightarrow> error + spmat" where
  "mat_sub A B = mat_add A (mat_scale (- 1) B)"

section \<open>The module and its collaborators\<close>

text \<open>
  What the module takes from outside: whether the guarded import of scipy succeeded, the
  volume of a list of triangles (the mesh's \<^verbatim>\<open>volume\<close> property), scipy's sparse
  solver, and the rounding of the machine's arithmetic.
\<close>

record env =
  scipy :: bool
  volume :: "triangle list \<Rightarrow> error + real"
  spsolve :: "spmat \<Rightarrow> ndarray \<Rightarrow> error + ndarray"
  rnd :: rounding

text \<open>
  The names bound at module level once the module is loaded (lines 1 to 7 and the four
  \<^verbatim>\<open>def\<close>s). The three scipy names are bound only if the import succeeded.
\<close>

definition module_names :: "env \<Rightarrow> string list" where
  "module_names E =
     [''np''] @ (if scipy E then [''spsolve'', ''coo_matrix'', ''eye''] else []) @
     [''filter_laplacian'', ''filter_humphrey'', ''filter_taubin'', ''laplacian_calculation'']"

definition resolve :: "env \<Rightarrow> string \<Rightarrow> error + unit" where
  "resolve E name = (if name \<in> set (module_names E) then Inr () else Inl (NameError name))"

text \<open>
  \<^verbatim>\<open>coo_matrix((data, (row, col)), shape=s)\<close>: the name is looked up, then scipy checks
  the lengths of the three arrays and the range of the indices.
\<close>

definition coo_matrix :: "env \<Rightarrow> 'v list \<Rightarrow> nat list \<Rightarrow> nat list \<Rightarrow> nat \<times> nat \<Rightarrow> error + 'v coo" where
  "coo_matrix E d r c s =
     bind_res (resolve E ''coo_matrix'') (\<lambda>_.
       if length r \<noteq> length d \<or> length c \<noteq> length d then Inl ValueError
       else if \<not> list_all (\<lambda>i. i < fst s) r \<or> \<not> list_all (\<lambda>j. j < snd s) c then Inl ValueError
       else Inr \<lparr>shape = s, row = r, col = c, data = d\<rparr>)"

definition eye :: "env \<Rightarrow> nat \<Rightarrow> error + spmat" where
  "eye E n =
     bind_res (resolve E ''eye'') (\<lambda>_.
       Inr \<lparr>shape = (n, n), row = [0..<n], col = [0..<n], data = replicate n 1\<rparr>)"

section \<open>The program state\<close>

text \<open>
  Arrays are objects: two names can refer to one array, and an in-place operation is seen
  through both. The state holds the arrays by address and the mesh object, whose
  \<^verbatim>\<open>vertices\<close> attribute is a reference to an array.
\<close>

type_synonym addr = nat

record trimesh =
  vertices :: addr
  faces :: "(nat \<times> nat \<times> nat) list"
  vertex_neighbors :: "nat list list"

record 'm world =
  cells :: "addr \<Rightarrow> ndarray"
  fresh :: addr
  mesh :: 'm

type_synonym ('m, 'a) prog = "'m world \<Rightarrow> (error + 'a) \<times> 'm world"

definition ret :: "'a \<Rightarrow> ('m, 'a) prog" where
  "ret x s = (Inr x, s)"

definition lift :: "error + 'a \<Rightarrow> ('m, 'a) prog" where
  "lift r s = (r, s)"

definition bind :: "('m, 'a) prog \<Rightarrow> ('a \<Rightarrow> ('m, 'b) prog) \<Rightarrow> ('m, 'b) prog" where
  "bind p f s = (case p s of (Inl e, s') \<Rightarrow> (Inl e, s') | (Inr x, s') \<Rightarrow> f x s')"

text \<open>A new array object: \<^verbatim>\<open>.copy()\<close> and every expression that builds an array.\<close>

definition alloc :: "ndarray \<Rightarrow> ('m, addr) prog" where
  "alloc x s = (Inr (fresh s), s\<lparr>cells := (cells s)(fresh s := x), fresh := Suc (fresh s)\<rparr>)"

definition load :: "addr \<Rightarrow> ('m, ndarray) prog" where
  "load a s = (Inr (cells s a), s)"

text \<open>An in-place operation writes the array the name refers to.\<close>

definition store :: "addr \<Rightarrow> ndarray \<Rightarrow> ('m, unit) prog" where
  "store a x s = (Inr (), s\<lparr>cells := (cells s)(a := x)\<rparr>)"

definition get_mesh :: "('m, 'm) prog" where
  "get_mesh s = (Inr (mesh s), s)"

text \<open>\<^verbatim>\<open>mesh.vertices = vertices\<close>: the attribute is bound to the array.\<close>

definition set_vertices :: "addr \<Rightarrow> ('a trimesh_scheme, unit) prog" where
  "set_vertices a s = (Inr (), s\<lparr>mesh := (mesh s)\<lparr>vertices := a\<rparr>\<rparr>)"

text \<open>\<^verbatim>\<open>for index in range(n)\<close> with the loop-carried local \<open>x\<close>.\<close>

definition range_py :: "int \<Rightarrow> nat list" where
  "range_py n = [0..<nat n]"

fun for_each :: "nat list \<Rightarrow> (nat \<Rightarrow> 'b \<Rightarrow> ('m, 'b) prog) \<Rightarrow> 'b \<Rightarrow> ('m, 'b) prog" where
  "for_each [] body x = ret x"
| "for_each (i # js) body x = bind (body i x) (for_each js body)"

text \<open>
  The mesh's \<^verbatim>\<open>triangles\<close> property: the positions of the corners of every face, read
  from the array the mesh refers to.
\<close>

definition corner :: "ndarray \<Rightarrow> nat \<Rightarrow> error + vec3" where
  "corner vs i = (if i < length vs then Inr (vs ! i) else Inl IndexError)"

definition triangles_of :: "ndarray \<Rightarrow> (nat \<times> nat \<times> nat) list \<Rightarrow> error + triangle list" where
  "triangles_of vs fs =
     traverse (\<lambda>(a, b, c).
       bind_res (corner vs a) (\<lambda>p. bind_res (corner vs b) (\<lambda>q. bind_res (corner vs c) (\<lambda>r.
         Inr (p, q, r))))) fs"

definition mesh_triangles :: "('a trimesh_scheme, triangle list) prog" where
  "mesh_triangles =
     bind get_mesh (\<lambda>m. bind (load (vertices m)) (\<lambda>vs. lift (triangles_of vs (faces m))))"

definition mesh_volume :: "env \<Rightarrow> ('a trimesh_scheme, real) prog" where
  "mesh_volume E = bind mesh_triangles (\<lambda>ts. lift (volume E ts))"

section \<open>laplacian\_calculation\<close>

text \<open>
  The operator is returned with its entries as numpy holds them: \<open>Some\<close> of a number, or
  \<open>None\<close> for inf or nan.

  Lines 212 to 215: one weight \<open>1 / len(n)\<close> per neighbour. The division is Python's, which
  raises on a zero divisor, so these weights are numbers.
\<close>

definition equal_data :: "nat list list \<Rightarrow> error + real list" where
  "equal_data neighbors =
     bind_res (traverse (\<lambda>n. bind_res (py_div 1 (real (length n)))
                                (\<lambda>w. Inr (replicate (length n) w))) neighbors)
       np_concatenate"

text \<open>
  Lines 216 to 224. Indexing the vertex array raises out of range; the divisions are
  numpy's and never raise.
\<close>

definition inv_dist :: "ndarray \<Rightarrow> nat \<times> nat list \<Rightarrow> real option list" where
  "inv_dist vs p =
     (case p of (i, n) \<Rightarrow>
        map (\<lambda>j. np_divide (Some 1) (Some (sqrt (sqnorm (vsub exact (vs ! i) (vs ! j)))))) n)"

definition row_norms :: "ndarray \<Rightarrow> nat \<times> nat list \<Rightarrow> error + real option list" where
  "row_norms vs p =
     (case p of (i, n) \<Rightarrow>
        if \<not> i < length vs \<or> \<not> list_all (\<lambda>j. j < length vs) n then Inl IndexError
        else Inr (inv_dist vs (i, n)))"

text \<open>Line 224, \<^verbatim>\<open>i / i.sum()\<close> for one group \<open>i\<close>.\<close>

definition normalised :: "real option list \<Rightarrow> real option list" where
  "normalised i = map (\<lambda>x. np_divide x (np_sum i)) i"

definition umbrella_data :: "ndarray \<Rightarrow> nat list list \<Rightarrow> error + real option list" where
  "umbrella_data vs neighbors =
     bind_res (traverse (row_norms vs) (enumerate 0 neighbors)) (\<lambda>norms.
       np_concatenate (map normalised norms))"

text \<open>Lines 207 to 228.\<close>

definition laplacian_matrix ::
  "env \<Rightarrow> ndarray \<Rightarrow> nat list list \<Rightarrow> bool \<Rightarrow> error + real option coo" where
  "laplacian_matrix E vs neighbors equal_weight =
     bind_res (np_concatenate neighbors) (\<lambda>col.
     bind_res (np_concatenate (map (\<lambda>(i, n). replicate (length n) i) (enumerate 0 neighbors)))
       (\<lambda>row.
     bind_res (if equal_weight then bind_res (equal_data neighbors) (\<lambda>data. Inr (map Some data))
               else umbrella_data vs neighbors) (\<lambda>data.
       coo_matrix E data row col (length vs, length vs))))"

definition laplacian_calculation ::
  "env \<Rightarrow> bool \<Rightarrow> ('a trimesh_scheme, real option coo) prog" where
  "laplacian_calculation E equal_weight =
     bind get_mesh (\<lambda>m.
     bind (load (vertices m)) (\<lambda>vs.
       lift (laplacian_matrix E vs (vertex_neighbors m) equal_weight)))"

text \<open>
  A matrix of numbers among the matrices numpy can hold, and back. The filters compute
  with the numbers of their operator; the one they build themselves is an equal-weight
  operator, which holds numbers only.
\<close>

definition np_matrix :: "spmat \<Rightarrow> real option coo" where
  "np_matrix L = \<lparr>shape = shape L, row = row L, col = col L, data = map Some (data L)\<rparr>"

definition real_matrix :: "real option coo \<Rightarrow> spmat" where
  "real_matrix M = \<lparr>shape = shape M, row = row M, col = col M, data = map the (data M)\<rparr>"

section \<open>filter\_laplacian\<close>

text \<open>Lines 45 and 46, shared by the three filters.\<close>

definition get_operator :: "env \<Rightarrow> spmat option \<Rightarrow> ('a trimesh_scheme, spmat) prog" where
  "get_operator E laplacian_operator =
     (case laplacian_operator of
        None \<Rightarrow> bind (laplacian_calculation E True) (\<lambda>M. ret (real_matrix M))
      | Some L \<Rightarrow> ret L)"

text \<open>Lines 57 and 58: \<^verbatim>\<open>AA = eye(dlap) + lamb*(eye(dlap)-laplacian_operator)\<close>.\<close>

definition system_matrix :: "env \<Rightarrow> real \<Rightarrow> spmat \<Rightarrow> error + spmat" where
  "system_matrix E lamb L =
     (let dlap = fst (shape L) in
      bind_res (eye E dlap) (\<lambda>I1.
      bind_res (eye E dlap) (\<lambda>I2.
      bind_res (mat_sub I2 L) (\<lambda>D.
        mat_add I1 (mat_scale lamb D)))))"

text \<open>Lines 65 and 66: the update is written into the array \<open>vertices\<close> refers to.\<close>

definition explicit_step :: "env \<Rightarrow> spmat \<Rightarrow> real \<Rightarrow> addr \<Rightarrow> ('m, addr) prog" where
  "explicit_step E L lamb = (\<lambda>vertices.
     bind (load vertices) (\<lambda>v.
     bind (lift (bind_res (dot (rnd E) L v) (\<lambda>Lv. np_binary (vsub (rnd E)) Lv v))) (\<lambda>dot.
     bind (lift (np_inplace (vadd (rnd E)) v (np_scale (rnd E) lamb dot))) (\<lambda>w.
     bind (store vertices w) (\<lambda>_. ret vertices)))))"

text \<open>Line 70: \<open>vertices\<close> is bound to the array the solver returns.\<close>

definition implicit_step :: "env \<Rightarrow> spmat option \<Rightarrow> addr \<Rightarrow> ('m, addr) prog" where
  "implicit_step E AA = (\<lambda>vertices.
     bind (lift (resolve E ''spsolve'')) (\<lambda>_.
     bind (lift (case AA of None \<Rightarrow> Inl (NameError ''AA'') | Some A \<Rightarrow> Inr A)) (\<lambda>A.
     bind (load vertices) (\<lambda>v.
     bind (lift (spsolve E A v)) alloc))))"

text \<open>
  Lines 74 and 75. The callee \<^verbatim>\<open>mass_properties\<close> is looked up before its argument
  \<^verbatim>\<open>mesh.triangles\<close> is evaluated.
\<close>

definition volume_step :: "env \<Rightarrow> real option \<Rightarrow> addr \<Rightarrow> ('a trimesh_scheme, addr) prog" where
  "volume_step E v_ini = (\<lambda>vertices.
     bind (lift (resolve E ''mass_properties'')) (\<lambda>_.
     bind mesh_triangles (\<lambda>ts.
     bind (lift (volume E ts)) (\<lambda>vol.
     bind (lift (case v_ini of None \<Rightarrow> Inl (NameError ''v_ini'') | Some v0 \<Rightarrow> Inr v0)) (\<lambda>v0.
     bind (load vertices) (\<lambda>v.
     bind (store vertices
             (np_scale (rnd E) (rnd E (rnd E (v0 / vol) powr rnd E (1 / 3))) v))
       (\<lambda>_. ret vertices)))))))"

definition laplacian_pass ::
  "env \<Rightarrow> real \<Rightarrow> bool \<Rightarrow> bool \<Rightarrow> spmat \<Rightarrow> spmat option \<Rightarrow> real option \<Rightarrow> nat \<Rightarrow> addr \<Rightarrow>
   ('a trimesh_scheme, addr) prog" where
  "laplacian_pass E lamb implicit volume_constraint L AA v_ini index = (\<lambda>vertices.
     bind (if \<not> implicit then explicit_step E L lamb vertices else implicit_step E AA vertices)
       (\<lambda>vertices.
          if volume_constraint then volume_step E v_ini vertices else ret vertices))"

text \<open>Lines 53, 118 and 168: \<^verbatim>\<open>mesh.vertices.copy().view(np.ndarray)\<close>.\<close>

definition copy_vertices :: "('a trimesh_scheme, addr) prog" where
  "copy_vertices = bind get_mesh (\<lambda>m. bind (load (vertices m)) alloc)"

definition filter_laplacian ::
  "env \<Rightarrow> real \<Rightarrow> int \<Rightarrow> bool \<Rightarrow> bool \<Rightarrow> spmat option \<Rightarrow> ('a trimesh_scheme, unit) prog" where
  "filter_laplacian E lamb iterations implicit volume_constraint laplacian_operator =
     bind (get_operator E laplacian_operator) (\<lambda>L.
     bind (if volume_constraint then bind (mesh_volume E) (\<lambda>v. ret (Some v)) else ret None)
       (\<lambda>v_ini.
     bind copy_vertices (\<lambda>vertices.
     bind (if implicit then bind (lift (system_matrix E lamb L)) (\<lambda>A. ret (Some A))
           else ret None) (\<lambda>AA.
     bind (for_each (range_py iterations)
             (laplacian_pass E lamb implicit volume_constraint L AA v_ini) vertices)
       set_vertices))))"

section \<open>filter\_humphrey\<close>

text \<open>Lines 124 to 128. \<^verbatim>\<open>1.0 - alpha\<close> and \<^verbatim>\<open>1.0 - beta\<close> are float operations too.\<close>

definition humphrey_pass ::
  "env \<Rightarrow> real \<Rightarrow> real \<Rightarrow> spmat \<Rightarrow> ndarray \<Rightarrow> nat \<Rightarrow> addr \<Rightarrow> ('m, addr) prog" where
  "humphrey_pass E alpha beta L original index = (\<lambda>vertices.
     bind (load vertices) (\<lambda>vert_q.
     bind (lift (dot (rnd E) L vert_q)) (\<lambda>p.
     bind (alloc p) (\<lambda>vertices.
     bind (lift (bind_res (np_binary (vadd (rnd E)) (np_scale (rnd E) alpha original)
                             (np_scale (rnd E) (rnd E (1 - alpha)) vert_q))
                   (\<lambda>t. np_binary (vsub (rnd E)) p t))) (\<lambda>vert_b.
     bind (lift (bind_res (dot (rnd E) L vert_b)
                   (\<lambda>Lb. np_binary (vadd (rnd E)) (np_scale (rnd E) beta vert_b)
                           (np_scale (rnd E) (rnd E (1 - beta)) Lb))))
       (\<lambda>t.
     bind (load vertices) (\<lambda>v.
     bind (lift (np_inplace (vsub (rnd E)) v t)) (\<lambda>w.
     bind (store vertices w) (\<lambda>_. ret vertices)))))))))"

definition filter_humphrey ::
  "env \<Rightarrow> real \<Rightarrow> real \<Rightarrow> int \<Rightarrow> spmat option \<Rightarrow> ('a trimesh_scheme, unit) prog" where
  "filter_humphrey E alpha beta iterations laplacian_operator =
     bind (get_operator E laplacian_operator) (\<lambda>L.
     bind copy_vertices (\<lambda>vertices.
     bind (load vertices) (\<lambda>original.
     bind (for_each (range_py iterations) (humphrey_pass E alpha beta L original) vertices)
       set_vertices)))"

section \<open>filter\_taubin\<close>

text \<open>Lines 171 to 178.\<close>

definition taubin_pass ::
  "env \<Rightarrow> real \<Rightarrow> real \<Rightarrow> spmat \<Rightarrow> nat \<Rightarrow> addr \<Rightarrow> ('m, addr) prog" where
  "taubin_pass E lamb nu L index = (\<lambda>vertices.
     bind (load vertices) (\<lambda>v.
     bind (lift (bind_res (dot (rnd E) L v) (\<lambda>Lv. np_binary (vsub (rnd E)) Lv v))) (\<lambda>dot.
     bind (lift (if index mod 2 = 0 then np_inplace (vadd (rnd E)) v (np_scale (rnd E) lamb dot)
                 else np_inplace (vsub (rnd E)) v (np_scale (rnd E) nu dot))) (\<lambda>w.
     bind (store vertices w) (\<lambda>_. ret vertices)))))"

definition filter_taubin ::
  "env \<Rightarrow> real \<Rightarrow> real \<Rightarrow> int \<Rightarrow> spmat option \<Rightarrow> ('a trimesh_scheme, unit) prog" where
  "filter_taubin E lamb nu iterations laplacian_operator =
     bind (get_operator E laplacian_operator) (\<lambda>L.
     bind copy_vertices (\<lambda>vertices.
     bind (for_each (range_py iterations) (taubin_pass E lamb nu L) vertices)
       set_vertices))"

section \<open>Definitions for the proofs\<close>

text \<open>The triplets of the operator, one group per vertex, and its row indices.\<close>

definition blocks :: "(nat list \<Rightarrow> 'v) \<Rightarrow> nat \<Rightarrow> nat list list \<Rightarrow> (nat \<times> nat \<times> 'v) list" where
  "blocks w k ns = concat (map (\<lambda>(i, n). map (\<lambda>j. (i, j, w n)) n) (enumerate k ns))"

definition row_index :: "nat list list \<Rightarrow> nat list" where
  "row_index ns = concat (map (\<lambda>(i, n). replicate (length n) i) (enumerate 0 ns))"

text \<open>
  An example environment. scipy is present; the volume is the sum of the signed volumes of
  the tetrahedra spanned by the origin and each triangle; the arithmetic is exact. The
  solver is sound but knows few systems: it tries the right-hand side itself and the
  arrays of a short table, returns the first of them that solves the system, and fails if
  none does.
\<close>

fun triple_product :: "triangle \<Rightarrow> real" where
  "triple_product ((p1, p2, p3), (q1, q2, q3), (r1, r2, r3)) =
     p1 * (q2 * r3 - q3 * r2) + p2 * (q3 * r1 - q1 * r3) + p3 * (q1 * r2 - q2 * r1)"

definition known_solutions :: "ndarray list" where
  "known_solutions =
     [[(2 / 11, 2 / 11, 2 / 11), (5 / 11, 2 / 11, 2 / 11), (2 / 11, 5 / 11, 2 / 11),
       (2 / 11, 2 / 11, 5 / 11)],
      [(28 / 121, 28 / 121, 28 / 121), (37 / 121, 28 / 121, 28 / 121),
       (28 / 121, 37 / 121, 28 / 121), (28 / 121, 28 / 121, 37 / 121)]]"

definition table_solver :: "ndarray list \<Rightarrow> spmat \<Rightarrow> ndarray \<Rightarrow> error + ndarray" where
  "table_solver table A b =
     (case find (\<lambda>x. matvec exact A x = b) (b # table) of
        Some x \<Rightarrow> Inr x
      | None \<Rightarrow> Inl (LibraryError ''no solution found''))"

definition example_env :: env where
  "example_env =
     \<lparr>scipy = True, volume = (\<lambda>ts. Inr (sum_list (map triple_product ts) / 6)),
      spsolve = table_solver known_solutions, rnd = exact\<rparr>"

text \<open>The same environment computing in float64.\<close>

definition float_env :: env where
  "float_env = example_env\<lparr>rnd := fl64\<rparr>"

text \<open>
  Example meshes: a single triangle; two joined vertices with a third apart; the same with
  the two joined vertices at one position.
\<close>

definition tri_world :: "trimesh world" where
  "tri_world =
     \<lparr>cells = (\<lambda>a. []) (0 := [(0, 0, 0), (1, 0, 0), (0, 1, 0)]), fresh = 1,
      mesh = \<lparr>vertices = 0, faces = [(0, 1, 2)], vertex_neighbors = [[1, 2], [0, 2], [0, 1]]\<rparr>\<rparr>"



text \<open>
  Two triangles with large coordinates. In \<open>far_world\<close> vertex 0 lies at \<open>2\<^sup>5\<^sup>4\<close> on the
  first axis, far from the other two. In \<open>near_world\<close> the three vertices lie around
  \<open>2\<^sup>5\<^sup>4\<close> on the first axis, where neighbouring float64 numbers are 4 apart.
\<close>

definition far_world :: "trimesh world" where
  "far_world =
     \<lparr>cells = (\<lambda>a. []) (0 := [(18014398509481984, 0, 0), (0, 0, 0), (2, 4, 0)]), fresh = 1,
      mesh = \<lparr>vertices = 0, faces = [(0, 1, 2)], vertex_neighbors = [[1, 2], [0, 2], [0, 1]]\<rparr>\<rparr>"

definition near_world :: "trimesh world" where
  "near_world =
     \<lparr>cells = (\<lambda>a. []) (0 := [(18014398509481984, 0, 0), (18014398509481992, 0, 0),
                               (18014398509481984, 32, 0)]),
      fresh = 1,
      mesh = \<lparr>vertices = 0, faces = [(0, 1, 2)], vertex_neighbors = [[1, 2], [0, 2], [0, 1]]\<rparr>\<rparr>"

text \<open>The equal-weight operator of a triangle: each vertex takes the mean of the other two.\<close>

definition triangle_operator :: spmat where
  "triangle_operator =
     \<lparr>shape = (3, 3), row = [0, 0, 1, 1, 2, 2], col = [1, 2, 0, 2, 0, 1],
      data = [1 / 2, 1 / 2, 1 / 2, 1 / 2, 1 / 2, 1 / 2]\<rparr>"

text \<open>
  What a program leaves alone, for states whose first \<open>n\<close> addresses are taken: it frees
  nothing, binds no attribute of the mesh and writes no array below \<open>n\<close>; a value it returns
  satisfies \<open>Q\<close>.
\<close>

definition frame :: "addr \<Rightarrow> ('m, 'a) prog \<Rightarrow> ('a \<Rightarrow> bool) \<Rightarrow> bool" where
  "frame n p Q \<longleftrightarrow>
     (\<forall>s. n \<le> fresh s \<longrightarrow>
        (case p s of (r, s') \<Rightarrow>
           n \<le> fresh s' \<and> mesh s' = mesh s \<and> (\<forall>a<n. cells s' a = cells s a) \<and>
           (case r of Inl e \<Rightarrow> True | Inr x \<Rightarrow> Q x)))"

text \<open>
  The same for a whole filter call: a failing call binds nothing, a completing call binds
  the \<^verbatim>\<open>vertices\<close> attribute only.
\<close>

definition final :: "addr \<Rightarrow> ('a trimesh_scheme, unit) prog \<Rightarrow> bool" where
  "final n p \<longleftrightarrow>
     (\<forall>s. n \<le> fresh s \<longrightarrow>
        (case p s of (r, s') \<Rightarrow>
           (\<forall>a<n. cells s' a = cells s a) \<and>
           (case r of Inl e \<Rightarrow> mesh s' = mesh s
            | Inr u \<Rightarrow> mesh s' = (mesh s)\<lparr>vertices := vertices (mesh s')\<rparr>)))"

text \<open>
  Lines 45 to 70 of the first pass of \<open>filter_laplacian\<close> with the volume constraint on:
  everything the call does before it first reaches line 74.
\<close>

definition first_update :: "env \<Rightarrow> real \<Rightarrow> bool \<Rightarrow> spmat option \<Rightarrow> ('a trimesh_scheme, addr) prog" where
  "first_update E lamb implicit laplacian_operator =
     bind (get_operator E laplacian_operator) (\<lambda>L.
     bind (mesh_volume E) (\<lambda>v_ini.
     bind copy_vertices (\<lambda>vertices.
     bind (if implicit then bind (lift (system_matrix E lamb L)) (\<lambda>A. ret (Some A))
           else ret None) (\<lambda>AA.
       if \<not> implicit then explicit_step E L lamb vertices else implicit_step E AA vertices))))"

text \<open>A closed example: the tetrahedron on the origin and the three unit points.\<close>

definition tetra_world :: "trimesh world" where
  "tetra_world =
     \<lparr>cells = (\<lambda>a. []) (0 := [(0, 0, 0), (1, 0, 0), (0, 1, 0), (0, 0, 1)]), fresh = 1,
      mesh = \<lparr>vertices = 0, faces = [(0, 2, 1), (0, 1, 3), (0, 3, 2), (1, 2, 3)],
              vertex_neighbors = [[1, 2, 3], [0, 2, 3], [0, 1, 3], [0, 1, 2]]\<rparr>\<rparr>"

section \<open>The update rules as the specification words them\<close>

text \<open>
  Every rule takes the rounding \<open>r\<close> of the arithmetic it is computed in.

  The Laplacian delta \<open>d = L\<cdot>v - v\<close> of a buffer.
\<close>

definition laplacian_delta :: "rounding \<Rightarrow> spmat \<Rightarrow> ndarray \<Rightarrow> ndarray" where
  "laplacian_delta r L v = map2 (vsub r) (matvec r L v) v"

text \<open>Explicit diffusion: \<open>v + \<lambda>\<cdot>(L\<cdot>v - v)\<close>, every row from the old buffer.\<close>

definition explicit_update :: "rounding \<Rightarrow> spmat \<Rightarrow> real \<Rightarrow> ndarray \<Rightarrow> ndarray" where
  "explicit_update r L lamb v = map2 (vadd r) v (np_scale r lamb (laplacian_delta r L v))"

text \<open>
  The same for one coordinate \<open>x\<close> of a vertex and the coordinate \<open>p\<close> of \<open>L\<cdot>v\<close> at that
  vertex, and for a vertex.
\<close>

definition explicit_coordinate :: "rounding \<Rightarrow> real \<Rightarrow> real \<Rightarrow> real \<Rightarrow> real" where
  "explicit_coordinate r lamb x p = r (x + r (lamb * r (p - x)))"

fun explicit_vertex :: "rounding \<Rightarrow> real \<Rightarrow> vec3 \<Rightarrow> vec3 \<Rightarrow> vec3" where
  "explicit_vertex r lamb (x, y, z) (p, q, w) =
     (explicit_coordinate r lamb x p, explicit_coordinate r lamb y q,
      explicit_coordinate r lamb z w)"

text \<open>Taubin: \<open>v + \<lambda>\<cdot>d\<close> at an even index \<open>t\<close>, \<open>v - \<nu>\<cdot>d\<close> at an odd one.\<close>

definition taubin_update ::
  "rounding \<Rightarrow> real \<Rightarrow> real \<Rightarrow> spmat \<Rightarrow> nat \<Rightarrow> ndarray \<Rightarrow> ndarray" where
  "taubin_update r lamb nu L t v =
     (if even t then map2 (vadd r) v (np_scale r lamb (laplacian_delta r L v))
      else map2 (vsub r) v (np_scale r nu (laplacian_delta r L v)))"

definition taubin_coordinate :: "rounding \<Rightarrow> real \<Rightarrow> real \<Rightarrow> nat \<Rightarrow> real \<Rightarrow> real \<Rightarrow> real" where
  "taubin_coordinate r lamb nu t x p =
     (if t mod 2 = 0 then r (x + r (lamb * r (p - x))) else r (x - r (nu * r (p - x))))"

fun taubin_vertex :: "rounding \<Rightarrow> real \<Rightarrow> real \<Rightarrow> nat \<Rightarrow> vec3 \<Rightarrow> vec3 \<Rightarrow> vec3" where
  "taubin_vertex r lamb nu t (x, y, z) (p, q, w) =
     (taubin_coordinate r lamb nu t x p, taubin_coordinate r lamb nu t y q,
      taubin_coordinate r lamb nu t z w)"

text \<open>
  Humphrey: \<open>p = L\<cdot>q\<close>, \<open>b = p - (\<alpha>\<cdot>original + (1 - \<alpha>)\<cdot>q)\<close> and the new buffer
  \<open>p - (\<beta>\<cdot>b + (1 - \<beta>)\<cdot>L\<cdot>b)\<close>.
\<close>

definition humphrey_update ::
  "rounding \<Rightarrow> real \<Rightarrow> real \<Rightarrow> spmat \<Rightarrow> ndarray \<Rightarrow> ndarray \<Rightarrow> ndarray" where
  "humphrey_update r alpha beta L original q =
     (let p = matvec r L q;
          b = map2 (vsub r) p
                (map2 (vadd r) (np_scale r alpha original) (np_scale r (r (1 - alpha)) q))
      in map2 (vsub r) p
           (map2 (vadd r) (np_scale r beta b) (np_scale r (r (1 - beta)) (matvec r L b))))"

text \<open>The centroid of the rows of \<open>v\<close> listed in \<open>n\<close>, in exact arithmetic.\<close>

definition centroid :: "ndarray \<Rightarrow> nat list \<Rightarrow> vec3" where
  "centroid v n = smul exact (1 / real (length n)) (vsum exact (map (\<lambda>j. v ! j) n))"

text \<open>Coordinate \<open>c\<close> of a vertex, for \<open>c\<close> from 0 to 2.\<close>

fun coord :: "vec3 \<Rightarrow> nat \<Rightarrow> real" where
  "coord (x, y, z) c = (if c = 0 then x else if c = 1 then y else z)"

text \<open>The solver applied \<open>k\<close> times with one system matrix, each result the next right-hand side.\<close>

fun solve_n :: "env \<Rightarrow> spmat \<Rightarrow> nat \<Rightarrow> ndarray \<Rightarrow> error + ndarray" where
  "solve_n E A 0 v = Inr v"
| "solve_n E A (Suc k) v = bind_res (spsolve E A v) (solve_n E A k)"

text \<open>An operator of the wrong size for any mesh with a vertex.\<close>

definition empty_operator :: spmat where
  "empty_operator = \<lparr>shape = (0, 0), row = [], col = [], data = []\<rparr>"

text \<open>The unit cube: vertex \<open>4x + 2y + z\<close> at \<open>(x, y, z)\<close>, joined along the cube's edges.\<close>

definition cube_world :: "trimesh world" where
  "cube_world =
     \<lparr>cells = (\<lambda>a. []) (0 := [(0, 0, 0), (0, 0, 1), (0, 1, 0), (0, 1, 1),
                               (1, 0, 0), (1, 0, 1), (1, 1, 0), (1, 1, 1)]),
      fresh = 1,
      mesh = \<lparr>vertices = 0,
              faces = [(0, 1, 3), (0, 3, 2), (4, 6, 7), (4, 7, 5), (0, 4, 5), (0, 5, 1),
                       (2, 3, 7), (2, 7, 6), (0, 2, 6), (0, 6, 4), (1, 5, 7), (1, 7, 3)],
              vertex_neighbors = [[1, 2, 4], [0, 3, 5], [0, 3, 6], [1, 2, 7],
                                  [0, 5, 6], [1, 4, 7], [2, 4, 7], [3, 5, 6]]\<rparr>\<rparr>"

text \<open>The sum of the values of the triplets at position \<open>(i, j)\<close>.\<close>

definition triplet_sum :: "(nat \<times> nat \<times> real) list \<Rightarrow> nat \<Rightarrow> nat \<Rightarrow> real" where
  "triplet_sum ts i j =
     sum_list (map (\<lambda>t. snd (snd t)) (filter (\<lambda>t. fst (snd t) = j) (filter (\<lambda>t. fst t = i) ts)))"

section \<open>The operator built by laplacian\_calculation\<close>

subsection \<open>Equal weights\<close>

lemma blocks_Nil: "blocks w k [] = []"
  by (simp add: blocks_def)

lemma blocks_Cons: "blocks w k (n # ns) = map (\<lambda>j. (k, j, w n)) n @ blocks w (Suc k) ns"
  by (simp add: blocks_def)

lemma zip_blocks:
  "zip (concat (map (\<lambda>(i, n). replicate (length n) i) (enumerate k ns)))
       (zip (concat ns) (concat (map (\<lambda>n. replicate (length n) (w n)) ns)))
   = blocks w k ns"
proof (induction ns arbitrary: k)
  case Nil
  show ?case by (simp add: blocks_Nil)
next
  case (Cons n ns)
  have "zip (replicate (length n) k) (zip n (replicate (length n) c)) = map (\<lambda>j. (k, j, c)) n" for c :: 'a
    by (induction n) simp_all
  then have one: "zip (replicate (length n) k) (zip n (replicate (length n) (w n))) = map (\<lambda>j. (k, j, w n)) n"
    by simp
  show ?case
    using Cons.IH [of "Suc k"] by (simp add: blocks_Cons one)
qed

lemma filter_blocks_miss:
  "i < k \<Longrightarrow> filter (\<lambda>t. fst t = i) (blocks w k ns) = []"
proof (induction ns arbitrary: k)
  case Nil
  show ?case by (simp add: blocks_Nil)
next
  case (Cons n ns)
  have "filter (\<lambda>t. fst t = i) (blocks w (Suc k) ns) = []"
    using Cons.IH [of "Suc k"] Cons.prems by simp
  then show ?case using Cons.prems by (simp add: blocks_Cons filter_empty_conv)
qed

lemma filter_blocks:
  "filter (\<lambda>t. fst t = i) (blocks w k ns) =
     (if k \<le> i \<and> i < k + length ns then map (\<lambda>j. (i, j, w (ns ! (i - k)))) (ns ! (i - k)) else [])"
proof (induction ns arbitrary: k)
  case Nil
  show ?case by (auto simp add: blocks_Nil)
next
  case (Cons n ns)
  show ?case
  proof (cases "i = k")
    case True
    then show ?thesis
      by (simp add: blocks_Cons filter_blocks_miss)
  next
    case False
    have "filter (\<lambda>t. fst t = i) (map (\<lambda>j. (k, j, w n)) n) = []"
      using False by (simp add: filter_empty_conv)
    then show ?thesis
      using False Cons.IH [of "Suc k"] by (auto simp add: blocks_Cons)
  qed
qed

lemma enumerate_eq_Nil [simp]: "enumerate k xs = [] \<longleftrightarrow> xs = []"
  by (cases xs) simp_all

lemma bind_res_Inl [simp]: "bind_res (Inl e) f = Inl e"
  by (simp add: bind_res_def)

lemma bind_res_Inr [simp]: "bind_res (Inr x) f = f x"
  by (simp add: bind_res_def)

lemma traverse_equal_ok:
  "\<forall>n\<in>set ns. n \<noteq> [] \<Longrightarrow>
   traverse (\<lambda>n. bind_res (py_div 1 (real (length n))) (\<lambda>w. Inr (replicate (length n) w))) ns
     = Inr (map (\<lambda>n. replicate (length n) (1 / real (length n))) ns)"
  by (induction ns) (simp_all add: py_div_def)

lemma traverse_equal_fail:
  "[] \<in> set ns \<Longrightarrow>
   traverse (\<lambda>n. bind_res (py_div 1 (real (length n))) (\<lambda>w. Inr (replicate (length n) w))) ns
     = Inl ZeroDivisionError"
proof (induction ns)
  case Nil
  then show ?case by simp
next
  case (Cons n ns)
  show ?case
  proof (cases "n = []")
    case True
    then show ?thesis by (simp add: py_div_def)
  next
    case False
    then have "[] \<in> set ns" using Cons.prems by auto
    then show ?thesis using False Cons.IH by (simp add: py_div_def)
  qed
qed

lemma equal_data_fail: "[] \<in> set ns \<Longrightarrow> equal_data ns = Inl ZeroDivisionError"
  by (simp add: equal_data_def traverse_equal_fail)

lemma equal_data_ok:
  "ns \<noteq> [] \<Longrightarrow> \<forall>n\<in>set ns. n \<noteq> [] \<Longrightarrow>
   equal_data ns = Inr (concat (map (\<lambda>n. replicate (length n) (1 / real (length n))) ns))"
  by (simp add: equal_data_def traverse_equal_ok np_concatenate_def)

lemma laplacian_matrix_equal_fail:
  "[] \<in> set ns \<Longrightarrow> laplacian_matrix E vs ns True = Inl ZeroDivisionError"
  by (auto simp add: laplacian_matrix_def np_concatenate_def equal_data_fail)

lemma length_row_index: "length (concat (map (\<lambda>(i, n). replicate (length n) i) (enumerate k ns))) = length (concat ns)"
  by (induction ns arbitrary: k) simp_all

lemma length_equal_weights: "length (concat (map (\<lambda>n. replicate (length n) (w n)) ns)) = length (concat ns)"
  by (induction ns) simp_all

lemma laplacian_matrix_equal_cases:
  assumes "\<forall>n\<in>set ns. n \<noteq> []"
  shows "laplacian_matrix E vs ns True =
     (if ns = [] then Inl ValueError
      else if \<not> scipy E then Inl (NameError ''coo_matrix'')
      else if \<not> list_all (\<lambda>i. i < length vs) (row_index ns) \<or>
              \<not> list_all (\<lambda>j. j < length vs) (concat ns) then Inl ValueError
      else Inr (np_matrix
             \<lparr>shape = (length vs, length vs), row = row_index ns, col = concat ns,
              data = concat (map (\<lambda>n. replicate (length n) (1 / real (length n))) ns)\<rparr>))"
proof (cases "ns = []")
  case True
  then show ?thesis by (simp add: laplacian_matrix_def np_concatenate_def)
next
  case False
  have res: "resolve E ''coo_matrix'' = (if scipy E then Inr () else Inl (NameError ''coo_matrix''))"
    by (simp add: resolve_def module_names_def)
  show ?thesis
    using False assms
    by (simp add: laplacian_matrix_def np_concatenate_def equal_data_ok coo_matrix_def res
        row_index_def length_row_index length_equal_weights np_matrix_def)
qed

lemma real_matrix_np [simp]: "real_matrix (np_matrix L) = L"
  by (simp add: real_matrix_def np_matrix_def comp_def)

lemma np_matrix_eq [simp]: "np_matrix L = np_matrix L' \<longleftrightarrow> L = L'"
  by (metis real_matrix_np)

lemma laplacian_matrix_equal_finite:
  assumes "laplacian_matrix E vs ns True = Inr M"
  shows "\<exists>L. M = np_matrix L"
proof -
  have ne: "\<forall>n\<in>set ns. n \<noteq> []"
  proof (rule ccontr)
    assume "\<not> (\<forall>n\<in>set ns. n \<noteq> [])"
    then have "[] \<in> set ns" by auto
    then show False using assms by (simp add: laplacian_matrix_equal_fail)
  qed
  show ?thesis
    using assms laplacian_matrix_equal_cases [OF ne, of E vs]
    by (auto split: if_splits)
qed

lemma laplacian_calculation_run:
  "laplacian_calculation E ew s =
     (laplacian_matrix E (cells s (vertices (mesh s))) (vertex_neighbors (mesh s)) ew, s)"
  by (simp add: laplacian_calculation_def bind_def get_mesh_def load_def lift_def)

lemma set_row_index:
  "x \<in> set (concat (map (\<lambda>(i, n). replicate (length n) i) (enumerate k ns))) \<Longrightarrow> x < k + length ns"
proof (induction ns arbitrary: k)
  case Nil
  then show ?case by simp
next
  case (Cons n ns)
  from Cons.prems have "x = k \<or> x \<in> set (concat (map (\<lambda>(i, n). replicate (length n) i) (enumerate (Suc k) ns)))"
    by (auto split: if_splits)
  then show ?case
  proof
    assume "x = k" then show ?thesis by simp
  next
    assume "x \<in> set (concat (map (\<lambda>(i, n). replicate (length n) i) (enumerate (Suc k) ns)))"
    then have "x < Suc k + length ns" by (rule Cons.IH)
    then show ?thesis by simp
  qed
qed

lemma list_all_row_index: "list_all (\<lambda>i. i < length ns) (row_index ns)"
  unfolding row_index_def list_all_iff using set_row_index [of _ 0 ns] by auto

text \<open>
  Claim C3. For a mesh with one neighbour list per vertex, none of them empty, every
  equal-weight operator that \<open>laplacian_calculation\<close> returns holds numbers only, and as
  a matrix of numbers it is square of the size of the vertex array; row \<open>i\<close> stores exactly
  one triplet per neighbour \<open>j\<close> of \<open>i\<close>, with the value \<open>1 / deg i\<close>, so an entry is
  non-zero only at a neighbour and every row sums to one. The call does return an operator
  when scipy is present, the mesh has a vertex and every neighbour is a vertex of the mesh.
\<close>

theorem equal_weight_operator:
  assumes "vs = cells s (vertices (mesh s))" and "ns = vertex_neighbors (mesh s)"
    and "length ns = length vs"
    and "\<forall>n\<in>set ns. n \<noteq> []"
  shows "(\<forall>M. fst (laplacian_calculation E True s) = Inr M \<longrightarrow>
            (\<exists>L. M = np_matrix L \<and>
               shape L = (length vs, length vs) \<and>
               (\<forall>i<length vs. row_entries L i = map (\<lambda>j. (i, j, 1 / real (length (ns ! i)))) (ns ! i)) \<and>
               (\<forall>i j. entry L i j \<noteq> 0 \<longrightarrow> i < length vs \<and> j \<in> set (ns ! i)) \<and>
               (\<forall>i<length vs. row_sum L i = 1))) \<and>
         (scipy E \<and> 0 < length vs \<and> (\<forall>n\<in>set ns. \<forall>j\<in>set n. j < length vs) \<longrightarrow>
            (\<exists>M. fst (laplacian_calculation E True s) = Inr M))"
proof (rule conjI)
  show "\<forall>M. fst (laplacian_calculation E True s) = Inr M \<longrightarrow>
            (\<exists>L. M = np_matrix L \<and>
               shape L = (length vs, length vs) \<and>
               (\<forall>i<length vs. row_entries L i = map (\<lambda>j. (i, j, 1 / real (length (ns ! i)))) (ns ! i)) \<and>
               (\<forall>i j. entry L i j \<noteq> 0 \<longrightarrow> i < length vs \<and> j \<in> set (ns ! i)) \<and>
               (\<forall>i<length vs. row_sum L i = 1))"
  proof (rule allI, rule impI)
    fix M
    assume "fst (laplacian_calculation E True s) = Inr M"
    then have lm: "laplacian_matrix E vs ns True = Inr M"
      using assms(1,2) by (simp add: laplacian_calculation_run)
    define L :: spmat where
      "L = \<lparr>shape = (length vs, length vs), row = row_index ns, col = concat ns,
            data = concat (map (\<lambda>n. replicate (length n) (1 / real (length n))) ns)\<rparr>"
    have M: "M = np_matrix L"
      using lm laplacian_matrix_equal_cases [OF assms(4), of E vs]
      by (simp add: L_def split: if_splits)
    have ent: "entries L = blocks (\<lambda>n. 1 / real (length n)) 0 ns"
      by (simp add: L_def entries_def row_index_def zip_blocks)
    have rows: "row_entries L i =
        (if i < length ns then map (\<lambda>j. (i, j, 1 / real (length (ns ! i)))) (ns ! i) else [])" for i
      by (simp add: row_entries_def ent filter_blocks)
    have A: "shape L = (length vs, length vs)" by (simp add: L_def)
    have B: "\<forall>i<length vs. row_entries L i = map (\<lambda>j. (i, j, 1 / real (length (ns ! i)))) (ns ! i)"
      using assms(3) by (simp add: rows)
    have D: "\<forall>i<length vs. row_sum L i = 1"
    proof (intro allI impI)
      fix i assume i: "i < length vs"
      then have "ns ! i \<noteq> []" using assms(3,4) by simp
      then have "0 < length (ns ! i)" by simp
      moreover have "row_sum L i = sum_list (map (\<lambda>j. 1 / real (length (ns ! i))) (ns ! i))"
        using i assms(3) by (simp add: row_sum_def rows comp_def)
      ultimately show "row_sum L i = 1"
        by (simp add: sum_list_triv)
    qed
    have C: "\<forall>i j. entry L i j \<noteq> 0 \<longrightarrow> i < length vs \<and> j \<in> set (ns ! i)"
    proof (intro allI impI)
      fix i j
      assume nz: "entry L i j \<noteq> 0"
      have i: "i < length ns"
      proof (rule ccontr)
        assume "\<not> i < length ns"
        then have "row_entries L i = []" by (simp add: rows)
        then show False using nz by (simp add: entry_def)
      qed
      have "j \<in> set (ns ! i)"
      proof (rule ccontr)
        assume "j \<notin> set (ns ! i)"
        then have "filter (\<lambda>t. fst (snd t) = j) (row_entries L i) = []"
          using i by (auto simp add: rows filter_empty_conv)
        then show False using nz by (simp add: entry_def)
      qed
      with i show "i < length vs \<and> j \<in> set (ns ! i)" using assms(3) by simp
    qed
    from M A B C D show "\<exists>L. M = np_matrix L \<and>
               shape L = (length vs, length vs) \<and>
               (\<forall>i<length vs. row_entries L i = map (\<lambda>j. (i, j, 1 / real (length (ns ! i)))) (ns ! i)) \<and>
               (\<forall>i j. entry L i j \<noteq> 0 \<longrightarrow> i < length vs \<and> j \<in> set (ns ! i)) \<and>
               (\<forall>i<length vs. row_sum L i = 1)"
      by blast
  qed
  show "scipy E \<and> 0 < length vs \<and> (\<forall>n\<in>set ns. \<forall>j\<in>set n. j < length vs) \<longrightarrow>
            (\<exists>M. fst (laplacian_calculation E True s) = Inr M)"
  proof (rule impI)
    assume a: "scipy E \<and> 0 < length vs \<and> (\<forall>n\<in>set ns. \<forall>j\<in>set n. j < length vs)"
    then have ne: "ns \<noteq> []" using assms(3) by auto
    have r: "list_all (\<lambda>i. i < length vs) (row_index ns)"
      using assms(3) list_all_row_index [of ns] by simp
    have c: "list_all (\<lambda>j. j < length vs) (concat ns)"
      using a by (auto simp add: list_all_iff)
    show "\<exists>M. fst (laplacian_calculation E True s) = Inr M"
      using a ne r c assms(1,2) laplacian_matrix_equal_cases [OF assms(4), of E vs]
      by (simp add: laplacian_calculation_run)
  qed
qed

theorem equal_weight_operator_witness:
  "\<exists>L. fst (laplacian_calculation example_env True tri_world) = Inr (np_matrix L) \<and>
       shape L = (3, 3) \<and>
       row_entries L 0 = [(0, 1, 1 / 2), (0, 2, 1 / 2)] \<and>
       row_sum L 0 = 1 \<and> row_sum L 1 = 1 \<and> row_sum L 2 = 1"
proof -
  let ?vs = "[(0, 0, 0), (1, 0, 0), (0, 1, 0)] :: ndarray"
  let ?ns = "[[1, 2], [0, 2], [0, 1]] :: nat list list"
  have h1: "?vs = cells tri_world (vertices (mesh tri_world))"
    and h2: "?ns = vertex_neighbors (mesh tri_world)"
    by (simp_all add: tri_world_def)
  have h3: "length ?ns = length ?vs" by simp
  have h4: "\<forall>n\<in>set ?ns. n \<noteq> []" by simp
  note t = equal_weight_operator [OF h1 h2 h3 h4, of example_env]
  have "scipy example_env \<and> 0 < length ?vs \<and> (\<forall>n\<in>set ?ns. \<forall>j\<in>set n. j < length ?vs)"
    by (simp add: example_env_def)
  with t obtain M where M: "fst (laplacian_calculation example_env True tri_world) = Inr M"
    by blast
  with t obtain L where L: "M = np_matrix L"
    and "shape L = (length ?vs, length ?vs)"
    and "\<forall>i<length ?vs. row_entries L i = map (\<lambda>j. (i, j, 1 / real (length (?ns ! i)))) (?ns ! i)"
    and "\<forall>i<length ?vs. row_sum L i = 1"
    by blast
  then have "shape L = (3, 3)" and "row_entries L 0 = [(0, 1, 1 / 2), (0, 2, 1 / 2)]"
    and "row_sum L 0 = 1" and "row_sum L 1 = 1" and "row_sum L 2 = 1"
    by simp_all
  with M L show ?thesis by blast
qed

subsection \<open>A vertex without neighbours\<close>


lemma bind_res_eq_Inr: "bind_res r f = Inr y \<longleftrightarrow> (\<exists>x. r = Inr x \<and> f x = Inr y)"
  by (cases r) simp_all

lemma laplacian_matrix_row:
  assumes "laplacian_matrix E vs ns ew = Inr M"
  shows "row M = row_index ns \<and> shape M = (length vs, length vs)"
  using assms
  by (auto simp add: laplacian_matrix_def bind_res_eq_Inr coo_matrix_def np_concatenate_def
      row_index_def split: if_splits)

lemma coo_matrix_valid: "coo_matrix E d r c s = Inr M \<Longrightarrow> valid_coo M"
  by (auto simp add: coo_matrix_def bind_res_eq_Inr valid_coo_def split: if_splits)

lemma laplacian_matrix_valid: "laplacian_matrix E vs ns ew = Inr M \<Longrightarrow> valid_coo M"
  by (auto simp add: laplacian_matrix_def bind_res_eq_Inr dest: coo_matrix_valid)

lemma real_matrix_valid: "valid_coo M \<Longrightarrow> valid_coo (real_matrix M)"
  by (simp add: valid_coo_def real_matrix_def)
















section \<open>What a filter call leaves alone\<close>

lemma frameI:
  assumes "\<And>s r s'. n \<le> fresh s \<Longrightarrow> p s = (r, s') \<Longrightarrow>
     n \<le> fresh s' \<and> mesh s' = mesh s \<and> (\<forall>a<n. cells s' a = cells s a) \<and>
     (\<forall>x. r = Inr x \<longrightarrow> Q x)"
  shows "frame n p Q"
  unfolding frame_def
proof (intro allI impI)
  fix s :: "'a world"
  assume n: "n \<le> fresh s"
  obtain r s' where ps: "p s = (r, s')" by (cases "p s")
  from assms [OF n ps] show "case p s of (r, s') \<Rightarrow>
           n \<le> fresh s' \<and> mesh s' = mesh s \<and> (\<forall>a<n. cells s' a = cells s a) \<and>
           (case r of Inl e \<Rightarrow> True | Inr x \<Rightarrow> Q x)"
    by (simp add: ps split: sum.split)
qed

lemma frameD:
  assumes "frame n p Q" and "n \<le> fresh s" and "p s = (r, s')"
  shows "n \<le> fresh s'" and "mesh s' = mesh s" and "\<forall>a<n. cells s' a = cells s a"
    and "r = Inr x \<Longrightarrow> Q x"
proof -
  note c = assms(1) [unfolded frame_def, rule_format, OF assms(2), unfolded assms(3) prod.case]
  from c show "n \<le> fresh s'" by (rule conjunct1)
  from c show "mesh s' = mesh s" by (rule conjunct2 [THEN conjunct1])
  from c show "\<forall>a<n. cells s' a = cells s a" by (rule conjunct2 [THEN conjunct2, THEN conjunct1])
  from c have "case r of Inl e \<Rightarrow> True | Inr x \<Rightarrow> Q x"
    by (rule conjunct2 [THEN conjunct2, THEN conjunct2])
  then show "Q x" if "r = Inr x"
    unfolding that sum.case .
qed

lemma frame_ret: "Q x \<Longrightarrow> frame n (ret x) Q"
  by (rule frameI) (auto simp add: ret_def)

lemma frame_lift: "(\<And>x. r = Inr x \<Longrightarrow> Q x) \<Longrightarrow> frame n (lift r) Q"
  by (rule frameI) (auto simp add: lift_def)

lemma frame_load: "frame n (load a) (\<lambda>v. True)"
  by (rule frameI) (auto simp add: load_def)

lemma frame_get_mesh: "frame n get_mesh (\<lambda>m. True)"
  by (rule frameI) (auto simp add: get_mesh_def)

lemma frame_alloc: "frame n (alloc x) (\<lambda>a. n \<le> a)"
  by (rule frameI) (auto simp add: alloc_def)

lemma frame_store: "n \<le> a \<Longrightarrow> frame n (store a x) (\<lambda>u. True)"
  by (rule frameI) (auto simp add: store_def)

lemma frame_bind:
  assumes p: "frame n p P" and f: "\<And>x. P x \<Longrightarrow> frame n (f x) Q"
  shows "frame n (bind p f) Q"
proof (rule frameI)
  fix s :: "'a world" and r s'
  assume n: "n \<le> fresh s" and run: "bind p f s = (r, s')"
  obtain r1 s1 where ps: "p s = (r1, s1)" by (cases "p s")
  note d1 = frameD [OF p n ps]
  show "n \<le> fresh s' \<and> mesh s' = mesh s \<and> (\<forall>a<n. cells s' a = cells s a) \<and>
     (\<forall>x. r = Inr x \<longrightarrow> Q x)"
  proof (cases r1)
    case (Inl e)
    with run ps have "r = Inl e" and "s' = s1" by (simp_all add: bind_def)
    with d1 show ?thesis by simp
  next
    case (Inr x)
    with run ps have fx: "f x s1 = (r, s')" by (simp add: bind_def)
    have "P x" using d1(4) Inr by simp
    note d2 = frameD [OF f [OF this] d1(1) fx]
    from d1 d2 show ?thesis by auto
  qed
qed

lemma frame_for_each:
  assumes "\<And>i x. P x \<Longrightarrow> frame n (body i x) P"
  shows "P x \<Longrightarrow> frame n (for_each js body x) P"
proof (induction js arbitrary: x)
  case Nil
  then show ?case by (simp add: frame_ret)
next
  case (Cons i js)
  show ?case
    unfolding for_each.simps
    by (rule frame_bind [OF assms [OF Cons.prems]]) (rule Cons.IH)
qed

lemma frame_lift_any: "frame n (lift r) (\<lambda>x. True)"
  by (rule frame_lift) simp

lemma frame_laplacian_calculation: "frame n (laplacian_calculation E ew) (\<lambda>L. True)"
  unfolding laplacian_calculation_def
  by (intro frame_bind [OF frame_get_mesh] frame_bind [OF frame_load] frame_lift_any)

lemma frame_get_operator: "frame n (get_operator E op) (\<lambda>L. True)"
proof (cases op)
  case None
  have "frame n (bind (laplacian_calculation E True) (\<lambda>M. ret (real_matrix M))) (\<lambda>L. True)"
    by (rule frame_bind [OF frame_laplacian_calculation]) (rule frame_ret, rule TrueI)
  with None show ?thesis by (simp add: get_operator_def)
next
  case (Some L)
  then show ?thesis by (simp add: get_operator_def frame_ret)
qed

lemma frame_mesh_triangles: "frame n mesh_triangles (\<lambda>t. True)"
  unfolding mesh_triangles_def
  by (intro frame_bind [OF frame_get_mesh] frame_bind [OF frame_load] frame_lift_any)

lemma frame_mesh_volume: "frame n (mesh_volume E) (\<lambda>t. True)"
  unfolding mesh_volume_def
  by (intro frame_bind [OF frame_mesh_triangles] frame_lift_any)

lemma frame_copy_vertices: "frame n copy_vertices (\<lambda>a. n \<le> a)"
  unfolding copy_vertices_def
  by (intro frame_bind [OF frame_get_mesh] frame_bind [OF frame_load] frame_alloc)

lemma frame_implicit_step: "frame n (implicit_step E AA a) (\<lambda>b. n \<le> b)"
  unfolding implicit_step_def
  by (intro frame_bind [OF frame_load] frame_bind [OF frame_lift_any] frame_alloc)

lemma frame_explicit_step: "n \<le> a \<Longrightarrow> frame n (explicit_step E L lamb a) (\<lambda>b. n \<le> b)"
  unfolding explicit_step_def
  by (intro frame_bind [OF frame_load] frame_bind [OF frame_lift_any]
      frame_bind [OF frame_store] frame_ret) simp_all

lemma frame_volume_step: "n \<le> a \<Longrightarrow> frame n (volume_step E v_ini a) (\<lambda>b. n \<le> b)"
  unfolding volume_step_def
  by (intro frame_bind [OF frame_load] frame_bind [OF frame_lift_any]
      frame_bind [OF frame_mesh_triangles] frame_bind [OF frame_store] frame_ret) simp_all

lemma frame_laplacian_pass:
  "n \<le> a \<Longrightarrow> frame n (laplacian_pass E lamb implicit vc L AA v_ini index a) (\<lambda>b. n \<le> b)"
  unfolding laplacian_pass_def
  by (rule frame_bind [where P = "\<lambda>b. n \<le> b"])
    (simp_all add: frame_explicit_step frame_implicit_step frame_volume_step frame_ret)

lemma frame_humphrey_pass:
  "frame n (humphrey_pass E alpha beta L original index a) (\<lambda>b. n \<le> b)"
  unfolding humphrey_pass_def
  by (intro frame_bind [OF frame_load] frame_bind [OF frame_lift_any]
      frame_bind [OF frame_alloc] frame_bind [OF frame_store] frame_ret) simp_all

lemma frame_taubin_pass:
  "n \<le> a \<Longrightarrow> frame n (taubin_pass E lamb nu L index a) (\<lambda>b. n \<le> b)"
  unfolding taubin_pass_def
  by (intro frame_bind [OF frame_load] frame_bind [OF frame_lift_any]
      frame_bind [OF frame_store] frame_ret) simp_all

lemma finalI:
  assumes "\<And>s r s'. n \<le> fresh s \<Longrightarrow> p s = (r, s') \<Longrightarrow>
     (\<forall>a<n. cells s' a = cells s a) \<and>
     (case r of Inl e \<Rightarrow> mesh s' = mesh s
      | Inr u \<Rightarrow> mesh s' = (mesh s)\<lparr>vertices := vertices (mesh s')\<rparr>)"
  shows "final n p"
  unfolding final_def
proof (intro allI impI)
  fix s :: "'a trimesh_scheme world"
  assume n: "n \<le> fresh s"
  obtain r s' where ps: "p s = (r, s')" by (cases "p s")
  from assms [OF n ps] show "case p s of (r, s') \<Rightarrow>
           (\<forall>a<n. cells s' a = cells s a) \<and>
           (case r of Inl e \<Rightarrow> mesh s' = mesh s
            | Inr u \<Rightarrow> mesh s' = (mesh s)\<lparr>vertices := vertices (mesh s')\<rparr>)"
    unfolding ps prod.case .
qed

lemma finalD:
  assumes "final n p" and "n \<le> fresh s" and "p s = (r, s')"
  shows "\<forall>a<n. cells s' a = cells s a"
    and "r = Inl e \<Longrightarrow> mesh s' = mesh s"
    and "r = Inr u \<Longrightarrow> mesh s' = (mesh s)\<lparr>vertices := vertices (mesh s')\<rparr>"
proof -
  note c = assms(1) [unfolded final_def, rule_format, OF assms(2), unfolded assms(3) prod.case]
  from c show "\<forall>a<n. cells s' a = cells s a" by (rule conjunct1)
  from c have k: "case r of Inl e \<Rightarrow> mesh s' = mesh s
      | Inr u \<Rightarrow> mesh s' = (mesh s)\<lparr>vertices := vertices (mesh s')\<rparr>"
    by (rule conjunct2)
  from k show "mesh s' = mesh s" if "r = Inl e"
    unfolding that sum.case .
  from k show "mesh s' = (mesh s)\<lparr>vertices := vertices (mesh s')\<rparr>" if "r = Inr u"
    unfolding that sum.case .
qed

lemma final_set_vertices: "final n (set_vertices a)"
  by (rule finalI) (auto simp add: set_vertices_def)

lemma final_bind:
  assumes p: "frame n p P" and f: "\<And>x. P x \<Longrightarrow> final n (f x)"
  shows "final n (bind p f)"
proof (rule finalI)
  fix s :: "'a trimesh_scheme world" and r s'
  assume n: "n \<le> fresh s" and run: "bind p f s = (r, s')"
  obtain r1 s1 where ps: "p s = (r1, s1)" by (cases "p s")
  note d1 = frameD [OF p n ps]
  show "(\<forall>a<n. cells s' a = cells s a) \<and>
     (case r of Inl e \<Rightarrow> mesh s' = mesh s
      | Inr u \<Rightarrow> mesh s' = (mesh s)\<lparr>vertices := vertices (mesh s')\<rparr>)"
  proof (cases r1)
    case (Inl e)
    with run ps have "r = Inl e" and "s' = s1" by (simp_all add: bind_def)
    with d1 show ?thesis by simp
  next
    case (Inr x)
    with run ps have fx: "f x s1 = (r, s')" by (simp add: bind_def)
    have "P x" using d1(4) Inr by simp
    note d2 = finalD [OF f [OF this] d1(1) fx]
    show ?thesis
    proof (cases r)
      case (Inl e)
      with d1 d2(1) d2(2) [OF Inl] show ?thesis by simp
    next
      case (Inr u)
      with d1 d2(1) d2(3) [OF Inr] show ?thesis by simp
    qed
  qed
qed

lemma frame_initial_volume:
  "frame n (if vc then bind (mesh_volume E) (\<lambda>v. ret (Some v)) else ret None) (\<lambda>v. True)"
proof (cases vc)
  case True
  have "frame n (bind (mesh_volume E) (\<lambda>v. ret (Some v))) (\<lambda>v. True)"
    by (rule frame_bind [OF frame_mesh_volume]) (rule frame_ret, rule TrueI)
  with True show ?thesis by simp
next
  case False
  then show ?thesis by (simp add: frame_ret)
qed

lemma frame_system:
  "frame n (if implicit then bind (lift (system_matrix E lamb L)) (\<lambda>A. ret (Some A)) else ret None)
     (\<lambda>A. True)"
proof (cases implicit)
  case True
  have "frame n (bind (lift (system_matrix E lamb L)) (\<lambda>A. ret (Some A))) (\<lambda>A. True)"
    by (rule frame_bind [OF frame_lift_any]) (rule frame_ret, rule TrueI)
  with True show ?thesis by simp
next
  case False
  then show ?thesis by (simp add: frame_ret)
qed

lemma final_loop:
  assumes "\<And>i a. n \<le> a \<Longrightarrow> frame n (body i a) (\<lambda>b. n \<le> b)" and "n \<le> a"
  shows "final n (bind (for_each js body a) set_vertices)"
proof (rule final_bind)
  show "frame n (for_each js body a) (\<lambda>b. n \<le> b)"
    by (rule frame_for_each [where P = "\<lambda>b. n \<le> b"]) (fact assms)+
  show "final n (set_vertices x)" for x
    by (rule final_set_vertices)
qed

lemma final_filter_laplacian:
  "final n (filter_laplacian E lamb iterations implicit vc op)"
  unfolding filter_laplacian_def
  apply (rule final_bind [OF frame_get_operator])
  apply (rule final_bind [OF frame_initial_volume])
  apply (rule final_bind [OF frame_copy_vertices])
  apply (rule final_bind [OF frame_system])
  apply (rule final_loop)
   apply (rule frame_laplacian_pass)
   apply assumption
  apply assumption
  done

lemma final_filter_humphrey:
  "final n (filter_humphrey E alpha beta iterations op)"
  unfolding filter_humphrey_def
  apply (rule final_bind [OF frame_get_operator])
  apply (rule final_bind [OF frame_copy_vertices])
  apply (rule final_bind [OF frame_load])
  apply (rule final_loop)
   apply (rule frame_humphrey_pass)
  apply assumption
  done

lemma final_filter_taubin:
  "final n (filter_taubin E lamb nu iterations op)"
  unfolding filter_taubin_def
  apply (rule final_bind [OF frame_get_operator])
  apply (rule final_bind [OF frame_copy_vertices])
  apply (rule final_loop)
   apply (rule frame_taubin_pass)
   apply assumption
  apply assumption
  done

section \<open>Running the programs\<close>

lemma bind_ret_left: "bind (ret x) f = f x"
  by (rule ext) (simp add: bind_def ret_def)

lemma bind_fail: "bind (lift (Inl e)) f = lift (Inl e)"
  by (rule ext) (simp add: bind_def lift_def)

lemma bind_assoc: "bind (bind p f) g = bind p (\<lambda>x. bind (f x) g)"
proof (rule ext)
  fix s
  obtain r s1 where ps: "p s = (r, s1)" by (cases "p s")
  show "bind (bind p f) g s = bind p (\<lambda>x. bind (f x) g) s"
    by (cases r) (simp_all add: bind_def ps)
qed

lemma bind_load_run: "bind (load a) f s = f (cells s a) s"
  by (simp add: bind_def load_def)

lemma bind_get_mesh_run: "bind get_mesh f s = f (mesh s) s"
  by (simp add: bind_def get_mesh_def)

lemma bind_store_run: "bind (store a x) f s = f () (s\<lparr>cells := (cells s)(a := x)\<rparr>)"
  by (simp add: bind_def store_def)

lemma bind_alloc_run:
  "bind (alloc x) f s = f (fresh s) (s\<lparr>cells := (cells s)(fresh s := x), fresh := Suc (fresh s)\<rparr>)"
  by (simp add: bind_def alloc_def)

lemma bind_lift_run: "bind (lift r) f s = (case r of Inl e \<Rightarrow> (Inl e, s) | Inr x \<Rightarrow> f x s)"
  by (cases r) (simp_all add: bind_def lift_def)

lemma resolve_mass_properties: "resolve E ''mass_properties'' = Inl (NameError ''mass_properties'')"
  by (simp add: resolve_def module_names_def)

lemma volume_step_fails: "volume_step E v_ini a = lift (Inl (NameError ''mass_properties''))"
  by (simp add: volume_step_def resolve_mass_properties bind_fail)

lemma range_py_pos: "0 < n \<Longrightarrow> range_py n = 0 # [1..<nat n]"
  by (simp add: range_py_def upt_conv_Cons)

lemma range_py_nonpos: "n \<le> 0 \<Longrightarrow> range_py n = []"
  by (simp add: range_py_def)

lemma laplacian_first_pass:
  assumes "0 < iterations"
  shows "filter_laplacian E lamb iterations implicit True op =
     bind (first_update E lamb implicit op) (\<lambda>a. lift (Inl (NameError ''mass_properties'')))"
  unfolding filter_laplacian_def first_update_def laplacian_pass_def
  by (simp add: range_py_pos [OF assms] volume_step_fails bind_assoc bind_ret_left bind_fail
      del: One_nat_def)

lemma copy_vertices_run:
  "copy_vertices s =
     (Inr (fresh s), s\<lparr>cells := (cells s)(fresh s := cells s (vertices (mesh s))),
                       fresh := Suc (fresh s)\<rparr>)"
  by (simp add: copy_vertices_def bind_get_mesh_run bind_load_run alloc_def)

lemma mesh_triangles_run:
  "mesh_triangles s = (triangles_of (cells s (vertices (mesh s))) (faces (mesh s)), s)"
  by (simp add: mesh_triangles_def bind_get_mesh_run bind_load_run lift_def)

lemma mesh_volume_run:
  "mesh_volume E s =
     (bind_res (triangles_of (cells s (vertices (mesh s))) (faces (mesh s))) (volume E), s)"
proof (cases "triangles_of (cells s (vertices (mesh s))) (faces (mesh s))")
  case (Inl e)
  then show ?thesis by (simp add: mesh_volume_def bind_def mesh_triangles_run)
next
  case (Inr ts)
  then show ?thesis by (simp add: mesh_volume_def bind_def mesh_triangles_run lift_def)
qed

subsection \<open>The passes and the loops\<close>

lemma length_matvec: "length (matvec r M x) = fst (shape M)"
  by (simp add: matvec_def)

lemma length_laplacian_delta:
  "fst (shape L) = length v \<Longrightarrow> length (laplacian_delta r L v) = length v"
  by (simp add: laplacian_delta_def length_matvec)

lemma length_explicit_update:
  "fst (shape L) = length v \<Longrightarrow> length (explicit_update r L lamb v) = length v"
  by (simp add: explicit_update_def np_scale_def length_laplacian_delta)

lemma length_taubin_update:
  "fst (shape L) = length v \<Longrightarrow> length (taubin_update r lamb nu L t v) = length v"
  by (simp add: taubin_update_def np_scale_def length_laplacian_delta)

lemma length_humphrey_update:
  "fst (shape L) = length q \<Longrightarrow> length original = length q \<Longrightarrow>
   length (humphrey_update r alpha beta L original q) = length q"
  by (simp add: humphrey_update_def np_scale_def length_matvec Let_def)

lemma delta_run:
  assumes "shape L = (length v, length v)"
  shows "bind_res (dot r L v) (\<lambda>Lv. np_binary (vsub r) Lv v) = Inr (laplacian_delta r L v)"
  using assms by (simp add: dot_def np_binary_def length_matvec laplacian_delta_def)

lemma explicit_step_run:
  assumes "shape L = (length (cells s a), length (cells s a))"
  shows "explicit_step E L lamb a s =
     (Inr a, s\<lparr>cells := (cells s)(a := explicit_update (rnd E) L lamb (cells s a))\<rparr>)"
proof -
  have len: "length (np_scale (rnd E) lamb (laplacian_delta (rnd E) L (cells s a))) =
      length (cells s a)"
    using assms by (simp add: np_scale_def length_laplacian_delta)
  show ?thesis
    unfolding explicit_step_def
    by (simp add: bind_load_run bind_lift_run delta_run [OF assms] np_inplace_def len
        bind_store_run ret_def explicit_update_def)
qed

lemma taubin_pass_run:
  assumes "shape L = (length (cells s a), length (cells s a))"
  shows "taubin_pass E lamb nu L t a s =
     (Inr a, s\<lparr>cells := (cells s)(a := taubin_update (rnd E) lamb nu L t (cells s a))\<rparr>)"
proof -
  have len: "length (np_scale (rnd E) k (laplacian_delta (rnd E) L (cells s a))) =
      length (cells s a)" for k
    using assms by (simp add: np_scale_def length_laplacian_delta)
  show ?thesis
    unfolding taubin_pass_def
    by (simp add: bind_load_run bind_lift_run delta_run [OF assms] np_inplace_def len
        bind_store_run ret_def taubin_update_def even_iff_mod_2_eq_zero)
qed

lemma humphrey_pass_run:
  assumes "shape L = (length (cells s a), length (cells s a))"
    and "length original = length (cells s a)"
  shows "humphrey_pass E alpha beta L original t a s =
     (Inr (fresh s),
      s\<lparr>cells := (cells s)(fresh s := humphrey_update (rnd E) alpha beta L original (cells s a)),
        fresh := Suc (fresh s)\<rparr>)"
proof -
  let ?r = "rnd E"
  let ?q = "cells s a"
  let ?p = "matvec ?r L ?q"
  let ?m = "map2 (vadd ?r) (np_scale ?r alpha original) (np_scale ?r (?r (1 - alpha)) ?q)"
  let ?b = "map2 (vsub ?r) ?p ?m"
  let ?t = "map2 (vadd ?r) (np_scale ?r beta ?b) (np_scale ?r (?r (1 - beta)) (matvec ?r L ?b))"
  have d: "dot ?r L ?q = Inr ?p" using assms(1) by (simp add: dot_def)
  have lp: "length ?p = length ?q" using assms(1) by (simp add: length_matvec)
  have lm: "length ?m = length ?q" using assms(2) by (simp add: np_scale_def)
  have b1: "np_binary (vadd ?r) (np_scale ?r alpha original) (np_scale ?r (?r (1 - alpha)) ?q) =
      Inr ?m"
    using assms(2) by (simp add: np_binary_def np_scale_def)
  have b2: "np_binary (vsub ?r) ?p ?m = Inr ?b"
    using lp lm by (simp add: np_binary_def)
  have lb: "length ?b = length ?q" using lp lm by simp
  have d2: "dot ?r L ?b = Inr (matvec ?r L ?b)" using assms(1) lb by (simp add: dot_def)
  have b3: "np_binary (vadd ?r) (np_scale ?r beta ?b)
      (np_scale ?r (?r (1 - beta)) (matvec ?r L ?b)) = Inr ?t"
    using assms(1) lb by (simp add: np_binary_def np_scale_def length_matvec)
  have lt: "length ?t = length ?q"
    using assms(1) lb by (simp add: np_scale_def length_matvec)
  have b4: "np_inplace (vsub ?r) ?p ?t = Inr (map2 (vsub ?r) ?p ?t)"
    using lp lt by (simp add: np_inplace_def)
  have h: "humphrey_update ?r alpha beta L original ?q = map2 (vsub ?r) ?p ?t"
    by (simp add: humphrey_update_def Let_def)
  show ?thesis
    unfolding humphrey_pass_def h
    by (simp add: bind_load_run bind_lift_run bind_alloc_run bind_store_run d b1 b2 d2 b3 b4
        ret_def)
qed

lemma for_each_inplace:
  assumes step: "\<And>i s. length (cells s a) = n \<Longrightarrow>
       body i a s = (Inr a, s\<lparr>cells := (cells s)(a := F i (cells s a))\<rparr>)"
    and len: "\<And>i v. length v = n \<Longrightarrow> length (F i v) = n"
  shows "length (cells s a) = n \<Longrightarrow>
     for_each js body a s = (Inr a, s\<lparr>cells := (cells s)(a := fold F js (cells s a))\<rparr>)"
proof (induction js arbitrary: s)
  case Nil
  then show ?case by (simp add: ret_def)
next
  case (Cons i js)
  let ?s1 = "s\<lparr>cells := (cells s)(a := F i (cells s a))\<rparr>"
  have l1: "length (cells ?s1 a) = n"
    using len [OF Cons.prems] by simp
  have "for_each (i # js) body a s = for_each js body a ?s1"
    by (simp add: bind_def step [OF Cons.prems])
  also have "\<dots> = (Inr a, ?s1\<lparr>cells := (cells ?s1)(a := fold F js (cells ?s1 a))\<rparr>)"
    by (rule Cons.IH [OF l1])
  finally show ?case by (simp add: fun_upd_def cong: if_cong)
qed

lemma fold_const: "fold (\<lambda>i. f) js v = (f ^^ length js) v"
  by (induction js arbitrary: v) (simp_all add: funpow_swap1)

lemma length_range_py: "length (range_py n) = nat n"
  by (simp add: range_py_def)

lemma for_each_humphrey:
  assumes "shape L = (n, n)" and "length original = n"
  shows "length (cells s a) = n \<Longrightarrow>
     \<exists>b s'. for_each js (humphrey_pass E alpha beta L original) a s = (Inr b, s') \<and>
       cells s' b = (humphrey_update (rnd E) alpha beta L original ^^ length js) (cells s a) \<and>
       mesh s' = mesh s"
proof (induction js arbitrary: s a)
  case Nil
  then show ?case by (simp add: ret_def)
next
  case (Cons i js)
  let ?v = "humphrey_update (rnd E) alpha beta L original (cells s a)"
  let ?s1 = "s\<lparr>cells := (cells s)(fresh s := ?v), fresh := Suc (fresh s)\<rparr>"
  have run: "humphrey_pass E alpha beta L original i a s = (Inr (fresh s), ?s1)"
    using assms Cons.prems by (intro humphrey_pass_run) simp_all
  have l1: "length (cells ?s1 (fresh s)) = n"
    using assms Cons.prems by (simp add: length_humphrey_update)
  from Cons.IH [OF l1] obtain b s' where
    r: "for_each js (humphrey_pass E alpha beta L original) (fresh s) ?s1 = (Inr b, s')"
    and c: "cells s' b =
      (humphrey_update (rnd E) alpha beta L original ^^ length js) (cells ?s1 (fresh s))"
    and m: "mesh s' = mesh ?s1"
    by blast
  have "for_each (i # js) (humphrey_pass E alpha beta L original) a s = (Inr b, s')"
    by (simp add: bind_def run r)
  moreover have "cells s' b =
      (humphrey_update (rnd E) alpha beta L original ^^ length (i # js)) (cells s a)"
    using c by (simp add: funpow_swap1)
  moreover have "mesh s' = mesh s" using m by simp
  ultimately show ?case by blast
qed

lemma filter_taubin_run:
  assumes "get_operator E op s = (Inr L, s)" and "v0 = cells s (vertices (mesh s))"
    and "shape L = (length v0, length v0)"
  shows "filter_taubin E lamb nu iterations op s =
     (Inr (),
      s\<lparr>cells := (cells s)(fresh s :=
           fold (taubin_update (rnd E) lamb nu L) (range_py iterations) v0),
        fresh := Suc (fresh s), mesh := (mesh s)\<lparr>vertices := fresh s\<rparr>\<rparr>)"
proof -
  let ?s1 = "s\<lparr>cells := (cells s)(fresh s := v0), fresh := Suc (fresh s)\<rparr>"
  have loop: "for_each js (taubin_pass E lamb nu L) (fresh s) ?s1 =
      (Inr (fresh s), ?s1\<lparr>cells := (cells ?s1)(fresh s :=
         fold (taubin_update (rnd E) lamb nu L) js (cells ?s1 (fresh s)))\<rparr>)" for js
  proof (rule for_each_inplace [where n = "length v0"])
    fix i and t :: "'a trimesh_scheme world"
    assume "length (cells t (fresh s)) = length v0"
    then show "taubin_pass E lamb nu L i (fresh s) t =
        (Inr (fresh s), t\<lparr>cells := (cells t)(fresh s :=
           taubin_update (rnd E) lamb nu L i (cells t (fresh s)))\<rparr>)"
      using assms(3) by (intro taubin_pass_run) simp
  next
    fix i and v :: ndarray
    assume "length v = length v0"
    then show "length (taubin_update (rnd E) lamb nu L i v) = length v0"
      using assms(3) by (simp add: length_taubin_update)
  next
    show "length (cells ?s1 (fresh s)) = length v0" by simp
  qed
  show ?thesis
    unfolding filter_taubin_def
    by (simp add: bind_def assms(1) copy_vertices_run assms(2) [symmetric] loop set_vertices_def)
qed

lemma filter_laplacian_explicit_run:
  assumes "get_operator E op s = (Inr L, s)" and "v0 = cells s (vertices (mesh s))"
    and "shape L = (length v0, length v0)"
  shows "filter_laplacian E lamb iterations False False op s =
     (Inr (),
      s\<lparr>cells := (cells s)(fresh s := (explicit_update (rnd E) L lamb ^^ nat iterations) v0),
        fresh := Suc (fresh s), mesh := (mesh s)\<lparr>vertices := fresh s\<rparr>\<rparr>)"
proof -
  let ?s1 = "s\<lparr>cells := (cells s)(fresh s := v0), fresh := Suc (fresh s)\<rparr>"
  let ?body = "laplacian_pass E lamb False False L None None"
  have loop: "for_each js ?body (fresh s) ?s1 =
      (Inr (fresh s), ?s1\<lparr>cells := (cells ?s1)(fresh s :=
         fold (\<lambda>i. explicit_update (rnd E) L lamb) js (cells ?s1 (fresh s)))\<rparr>)" for js
  proof (rule for_each_inplace [where n = "length v0"])
    fix i and t :: "'a trimesh_scheme world"
    assume "length (cells t (fresh s)) = length v0"
    then have "explicit_step E L lamb (fresh s) t =
        (Inr (fresh s), t\<lparr>cells := (cells t)(fresh s :=
           explicit_update (rnd E) L lamb (cells t (fresh s)))\<rparr>)"
      using assms(3) by (intro explicit_step_run) simp
    then show "?body i (fresh s) t =
        (Inr (fresh s), t\<lparr>cells := (cells t)(fresh s :=
           explicit_update (rnd E) L lamb (cells t (fresh s)))\<rparr>)"
      by (simp add: laplacian_pass_def bind_def ret_def)
  next
    fix i and v :: ndarray
    assume "length v = length v0"
    then show "length (explicit_update (rnd E) L lamb v) = length v0"
      using assms(3) by (simp add: length_explicit_update)
  next
    show "length (cells ?s1 (fresh s)) = length v0" by simp
  qed
  show ?thesis
    unfolding filter_laplacian_def
    by (simp add: bind_def assms(1) copy_vertices_run assms(2) [symmetric] ret_def loop
        set_vertices_def fold_const length_range_py)
qed

lemma filter_humphrey_run:
  assumes "get_operator E op s = (Inr L, s)" and "v0 = cells s (vertices (mesh s))"
    and "shape L = (length v0, length v0)"
  shows "\<exists>s'. filter_humphrey E alpha beta iterations op s = (Inr (), s') \<and>
     cells s' (vertices (mesh s')) =
       (humphrey_update (rnd E) alpha beta L v0 ^^ nat iterations) v0 \<and>
     mesh s' = (mesh s)\<lparr>vertices := vertices (mesh s')\<rparr>"
proof -
  let ?s1 = "s\<lparr>cells := (cells s)(fresh s := v0), fresh := Suc (fresh s)\<rparr>"
  have "length (cells ?s1 (fresh s)) = length v0" by simp
  from for_each_humphrey [OF assms(3) refl this, where E = E and alpha = alpha and beta = beta
      and js = "range_py iterations"]
  obtain b s2 where
    r: "for_each (range_py iterations) (humphrey_pass E alpha beta L v0) (fresh s) ?s1 = (Inr b, s2)"
    and c: "cells s2 b = (humphrey_update (rnd E) alpha beta L v0 ^^ nat iterations) v0"
    and m: "mesh s2 = mesh s"
    by (auto simp add: length_range_py)
  let ?s' = "s2\<lparr>mesh := (mesh s2)\<lparr>vertices := b\<rparr>\<rparr>"
  have "filter_humphrey E alpha beta iterations op s = (Inr (), ?s')"
    unfolding filter_humphrey_def
    by (simp add: bind_def assms(1) copy_vertices_run assms(2) [symmetric] load_def r
        set_vertices_def)
  moreover have "cells ?s' (vertices (mesh ?s')) =
      (humphrey_update (rnd E) alpha beta L v0 ^^ nat iterations) v0"
    using c by simp
  moreover have "mesh ?s' = (mesh s)\<lparr>vertices := vertices (mesh ?s')\<rparr>"
    using m by simp
  ultimately show ?thesis by blast
qed

section \<open>The volume constraint\<close>

lemma get_operator_None_run:
  "get_operator E None s =
     (case laplacian_matrix E (cells s (vertices (mesh s))) (vertex_neighbors (mesh s)) True of
        Inl e \<Rightarrow> (Inl e, s)
      | Inr M \<Rightarrow> (Inr (real_matrix M), s))"
  by (simp add: get_operator_def bind_def laplacian_calculation_run ret_def split: sum.split)

lemma tetra_operator_any:
  "scipy E \<Longrightarrow> get_operator E None tetra_world =
     (Inr \<lparr>shape = (4, 4), row = [0, 0, 0, 1, 1, 1, 2, 2, 2, 3, 3, 3],
           col = [1, 2, 3, 0, 2, 3, 0, 1, 3, 0, 1, 2],
           data = [1 / 3, 1 / 3, 1 / 3, 1 / 3, 1 / 3, 1 / 3, 1 / 3, 1 / 3, 1 / 3, 1 / 3, 1 / 3, 1 / 3]\<rparr>,
      tetra_world)"
  by (simp add: get_operator_None_run laplacian_matrix_equal_cases
      tetra_world_def row_index_def enumerate_eq_zip upt_rec)

lemma tetra_operator:
  "get_operator example_env None tetra_world =
     (Inr \<lparr>shape = (4, 4), row = [0, 0, 0, 1, 1, 1, 2, 2, 2, 3, 3, 3],
           col = [1, 2, 3, 0, 2, 3, 0, 1, 3, 0, 1, 2],
           data = [1 / 3, 1 / 3, 1 / 3, 1 / 3, 1 / 3, 1 / 3, 1 / 3, 1 / 3, 1 / 3, 1 / 3, 1 / 3, 1 / 3]\<rparr>,
      tetra_world)"
  by (rule tetra_operator_any) (simp add: example_env_def)

lemma tetra_volume: "mesh_volume example_env tetra_world = (Inr (1 / 6), tetra_world)"
  by (simp add: mesh_volume_run tetra_world_def example_env_def triangles_of_def corner_def)

lemma tetra_vertices:
  "cells tetra_world (vertices (mesh tetra_world)) = [(0, 0, 0), (1, 0, 0), (0, 1, 0), (0, 0, 1)]"
  "vertices (mesh tetra_world) < fresh tetra_world"
  by (simp_all add: tetra_world_def)

lemma first_update_explicit_run:
  assumes "get_operator E op s = (Inr L, s)" and "mesh_volume E s = (Inr v, s)"
    and "v0 = cells s (vertices (mesh s))" and "shape L = (length v0, length v0)"
  shows "first_update E lamb False op s =
     (Inr (fresh s),
      s\<lparr>cells := (cells s)(fresh s := explicit_update (rnd E) L lamb v0),
        fresh := Suc (fresh s)\<rparr>)"
proof -
  let ?s1 = "s\<lparr>cells := (cells s)(fresh s := v0), fresh := Suc (fresh s)\<rparr>"
  have "explicit_step E L lamb (fresh s) ?s1 =
      (Inr (fresh s), ?s1\<lparr>cells := (cells ?s1)(fresh s :=
         explicit_update (rnd E) L lamb (cells ?s1 (fresh s)))\<rparr>)"
    using assms(4) by (intro explicit_step_run) simp
  then show ?thesis
    unfolding first_update_def
    by (simp add: bind_def assms(1,2) copy_vertices_run assms(3) [symmetric] ret_def)
qed

text \<open>
  Claim C2, as amended. With the volume constraint on and at least one iteration, the call
  is the statements before the first volume computation followed by the \<open>NameError\<close> for
  \<^verbatim>\<open>mass_properties\<close>: it raises that error unless an earlier statement has raised, it
  always fails, and the mesh and every array that existed before are left as they were.
  With no iteration to run the loop body is skipped: if the operator, the initial volume
  and the system matrix are obtained, the call completes and binds the mesh to a copy of
  its vertex array.
\<close>

theorem volume_constraint_name_error:
  "(0 < iterations \<longrightarrow>
      filter_laplacian E lamb iterations implicit True op s =
        (case first_update E lamb implicit op s of
           (Inl e, s') \<Rightarrow> (Inl e, s')
         | (Inr a, s') \<Rightarrow> (Inl (NameError ''mass_properties''), s')) \<and>
      (\<exists>e s'. filter_laplacian E lamb iterations implicit True op s = (Inl e, s') \<and>
         mesh s' = mesh s \<and> (\<forall>a<fresh s. cells s' a = cells s a))) \<and>
   (iterations \<le> 0 \<and> get_operator E op s = (Inr L, s) \<and> mesh_volume E s = (Inr v, s) \<and>
    (implicit \<longrightarrow> system_matrix E lamb L = Inr A) \<longrightarrow>
      filter_laplacian E lamb iterations implicit True op s =
        (Inr (), s\<lparr>cells := (cells s)(fresh s := cells s (vertices (mesh s))),
                   fresh := Suc (fresh s), mesh := (mesh s)\<lparr>vertices := fresh s\<rparr>\<rparr>))"
proof (intro conjI impI)
  assume pos: "0 < iterations"
  let ?F = "filter_laplacian E lamb iterations implicit True op"
  obtain r1 s1 where fu: "first_update E lamb implicit op s = (r1, s1)"
    by (cases "first_update E lamb implicit op s")
  show eq: "?F s =
        (case first_update E lamb implicit op s of
           (Inl e, s') \<Rightarrow> (Inl e, s')
         | (Inr a, s') \<Rightarrow> (Inl (NameError ''mass_properties''), s'))"
    by (cases r1) (simp_all add: laplacian_first_pass [OF pos] bind_def fu lift_def)
  have "\<exists>e. ?F s = (Inl e, s1)"
    unfolding eq by (cases r1) (simp_all add: fu)
  then obtain e where run: "?F s = (Inl e, s1)" ..
  note d = finalD [OF final_filter_laplacian order_refl run]
  have "mesh s1 = mesh s" by (rule d(2)) (rule refl)
  with run d(1) show "\<exists>e s'. ?F s = (Inl e, s') \<and>
         mesh s' = mesh s \<and> (\<forall>a<fresh s. cells s' a = cells s a)"
    by blast
next
  assume a: "iterations \<le> 0 \<and> get_operator E op s = (Inr L, s) \<and> mesh_volume E s = (Inr v, s) \<and>
    (implicit \<longrightarrow> system_matrix E lamb L = Inr A)"
  then have r: "range_py iterations = []" by (simp add: range_py_nonpos)
  show "filter_laplacian E lamb iterations implicit True op s =
        (Inr (), s\<lparr>cells := (cells s)(fresh s := cells s (vertices (mesh s))),
                   fresh := Suc (fresh s), mesh := (mesh s)\<lparr>vertices := fresh s\<rparr>\<rparr>)"
    unfolding filter_laplacian_def using a
    by (cases implicit)
      (simp_all add: bind_def copy_vertices_run ret_def r lift_def set_vertices_def)
qed

theorem volume_constraint_name_error_witness:
  "fst (filter_laplacian example_env (1 / 2) 10 False True None tetra_world) =
     Inl (NameError ''mass_properties'') \<and>
   mesh (snd (filter_laplacian example_env (1 / 2) 10 False True None tetra_world)) = mesh tetra_world"
proof -
  let ?F = "filter_laplacian example_env (1 / 2) 10 False True None"
  have fu: "fst (first_update example_env (1 / 2) False None tetra_world) = Inr (fresh tetra_world)"
    by (simp add: first_update_explicit_run [OF tetra_operator tetra_volume refl] tetra_vertices)
  have pos: "(0::int) < 10" by simp
  from volume_constraint_name_error [of 10 example_env "1 / 2" False None tetra_world] pos
  have eq: "?F tetra_world =
        (case first_update example_env (1 / 2) False None tetra_world of
           (Inl e, s') \<Rightarrow> (Inl e, s')
         | (Inr a, s') \<Rightarrow> (Inl (NameError ''mass_properties''), s'))"
    and ex: "\<exists>e s'. ?F tetra_world = (Inl e, s') \<and> mesh s' = mesh tetra_world \<and>
        (\<forall>a<fresh tetra_world. cells s' a = cells tetra_world a)"
    by blast+
  have "fst (?F tetra_world) = Inl (NameError ''mass_properties'')"
    unfolding eq using fu
    by (cases "first_update example_env (1 / 2) False None tetra_world") simp
  moreover from ex have "mesh (snd (?F tetra_world)) = mesh tetra_world"
    by auto
  ultimately show ?thesis by simp
qed

text \<open>
  Claim C2 as stated fails: with no iteration to run, the call with the volume constraint
  on completes.
\<close>

theorem volume_constraint_counterexample:
  "fst (filter_laplacian example_env (1 / 2) 0 False True None tetra_world) = Inr ()"
  by (simp add: filter_laplacian_def bind_def tetra_operator tetra_volume copy_vertices_run
      ret_def range_py_nonpos set_vertices_def)

text \<open>
  Claim C1 fails on the code. On the tetrahedron with the default volume constraint, the
  first pass updates the working copy and then stops at line 74 with the \<open>NameError\<close> for
  \<^verbatim>\<open>mass_properties\<close>: no volume is computed, nothing is rescaled and the mesh keeps its
  positions.
\<close>

theorem volume_rescale_never_runs:
  "fst (filter_laplacian example_env (1 / 2) 10 False True None tetra_world) =
     Inl (NameError ''mass_properties'') \<and>
   cells (snd (filter_laplacian example_env (1 / 2) 10 False True None tetra_world))
     (vertices (mesh (snd (filter_laplacian example_env (1 / 2) 10 False True None tetra_world)))) =
     [(0, 0, 0), (1, 0, 0), (0, 1, 0), (0, 0, 1)]"
proof -
  have pos: "(0::int) < 10" by simp
  show ?thesis
    by (simp add: laplacian_first_pass [OF pos] bind_def lift_def
        first_update_explicit_run [OF tetra_operator tetra_volume refl] tetra_vertices)
      (simp add: tetra_world_def)
qed

section \<open>Failing and completing calls\<close>

text \<open>
  Claim C5. A filter call that fails, whatever the failure and wherever it is raised, leaves
  every attribute of the mesh bound as it was and every array that existed before the call
  with its contents: the vertex positions of the mesh are those from before the call.
\<close>

theorem failed_filter_leaves_mesh:
  assumes "vertices (mesh s) < fresh s"
  shows "(filter_laplacian E lamb iterations implicit vc op s = (Inl e, s') \<longrightarrow>
            mesh s' = mesh s \<and> (\<forall>a<fresh s. cells s' a = cells s a) \<and>
            cells s' (vertices (mesh s')) = cells s (vertices (mesh s))) \<and>
         (filter_humphrey E alpha beta iterations op s = (Inl e, s') \<longrightarrow>
            mesh s' = mesh s \<and> (\<forall>a<fresh s. cells s' a = cells s a) \<and>
            cells s' (vertices (mesh s')) = cells s (vertices (mesh s))) \<and>
         (filter_taubin E lamb nu iterations op s = (Inl e, s') \<longrightarrow>
            mesh s' = mesh s \<and> (\<forall>a<fresh s. cells s' a = cells s a) \<and>
            cells s' (vertices (mesh s')) = cells s (vertices (mesh s)))"
proof -
  have k: "mesh s' = mesh s \<and> (\<forall>a<fresh s. cells s' a = cells s a) \<and>
            cells s' (vertices (mesh s')) = cells s (vertices (mesh s))"
    if f: "final (fresh s) p" and run: "p s = (Inl e, s')" for p
  proof -
    note d = finalD [OF f order_refl run]
    have m: "mesh s' = mesh s" by (rule d(2)) (rule refl)
    from d(1) assms have "cells s' (vertices (mesh s)) = cells s (vertices (mesh s))"
      by simp
    with m d(1) show ?thesis by simp
  qed
  show ?thesis
    using k [OF final_filter_laplacian] k [OF final_filter_humphrey] k [OF final_filter_taubin]
    by blast
qed

lemma empty_operator_humphrey:
  "fst (filter_humphrey E alpha beta 10 (Some empty_operator) tetra_world) = Inl ValueError"
  by (simp add: filter_humphrey_def get_operator_def bind_def ret_def copy_vertices_run
      load_def range_py_pos humphrey_pass_def lift_def dot_def empty_operator_def tetra_world_def
      del: One_nat_def)

lemma empty_operator_taubin:
  "fst (filter_taubin E lamb nu 10 (Some empty_operator) tetra_world) = Inl ValueError"
  by (simp add: filter_taubin_def get_operator_def bind_def ret_def copy_vertices_run
      load_def range_py_pos taubin_pass_def lift_def dot_def empty_operator_def tetra_world_def
      del: One_nat_def)

lemma tetra_name_error:
  "fst (filter_laplacian example_env (1 / 2) 10 False True None tetra_world) =
     Inl (NameError ''mass_properties'')"
proof -
  have pos: "(0::int) < 10" by simp
  show ?thesis
    by (simp add: laplacian_first_pass [OF pos] bind_def lift_def
        first_update_explicit_run [OF tetra_operator tetra_volume refl] tetra_vertices)
qed

theorem failed_filter_leaves_mesh_witness:
  "fst (filter_laplacian example_env (1 / 2) 10 False True None tetra_world) =
     Inl (NameError ''mass_properties'') \<and>
   mesh (snd (filter_laplacian example_env (1 / 2) 10 False True None tetra_world)) = mesh tetra_world \<and>
   cells (snd (filter_laplacian example_env (1 / 2) 10 False True None tetra_world)) 0 =
     [(0, 0, 0), (1, 0, 0), (0, 1, 0), (0, 0, 1)] \<and>
   fst (filter_humphrey example_env (1 / 10) (1 / 2) 10 (Some empty_operator) tetra_world) = Inl ValueError \<and>
   cells (snd (filter_humphrey example_env (1 / 10) (1 / 2) 10 (Some empty_operator) tetra_world)) 0 =
     [(0, 0, 0), (1, 0, 0), (0, 1, 0), (0, 0, 1)] \<and>
   fst (filter_taubin example_env (1 / 2) (1 / 2) 10 (Some empty_operator) tetra_world) = Inl ValueError \<and>
   cells (snd (filter_taubin example_env (1 / 2) (1 / 2) 10 (Some empty_operator) tetra_world)) 0 =
     [(0, 0, 0), (1, 0, 0), (0, 1, 0), (0, 0, 1)]"
proof -
  let ?L = "filter_laplacian example_env (1 / 2) 10 False True None tetra_world"
  let ?H = "filter_humphrey example_env (1 / 10) (1 / 2) 10 (Some empty_operator) tetra_world"
  let ?T = "filter_taubin example_env (1 / 2) (1 / 2) 10 (Some empty_operator) tetra_world"
  have l: "?L = (Inl (NameError ''mass_properties''), snd ?L)"
    using tetra_name_error by (simp add: prod_eq_iff)
  have h: "?H = (Inl ValueError, snd ?H)"
    using empty_operator_humphrey [of example_env "1 / 10" "1 / 2"] by (simp add: prod_eq_iff)
  have t: "?T = (Inl ValueError, snd ?T)"
    using empty_operator_taubin [of example_env "1 / 2" "1 / 2"] by (simp add: prod_eq_iff)
  have z: "vertices (mesh tetra_world) = 0" by (simp add: tetra_world_def)
  from failed_filter_leaves_mesh [OF tetra_vertices(2), of example_env "1 / 2" 10 False True None
      "NameError ''mass_properties''" "snd ?L"] l
  have w1: "mesh (snd ?L) = mesh tetra_world"
    and w2: "cells (snd ?L) (vertices (mesh (snd ?L))) = cells tetra_world (vertices (mesh tetra_world))"
    by blast+
  from failed_filter_leaves_mesh [OF tetra_vertices(2), where E = example_env and alpha = "1 / 10"
      and beta = "1 / 2" and iterations = 10 and op = "Some empty_operator" and e = ValueError
      and s' = "snd ?H"] h
  have w3: "cells (snd ?H) (vertices (mesh (snd ?H))) = cells tetra_world (vertices (mesh tetra_world))"
    and w3m: "mesh (snd ?H) = mesh tetra_world"
    by blast+
  from failed_filter_leaves_mesh [OF tetra_vertices(2), where E = example_env and lamb = "1 / 2"
      and nu = "1 / 2" and iterations = 10 and op = "Some empty_operator" and e = ValueError
      and s' = "snd ?T"] t
  have w4: "cells (snd ?T) (vertices (mesh (snd ?T))) = cells tetra_world (vertices (mesh tetra_world))"
    and w4m: "mesh (snd ?T) = mesh tetra_world"
    by blast+
  show ?thesis
    using tetra_name_error empty_operator_humphrey [of example_env "1 / 10" "1 / 2"]
      empty_operator_taubin [of example_env "1 / 2" "1 / 2"] w1 w2 w3 w3m w4 w4m
    by (simp add: z tetra_vertices(1) [unfolded z])
qed

lemma tetra_shape:
  "shape \<lparr>shape = (4, 4), row = [0, 0, 0, 1, 1, 1, 2, 2, 2, 3, 3, 3],
           col = [1, 2, 3, 0, 2, 3, 0, 1, 3, 0, 1, 2],
           data = [1 / 3, 1 / 3, 1 / 3, 1 / 3, 1 / 3, 1 / 3, 1 / 3, 1 / 3, 1 / 3, 1 / 3, 1 / 3, 1 / 3 :: real]\<rparr>
   = (length (cells tetra_world (vertices (mesh tetra_world))),
      length (cells tetra_world (vertices (mesh tetra_world))))"
  by (simp add: tetra_vertices)

text \<open>
  Claim C10. \<open>laplacian_calculation\<close> leaves the whole state as it was. A filter call that
  completes has bound the \<^verbatim>\<open>vertices\<close> attribute and nothing else: the faces, the
  neighbour lists and every further field of the mesh are the same, and so is every array
  that existed before the call.
\<close>

theorem only_vertices_replaced:
  "snd (laplacian_calculation E ew s) = s \<and>
   (filter_laplacian E lamb iterations implicit vc op s = (Inr u, s') \<longrightarrow>
      faces (mesh s') = faces (mesh s) \<and>
      vertex_neighbors (mesh s') = vertex_neighbors (mesh s) \<and>
      trimesh.more (mesh s') = trimesh.more (mesh s) \<and>
      (\<forall>a<fresh s. cells s' a = cells s a)) \<and>
   (filter_humphrey E alpha beta iterations op s = (Inr u, s') \<longrightarrow>
      faces (mesh s') = faces (mesh s) \<and>
      vertex_neighbors (mesh s') = vertex_neighbors (mesh s) \<and>
      trimesh.more (mesh s') = trimesh.more (mesh s) \<and>
      (\<forall>a<fresh s. cells s' a = cells s a)) \<and>
   (filter_taubin E lamb nu iterations op s = (Inr u, s') \<longrightarrow>
      faces (mesh s') = faces (mesh s) \<and>
      vertex_neighbors (mesh s') = vertex_neighbors (mesh s) \<and>
      trimesh.more (mesh s') = trimesh.more (mesh s) \<and>
      (\<forall>a<fresh s. cells s' a = cells s a))"
proof -
  have k: "faces (mesh s') = faces (mesh s) \<and>
      vertex_neighbors (mesh s') = vertex_neighbors (mesh s) \<and>
      trimesh.more (mesh s') = trimesh.more (mesh s) \<and>
      (\<forall>a<fresh s. cells s' a = cells s a)"
    if f: "final (fresh s) p" and run: "p s = (Inr u, s')" for p
  proof -
    note d = finalD [OF f order_refl run]
    have m: "mesh s' = (mesh s)\<lparr>vertices := vertices (mesh s')\<rparr>" by (rule d(3)) (rule refl)
    have "faces (mesh s') = faces ((mesh s)\<lparr>vertices := vertices (mesh s')\<rparr>)"
      and "vertex_neighbors (mesh s') = vertex_neighbors ((mesh s)\<lparr>vertices := vertices (mesh s')\<rparr>)"
      and "trimesh.more (mesh s') = trimesh.more ((mesh s)\<lparr>vertices := vertices (mesh s')\<rparr>)"
      using m by simp_all
    with d(1) show ?thesis by simp
  qed
  have "snd (laplacian_calculation E ew s) = s"
    by (simp add: laplacian_calculation_run)
  with k [OF final_filter_laplacian] k [OF final_filter_humphrey] k [OF final_filter_taubin]
  show ?thesis by blast
qed

theorem only_vertices_replaced_witness:
  "fst (filter_laplacian example_env (1 / 2) 10 False False None tetra_world) = Inr () \<and>
   vertex_neighbors (mesh (snd (filter_laplacian example_env (1 / 2) 10 False False None tetra_world)))
     = [[1, 2, 3], [0, 2, 3], [0, 1, 3], [0, 1, 2]] \<and>
   fst (filter_humphrey example_env (1 / 10) (1 / 2) 10 None tetra_world) = Inr () \<and>
   faces (mesh (snd (filter_humphrey example_env (1 / 10) (1 / 2) 10 None tetra_world)))
     = [(0, 2, 1), (0, 1, 3), (0, 3, 2), (1, 2, 3)] \<and>
   fst (filter_taubin example_env (1 / 2) (1 / 2) 10 None tetra_world) = Inr () \<and>
   cells (snd (filter_taubin example_env (1 / 2) (1 / 2) 10 None tetra_world)) 0
     = [(0, 0, 0), (1, 0, 0), (0, 1, 0), (0, 0, 1)]"
proof -
  let ?L = "filter_laplacian example_env (1 / 2) 10 False False None tetra_world"
  let ?H = "filter_humphrey example_env (1 / 10) (1 / 2) 10 None tetra_world"
  let ?T = "filter_taubin example_env (1 / 2) (1 / 2) 10 None tetra_world"
  have fl: "fst ?L = Inr ()"
    by (simp add: filter_laplacian_explicit_run [OF tetra_operator refl tetra_shape])
  have ft: "fst ?T = Inr ()"
    by (simp add: filter_taubin_run [OF tetra_operator refl tetra_shape])
  have fh: "fst ?H = Inr ()"
    using filter_humphrey_run [OF tetra_operator refl tetra_shape, of "1 / 10" "1 / 2" 10]
    by auto
  have l: "?L = (Inr (), snd ?L)" using fl by (simp add: prod_eq_iff)
  have h: "?H = (Inr (), snd ?H)" using fh by (simp add: prod_eq_iff)
  have t: "?T = (Inr (), snd ?T)" using ft by (simp add: prod_eq_iff)
  from only_vertices_replaced [where E = example_env and lamb = "1 / 2" and iterations = 10
      and implicit = False and vc = False and op = None and s = tetra_world and u = "()"
      and s' = "snd ?L"] l
  have w1: "vertex_neighbors (mesh (snd ?L)) = vertex_neighbors (mesh tetra_world)"
    by blast
  from only_vertices_replaced [where E = example_env and alpha = "1 / 10" and beta = "1 / 2"
      and iterations = 10 and op = None and s = tetra_world and u = "()" and s' = "snd ?H"] h
  have w2: "faces (mesh (snd ?H)) = faces (mesh tetra_world)"
    by blast
  from only_vertices_replaced [where E = example_env and lamb = "1 / 2" and nu = "1 / 2"
      and iterations = 10 and op = None and s = tetra_world and u = "()" and s' = "snd ?T"] t
  have w3: "\<forall>a<fresh tetra_world. cells (snd ?T) a = cells tetra_world a"
    by blast
  have "cells (snd ?T) 0 = cells tetra_world 0"
    using w3 by (simp add: tetra_world_def)
  with fl fh ft w1 w2 show ?thesis
    by (simp add: tetra_world_def)
qed

section \<open>Rounding to float64\<close>

text \<open>
  \<open>fl64\<close> between two powers of two and its relative error. An integer up to \<open>2\<^sup>5\<^sup>3\<close> is a
  float64; above, every second integer up to \<open>2\<^sup>5\<^sup>4\<close> and every fourth up to \<open>2\<^sup>5\<^sup>5\<close> is
  one, and the others are rounded to the nearest of these, a tie to the one whose quotient by
  the spacing is even.
\<close>

lemma round_half_even_int: "round_half_even (of_int n) = n"
  by (simp add: round_half_even_def)

lemma round_half_even_error: "\<bar>of_int (round_half_even y) - y\<bar> \<le> 1 / 2"
  unfolding round_half_even_def Let_def
  by (auto split: if_splits)

lemma fl64_eq:
  assumes "2 powr of_int e \<le> \<bar>x\<bar>" and "\<bar>x\<bar> < 2 powr (of_int e + 1)"
  shows "fl64 x = of_int (round_half_even (x / 2 powr (of_int e - 52))) * 2 powr (of_int e - 52)"
proof -
  have "(0::real) < 2 powr of_int e" by simp
  with assms(1) have "0 < \<bar>x\<bar>" by linarith
  then have x: "x \<noteq> 0" by simp
  have "\<lfloor>log 2 \<bar>x\<bar>\<rfloor> = e"
    using assms \<open>0 < \<bar>x\<bar>\<close> by (simp add: floor_log_eq_powr_iff)
  then show ?thesis using x by (simp add: fl64_def Let_def)
qed

lemma fl64_high:
  assumes "2 ^ n \<le> \<bar>x\<bar>" and "\<bar>x\<bar> < 2 * 2 ^ n" and "52 \<le> n"
  shows "fl64 x = of_int (round_half_even (x / 2 ^ (n - 52))) * 2 ^ (n - 52)"
proof -
  have a: "(2::real) powr of_int (int n) = 2 ^ n"
    by (simp add: powr_realpow)
  have b: "(2::real) powr (of_int (int n) + 1) = 2 * 2 ^ n"
    by (simp add: powr_add powr_realpow)
  have c: "(2::real) powr (of_int (int n) - 52) = 2 ^ (n - 52)"
    using assms(3) by (simp add: powr_realpow [symmetric] of_nat_diff)
  from fl64_eq [of "int n" x] assms(1,2) show ?thesis
    by (simp only: a b c)
qed

lemma fl64_low:
  assumes "2 ^ n \<le> \<bar>x\<bar>" and "\<bar>x\<bar> < 2 * 2 ^ n" and "n \<le> 52"
  shows "fl64 x = of_int (round_half_even (x * 2 ^ (52 - n))) / 2 ^ (52 - n)"
proof -
  have a: "(2::real) powr of_int (int n) = 2 ^ n"
    by (simp add: powr_realpow)
  have b: "(2::real) powr (of_int (int n) + 1) = 2 * 2 ^ n"
    by (simp add: powr_add powr_realpow)
  have "(2::real) powr (of_int (int n) - 52) = 2 powr (- real (52 - n))"
    using assms(3) by (simp add: of_nat_diff)
  also have "\<dots> = 1 / 2 ^ (52 - n)"
    by (simp add: powr_minus powr_realpow divide_inverse)
  finally have c: "(2::real) powr (of_int (int n) - 52) = 1 / 2 ^ (52 - n)" .
  from fl64_eq [of "int n" x] assms(1,2) show ?thesis
    by (simp only: a b c) simp
qed

lemma fl64_error: "\<bar>fl64 x - x\<bar> \<le> \<bar>x\<bar> / 2 ^ 53"
proof (cases "x = 0")
  case True
  then show ?thesis by (simp add: fl64_def)
next
  case False
  define e where "e = \<lfloor>log 2 \<bar>x\<bar>\<rfloor>"
  define ulp :: real where "ulp = 2 powr (of_int e - 52)"
  have pos: "0 < ulp" by (simp add: ulp_def)
  have "2 powr of_int e \<le> \<bar>x\<bar>"
    using False floor_log_eq_powr_iff [of "\<bar>x\<bar>" 2 e] by (simp add: e_def)
  moreover have "2 powr of_int e = ulp * 2 ^ 52"
    by (simp add: ulp_def powr_diff)
  ultimately have lo: "ulp * 2 ^ 52 \<le> \<bar>x\<bar>" by simp
  have f: "fl64 x = of_int (round_half_even (x / ulp)) * ulp"
    using False by (simp add: fl64_def Let_def e_def ulp_def)
  have "fl64 x - x = (of_int (round_half_even (x / ulp)) - x / ulp) * ulp"
    using pos by (simp add: f left_diff_distrib)
  then have "\<bar>fl64 x - x\<bar> = \<bar>of_int (round_half_even (x / ulp)) - x / ulp\<bar> * ulp"
    using pos by (simp add: abs_mult)
  also have "\<dots> \<le> 1 / 2 * ulp"
    using round_half_even_error [of "x / ulp"] pos by (intro mult_right_mono) simp_all
  also have "\<dots> \<le> \<bar>x\<bar> / 2 ^ 53"
    using lo by simp
  finally show ?thesis .
qed

lemma fl64_int:
  assumes "\<bar>n\<bar> \<le> 2 ^ 53"
  shows "fl64 (of_int n) = of_int n"
proof (cases "n = 0")
  case True
  then show ?thesis by (simp add: fl64_def)
next
  case False
  define x :: real where "x = of_int n"
  define e where "e = \<lfloor>log 2 \<bar>x\<bar>\<rfloor>"
  have x1: "1 \<le> \<bar>x\<bar>" using False by (simp add: x_def)
  have x2: "\<bar>x\<bar> \<le> 2 ^ 53"
  proof -
    have "\<bar>x\<bar> = of_int \<bar>n\<bar>" by (simp add: x_def)
    also have "\<dots> \<le> of_int (2 ^ 53)" using assms by (simp only: of_int_le_iff)
    finally show ?thesis by simp
  qed
  have lo: "2 powr of_int e \<le> \<bar>x\<bar>" and hi: "\<bar>x\<bar> < 2 powr (of_int e + 1)"
    using x1 floor_log_eq_powr_iff [of "\<bar>x\<bar>" 2 e] by (simp_all add: e_def)
  have e0: "0 \<le> e"
    unfolding e_def using x1 by simp
  have "(2::real) powr real_of_int 53 = 2 ^ 53"
    using powr_realpow [of 2 53] by simp
  with lo x2 have "(2::real) powr real_of_int e \<le> 2 powr real_of_int 53" by linarith
  then have "real_of_int e \<le> real_of_int 53"
    by (simp only: powr_le_cancel_iff [of 2] one_less_numeral_iff semiring_norm)
  then have e53: "e \<le> 53" by (simp only: of_int_le_iff)
  define k where "k = nat e"
  have ek: "e = int k" using e0 by (simp add: k_def)
  have k53: "k \<le> 53" using e53 ek by simp
  have lo': "2 ^ k \<le> \<bar>x\<bar>" using lo by (simp add: ek powr_realpow)
  have hi': "\<bar>x\<bar> < 2 * 2 ^ k" using hi by (simp add: ek powr_add powr_realpow)
  show ?thesis
  proof (cases "k \<le> 52")
    case True
    have "x * 2 ^ (52 - k) = of_int (n * 2 ^ (52 - k))" by (simp add: x_def)
    then have "round_half_even (x * 2 ^ (52 - k)) = n * 2 ^ (52 - k)"
      by (simp only: round_half_even_int)
    then show ?thesis
      using fl64_low [OF lo' hi' True] by (simp add: x_def)
  next
    case False
    then have k: "k = 53" using k53 by simp
    have "\<bar>x\<bar> = 2 ^ 53" using lo' x2 by (simp add: k)
    then have "x = 2 ^ 53 \<or> x = - (2 ^ 53)" by (simp add: abs_if split: if_splits)
    then show ?thesis
    proof
      assume "x = 2 ^ 53"
      then show ?thesis
        using fl64_high [of 53 x] by (simp add: x_def round_half_even_def)
    next
      assume "x = - (2 ^ 53)"
      then show ?thesis
        using fl64_high [of 53 x] by (simp add: x_def round_half_even_def)
    qed
  qed
qed

lemma fl64_numeral [simp]:
  "(numeral k :: int) \<le> 9007199254740992 \<Longrightarrow> fl64 (numeral k) = numeral k"
  "(numeral k :: int) \<le> 9007199254740992 \<Longrightarrow> fl64 (- numeral k) = - numeral k"
  using fl64_int [of "numeral k"] fl64_int [of "- numeral k"] by simp_all

lemma fl64_zero_one [simp]: "fl64 0 = 0" "fl64 1 = 1" "fl64 (- 1) = - 1"
  using fl64_int [of 0] fl64_int [of 1] fl64_int [of "- 1"] by simp_all

lemma fl64_values [simp]:
  "fl64 9007199254740993 = 9007199254740992"
  "fl64 9007199254740996 = 9007199254740996"
  "fl64 18014398509481982 = 18014398509481982"
  "fl64 (- 18014398509481983) = - 18014398509481984"
  "fl64 18014398509481984 = 18014398509481984"
  "fl64 (- 18014398509481984) = - 18014398509481984"
  "fl64 18014398509481985 = 18014398509481984"
  "fl64 18014398509481988 = 18014398509481988"
  "fl64 18014398509481990 = 18014398509481992"
  "fl64 18014398509481992 = 18014398509481992"
  "fl64 18014398509481996 = 18014398509481996"
proof -
  show "fl64 9007199254740993 = 9007199254740992"
    using fl64_high [of 53 9007199254740993] by (simp add: round_half_even_def)
  show "fl64 9007199254740996 = 9007199254740996"
    using fl64_high [of 53 9007199254740996] by (simp add: round_half_even_def)
  show "fl64 18014398509481982 = 18014398509481982"
    using fl64_high [of 53 18014398509481982] by (simp add: round_half_even_def)
  show "fl64 (- 18014398509481983) = - 18014398509481984"
    using fl64_high [of 53 "- 18014398509481983"] by (simp add: round_half_even_def)
  show "fl64 18014398509481984 = 18014398509481984"
    using fl64_high [of 54 18014398509481984] by (simp add: round_half_even_def)
  show "fl64 (- 18014398509481984) = - 18014398509481984"
    using fl64_high [of 54 "- 18014398509481984"] by (simp add: round_half_even_def)
  show "fl64 18014398509481985 = 18014398509481984"
    using fl64_high [of 54 18014398509481985] by (simp add: round_half_even_def)
  show "fl64 18014398509481988 = 18014398509481988"
    using fl64_high [of 54 18014398509481988] by (simp add: round_half_even_def)
  show "fl64 18014398509481990 = 18014398509481992"
    using fl64_high [of 54 18014398509481990] by (simp add: round_half_even_def)
  show "fl64 18014398509481992 = 18014398509481992"
    using fl64_high [of 54 18014398509481992] by (simp add: round_half_even_def)
  show "fl64 18014398509481996 = 18014398509481996"
    using fl64_high [of 54 18014398509481996] by (simp add: round_half_even_def)
qed

section \<open>Coordinates and rounding errors\<close>

lemma coord_vadd: "coord (vadd r a b) c = r (coord a c + coord b c)"
  by (cases a, cases b) simp

lemma coord_vsub: "coord (vsub r a b) c = r (coord a c - coord b c)"
  by (cases a, cases b) simp

lemma coord_smul: "coord (smul r k a) c = r (k * coord a c)"
  by (cases a) simp

lemma coord_exact:
  "coord (vadd exact a b) c = coord a c + coord b c"
  "coord (vsub exact a b) c = coord a c - coord b c"
  "coord (smul exact k a) c = k * coord a c"
  by (simp_all add: coord_vadd coord_vsub coord_smul exact_def)

lemma vec3_eqI: "(\<And>c. c < 3 \<Longrightarrow> coord a c = coord b c) \<Longrightarrow> a = b"
proof -
  assume h: "\<And>c. c < 3 \<Longrightarrow> coord a c = coord b c"
  obtain a1 a2 a3 where a: "a = (a1, a2, a3)" by (cases a)
  obtain b1 b2 b3 where b: "b = (b1, b2, b3)" by (cases b)
  from h [of 0] h [of 1] h [of 2] show "a = b" by (simp add: a b)
qed

lemma coord_explicit_vertex:
  "coord (explicit_vertex r lamb x p) c = explicit_coordinate r lamb (coord x c) (coord p c)"
  by (cases x, cases p) simp

lemma coord_taubin_vertex:
  "coord (taubin_vertex r lamb nu t x p) c = taubin_coordinate r lamb nu t (coord x c) (coord p c)"
  by (cases x, cases p) simp

lemma rounding_nonneg:
  fixes r :: rounding
  assumes "\<And>x. \<bar>r x - x\<bar> \<le> u * \<bar>x\<bar>"
  shows "0 \<le> u"
proof -
  have "0 \<le> \<bar>r 1 - 1\<bar>" by simp
  also have "\<dots> \<le> u" using assms [of 1] by simp
  finally show ?thesis .
qed

lemma two_steps_error:
  fixes r :: rounding
  assumes "\<And>x. \<bar>r x - x\<bar> \<le> u * \<bar>x\<bar>"
  shows "\<bar>(r (r (x + a) - b) - x) - (a - b)\<bar> \<le> u * (\<bar>x + a\<bar> + \<bar>r (x + a) - b\<bar>)"
proof -
  from assms [of "x + a"] assms [of "r (x + a) - b"]
  have "\<bar>(r (r (x + a) - b) - x) - (a - b)\<bar> \<le> u * \<bar>x + a\<bar> + u * \<bar>r (x + a) - b\<bar>"
    by linarith
  then show ?thesis by (simp add: distrib_left)
qed

lemma one_step_error:
  fixes r :: rounding
  assumes h: "\<And>x. \<bar>r x - x\<bar> \<le> u * \<bar>x\<bar>" and u: "u \<le> 1 / 4"
  shows "\<bar>r (x + r (1 * r (p - x))) - p\<bar> \<le> u * (\<bar>p\<bar> + 3 * \<bar>p - x\<bar>)"
proof -
  define a where "a = p - x"
  define b where "b = r a"
  define c where "c = r (1 * b)"
  define A where "A = \<bar>a\<bar>"
  have u0: "0 \<le> u" by (rule rounding_nonneg) (rule h)
  have A0: "0 \<le> A" by (simp add: A_def)
  have e1: "\<bar>b - a\<bar> \<le> u * A" using h [of a] by (simp add: b_def A_def)
  have e2: "\<bar>c - b\<bar> \<le> u * \<bar>b\<bar>" using h [of b] by (simp add: c_def)
  have "\<bar>b\<bar> \<le> A + u * A" using e1 by (simp add: A_def)
  then have "u * \<bar>b\<bar> \<le> u * (A + u * A)" using u0 by (rule mult_left_mono)
  with e1 e2 have e3: "\<bar>c - a\<bar> \<le> 2 * u * A + u * u * A"
    by (simp add: algebra_simps)
  have e4: "\<bar>r (x + c) - (x + c)\<bar> \<le> u * \<bar>x + c\<bar>" by (rule h)
  have xc: "x + c = p + (c - a)" by (simp add: a_def)
  then have "\<bar>x + c\<bar> \<le> \<bar>p\<bar> + \<bar>c - a\<bar>" by simp
  then have "u * \<bar>x + c\<bar> \<le> u * (\<bar>p\<bar> + \<bar>c - a\<bar>)" using u0 by (rule mult_left_mono)
  with e4 xc have e5: "\<bar>r (x + c) - p\<bar> \<le> u * \<bar>p\<bar> + u * \<bar>c - a\<bar> + \<bar>c - a\<bar>"
    by (simp add: algebra_simps)
  have "u * \<bar>c - a\<bar> \<le> u * (2 * u * A + u * u * A)" using e3 u0 by (rule mult_left_mono)
  with e3 e5 have e6: "\<bar>r (x + c) - p\<bar> \<le>
      u * \<bar>p\<bar> + (2 * (u * A) + 3 * (u * (u * A)) + u * (u * (u * A)))"
    by (simp add: algebra_simps)
  have uA: "0 \<le> u * A" using u0 A0 by simp
  have p1: "u * (u * A) \<le> 1 / 4 * (u * A)" using u uA by (rule mult_right_mono)
  have "0 \<le> u * (u * A)" using u0 uA by simp
  with u have p2: "u * (u * (u * A)) \<le> 1 / 4 * (u * (u * A))" by (rule mult_right_mono)
  from p1 p2 uA have "3 * (u * (u * A)) + u * (u * (u * A)) \<le> u * A" by linarith
  with e6 have "\<bar>r (x + c) - p\<bar> \<le> u * \<bar>p\<bar> + 3 * (u * A)" by linarith
  then show ?thesis
    by (simp add: c_def b_def a_def A_def algebra_simps)
qed

section \<open>The Taubin filter\<close>

lemma taubin_update_pointwise:
  assumes "fst (shape L) = length v"
  shows "taubin_update r lamb nu L t v = map2 (taubin_vertex r lamb nu t) v (matvec r L v)"
proof (rule nth_equalityI)
  show "length (taubin_update r lamb nu L t v) =
      length (map2 (taubin_vertex r lamb nu t) v (matvec r L v))"
    using assms by (simp add: length_taubin_update length_matvec)
  fix k assume "k < length (taubin_update r lamb nu L t v)"
  then have k: "k < length v" using assms by (simp add: length_taubin_update)
  show "taubin_update r lamb nu L t v ! k =
      map2 (taubin_vertex r lamb nu t) v (matvec r L v) ! k"
  proof (rule vec3_eqI)
    fix c :: nat
    show "coord (taubin_update r lamb nu L t v ! k) c =
        coord (map2 (taubin_vertex r lamb nu t) v (matvec r L v) ! k) c"
      using k assms
      by (simp add: taubin_update_def laplacian_delta_def np_scale_def length_matvec
          coord_vadd coord_vsub coord_smul coord_taubin_vertex taubin_coordinate_def
          even_iff_mod_2_eq_zero)
  qed
qed

lemma displacement:
  assumes "length A = length v" and "length B = length v"
  shows "map2 (vsub exact) (map2 (vsub exact) (map2 (vadd exact) v A) B) v = map2 (vsub exact) A B"
proof (rule nth_equalityI)
  show "length (map2 (vsub exact) (map2 (vsub exact) (map2 (vadd exact) v A) B) v) =
      length (map2 (vsub exact) A B)"
    using assms by simp
  fix k assume "k < length (map2 (vsub exact) (map2 (vsub exact) (map2 (vadd exact) v A) B) v)"
  then have k: "k < length v" using assms by simp
  show "map2 (vsub exact) (map2 (vsub exact) (map2 (vadd exact) v A) B) v ! k = map2 (vsub exact) A B ! k"
    using k assms by (intro vec3_eqI) (simp add: coord_exact)
qed

lemma range_py_two: "range_py 2 = [0, 1]"
  by (simp add: range_py_def upt_rec)

lemma triangle_matvec:
  "matvec r triangle_operator [a, b, c] =
     [vadd r (vadd r vzero (smul r (1 / 2) b)) (smul r (1 / 2) c),
      vadd r (vadd r vzero (smul r (1 / 2) a)) (smul r (1 / 2) c),
      vadd r (vadd r vzero (smul r (1 / 2) a)) (smul r (1 / 2) b)]"
  by (simp add: matvec_def matvec_row_def row_entries_def entries_def triangle_operator_def
      vsum_def upt_rec)

lemma triangle_operator_built:
  assumes "scipy E" and "cells s (vertices (mesh s)) = [a, b, c]"
    and "vertex_neighbors (mesh s) = [[1, 2], [0, 2], [0, 1]]"
  shows "get_operator E None s = (Inr triangle_operator, s)"
  using assms
  by (simp add: get_operator_None_run laplacian_matrix_equal_cases row_index_def
      enumerate_eq_zip upt_rec triangle_operator_def)

text \<open>
  Claim C9, as amended. With an operator of the size of the vertex array, a pass of
  \<open>filter_taubin\<close> with index \<open>i\<close> writes \<open>v + \<lambda>\<cdot>d\<close> for an even \<open>i\<close> and \<open>v - \<nu>\<cdot>d\<close> for
  an odd one, where \<open>d = L\<cdot>v - v\<close> is taken from the buffer \<open>v\<close> entering the pass and every
  operation is rounded. The call completes. After exactly two iterations the buffer is
  \<open>(v0 + \<lambda>\<cdot>d0) - \<nu>\<cdot>d1\<close> as the machine computes it, with \<open>d0\<close> the delta of the original
  buffer and \<open>d1\<close> the delta of the buffer after the first pass. The displacement is
  \<open>\<lambda>\<cdot>d0 - \<nu>\<cdot>d1\<close> in exact arithmetic; under a rounding of relative error \<open>u\<close> it differs
  from it, in every coordinate, by at most \<open>u\<close> times the sizes of the two sums that are
  rounded. For float64 \<open>u\<close> is \<open>2\<^sup>-\<^sup>5\<^sup>3\<close>, as long as no operation overflows or underflows.
\<close>

theorem taubin_alternation:
  fixes s :: "'a trimesh_scheme world"
  assumes "get_operator E op s = (Inr L, s)" and "v0 = cells s (vertices (mesh s))"
    and "shape L = (length v0, length v0)" and "r = rnd E"
    and "d0 = laplacian_delta r L v0" and "v1 = map2 (vadd r) v0 (np_scale r lamb d0)"
    and "d1 = laplacian_delta r L v1"
    and "s' = snd (filter_taubin E lamb nu iterations op s)"
  shows "(\<forall>(t :: 'a trimesh_scheme world) a i. length (cells t a) = length v0 \<longrightarrow>
            taubin_pass E lamb nu L i a t =
              (Inr a, t\<lparr>cells := (cells t)(a :=
                 map2 (taubin_vertex r lamb nu i) (cells t a) (matvec r L (cells t a)))\<rparr>)) \<and>
         fst (filter_taubin E lamb nu iterations op s) = Inr () \<and>
         cells s' (vertices (mesh s')) = fold (taubin_update r lamb nu L) (range_py iterations) v0 \<and>
         (iterations = 2 \<longrightarrow>
            cells s' (vertices (mesh s')) = map2 (vsub r) v1 (np_scale r nu d1)) \<and>
         (iterations = 2 \<and> r = exact \<longrightarrow>
            map2 (vsub exact) (cells s' (vertices (mesh s'))) v0 =
              map2 (vsub exact) (np_scale exact lamb d0) (np_scale exact nu d1)) \<and>
         (iterations = 2 \<and> (\<forall>x. \<bar>r x - x\<bar> \<le> u * \<bar>x\<bar>) \<longrightarrow>
            (\<forall>k<length v0. \<forall>c<3.
               \<bar>(coord (cells s' (vertices (mesh s')) ! k) c - coord (v0 ! k) c) -
                (coord (np_scale r lamb d0 ! k) c - coord (np_scale r nu d1 ! k) c)\<bar>
               \<le> u * (\<bar>coord (v0 ! k) c + coord (np_scale r lamb d0 ! k) c\<bar> +
                       \<bar>coord (v1 ! k) c - coord (np_scale r nu d1 ! k) c\<bar>)))"
proof -
  note run = filter_taubin_run [OF assms(1,2,3), of lamb nu iterations]
  have pass: "\<forall>(t :: 'a trimesh_scheme world) a i. length (cells t a) = length v0 \<longrightarrow>
            taubin_pass E lamb nu L i a t =
              (Inr a, t\<lparr>cells := (cells t)(a :=
                 map2 (taubin_vertex r lamb nu i) (cells t a) (matvec r L (cells t a)))\<rparr>)"
  proof (intro allI impI)
    fix t :: "'a trimesh_scheme world" and a i
    assume "length (cells t a) = length v0"
    then have sh: "shape L = (length (cells t a), length (cells t a))"
      using assms(3) by simp
    then have "fst (shape L) = length (cells t a)" by simp
    then show "taubin_pass E lamb nu L i a t =
              (Inr a, t\<lparr>cells := (cells t)(a :=
                 map2 (taubin_vertex r lamb nu i) (cells t a) (matvec r L (cells t a)))\<rparr>)"
      by (simp add: taubin_pass_run [OF sh] assms(4) taubin_update_pointwise)
  qed
  have ok: "fst (filter_taubin E lamb nu iterations op s) = Inr ()"
    by (simp add: run)
  have fin: "cells s' (vertices (mesh s')) = fold (taubin_update r lamb nu L) (range_py iterations) v0"
    by (simp add: assms(8) assms(4) run)
  have l0: "length d0 = length v0"
    using assms(3,5) by (simp add: length_laplacian_delta)
  have l1: "length v1 = length v0"
    using l0 by (simp add: assms(6) np_scale_def)
  have l2: "length d1 = length v0"
    using assms(3,7) l1 by (simp add: length_laplacian_delta)
  have two: "cells s' (vertices (mesh s')) = map2 (vsub r) v1 (np_scale r nu d1)"
    if "iterations = 2"
    by (simp add: fin that range_py_two taubin_update_def assms(5,6,7))
  have exact: "map2 (vsub exact) (cells s' (vertices (mesh s'))) v0 =
      map2 (vsub exact) (np_scale exact lamb d0) (np_scale exact nu d1)"
    if a: "iterations = 2 \<and> r = exact"
  proof -
    from a two have "cells s' (vertices (mesh s')) =
        map2 (vsub exact) (map2 (vadd exact) v0 (np_scale exact lamb d0)) (np_scale exact nu d1)"
      by (simp add: assms(6))
    then show ?thesis
      using l0 l2 by (simp add: displacement np_scale_def)
  qed
  have bound: "\<forall>k<length v0. \<forall>c<3.
               \<bar>(coord (cells s' (vertices (mesh s')) ! k) c - coord (v0 ! k) c) -
                (coord (np_scale r lamb d0 ! k) c - coord (np_scale r nu d1 ! k) c)\<bar>
               \<le> u * (\<bar>coord (v0 ! k) c + coord (np_scale r lamb d0 ! k) c\<bar> +
                       \<bar>coord (v1 ! k) c - coord (np_scale r nu d1 ! k) c\<bar>)"
    if a: "iterations = 2 \<and> (\<forall>x. \<bar>r x - x\<bar> \<le> u * \<bar>x\<bar>)"
  proof (intro allI impI)
    fix k c :: nat
    assume k: "k < length v0"
    let ?x = "coord (v0 ! k) c"
    let ?a = "coord (np_scale r lamb d0 ! k) c"
    let ?b = "coord (np_scale r nu d1 ! k) c"
    from a have h: "\<And>x. \<bar>r x - x\<bar> \<le> u * \<bar>x\<bar>" by simp
    have x1: "coord (v1 ! k) c = r (?x + ?a)"
      using k l0 by (simp add: assms(6) np_scale_def coord_vadd)
    have "coord (cells s' (vertices (mesh s')) ! k) c = r (coord (v1 ! k) c - ?b)"
      using a k l1 l2 by (simp add: two np_scale_def coord_vsub)
    then have x2: "coord (cells s' (vertices (mesh s')) ! k) c = r (r (?x + ?a) - ?b)"
      by (simp only: x1)
    show "\<bar>(coord (cells s' (vertices (mesh s')) ! k) c - ?x) - (?a - ?b)\<bar>
        \<le> u * (\<bar>?x + ?a\<bar> + \<bar>coord (v1 ! k) c - ?b\<bar>)"
      unfolding x2 x1 by (rule two_steps_error) (rule h)
  qed
  from pass ok fin two exact bound show ?thesis by blast
qed

lemma tetra_matvec:
  "matvec r \<lparr>shape = (4, 4), row = [0, 0, 0, 1, 1, 1, 2, 2, 2, 3, 3, 3],
           col = [1, 2, 3, 0, 2, 3, 0, 1, 3, 0, 1, 2],
           data = [1 / 3, 1 / 3, 1 / 3, 1 / 3, 1 / 3, 1 / 3, 1 / 3, 1 / 3, 1 / 3, 1 / 3, 1 / 3, 1 / 3]\<rparr>
     [a, b, c, d] =
      [vadd r (vadd r (vadd r vzero (smul r (1 / 3) b)) (smul r (1 / 3) c)) (smul r (1 / 3) d),
       vadd r (vadd r (vadd r vzero (smul r (1 / 3) a)) (smul r (1 / 3) c)) (smul r (1 / 3) d),
       vadd r (vadd r (vadd r vzero (smul r (1 / 3) a)) (smul r (1 / 3) b)) (smul r (1 / 3) d),
       vadd r (vadd r (vadd r vzero (smul r (1 / 3) a)) (smul r (1 / 3) b)) (smul r (1 / 3) c)]"
  by (simp add: matvec_def matvec_row_def row_entries_def entries_def vsum_def upt_rec)

lemma rnd_example_env [simp]: "rnd example_env = exact"
  by (simp add: example_env_def)

lemma rnd_float_env [simp]: "rnd float_env = fl64"
  by (simp add: float_env_def)

lemma scipy_float_env [simp]: "scipy float_env"
  by (simp add: float_env_def example_env_def)

lemma near_vertices:
  "cells near_world (vertices (mesh near_world)) =
     [(18014398509481984, 0, 0), (18014398509481992, 0, 0), (18014398509481984, 32, 0)]"
  by (simp add: near_world_def)

lemma near_operator: "get_operator float_env None near_world = (Inr triangle_operator, near_world)"
  by (rule triangle_operator_built) (simp_all add: near_world_def)

lemma near_shape:
  "shape triangle_operator = (length (cells near_world (vertices (mesh near_world))),
     length (cells near_world (vertices (mesh near_world))))"
  by (simp add: near_vertices triangle_operator_def)

lemma near_delta:
  "laplacian_delta fl64 triangle_operator
     [(18014398509481984, 0, 0), (18014398509481992, 0, 0), (18014398509481984, 32, 0)] =
     [(4, 16, 0), (- 8, 16, 0), (4, - 32, 0)]"
  by (simp add: laplacian_delta_def triangle_matvec vzero_def)

lemma near_first_pass:
  "map2 (vadd fl64)
     [(18014398509481984, 0, 0), (18014398509481992, 0, 0), (18014398509481984, 32, 0)]
     (np_scale fl64 (1 / 4) [(4, 16, 0), (- 8, 16, 0), (4, - 32, 0)]) =
   [(18014398509481984, 4, 0), (18014398509481992, 4, 0), (18014398509481984, 24, 0)]"
  by (simp add: np_scale_def)

lemma near_second_delta:
  "laplacian_delta fl64 triangle_operator
     [(18014398509481984, 4, 0), (18014398509481992, 4, 0), (18014398509481984, 24, 0)] =
     [(4, 10, 0), (- 8, 10, 0), (4, - 20, 0)]"
  by (simp add: laplacian_delta_def triangle_matvec vzero_def)

lemma near_second_pass:
  "map2 (vsub fl64)
     [(18014398509481984, 4, 0), (18014398509481992, 4, 0), (18014398509481984, 24, 0)]
     (np_scale fl64 (1 / 2) [(4, 10, 0), (- 8, 10, 0), (4, - 20, 0)]) =
   [(18014398509481982, - 1, 0), (18014398509481996, - 1, 0), (18014398509481982, 34, 0)]"
  by (simp add: np_scale_def)

theorem taubin_alternation_witness:
  "fst (filter_taubin example_env (1 / 2) (53 / 100) 2 None tetra_world) = Inr () \<and>
   cells (snd (filter_taubin example_env (1 / 2) (53 / 100) 2 None tetra_world))
     (vertices (mesh (snd (filter_taubin example_env (1 / 2) (53 / 100) 2 None tetra_world)))) =
     [(97 / 900, 97 / 900, 97 / 900), (203 / 300, 97 / 900, 97 / 900),
      (97 / 900, 203 / 300, 97 / 900), (97 / 900, 97 / 900, 203 / 300)] \<and>
   map2 (vsub exact)
     (cells (snd (filter_taubin example_env (1 / 2) (53 / 100) 2 None tetra_world))
        (vertices (mesh (snd (filter_taubin example_env (1 / 2) (53 / 100) 2 None tetra_world)))))
     [(0, 0, 0), (1, 0, 0), (0, 1, 0), (0, 0, 1)] =
   map2 (vsub exact)
     (np_scale exact (1 / 2) [(1 / 3, 1 / 3, 1 / 3), (- 1, 1 / 3, 1 / 3), (1 / 3, - 1, 1 / 3), (1 / 3, 1 / 3, - 1)])
     (np_scale exact (53 / 100) [(1 / 9, 1 / 9, 1 / 9), (- 1 / 3, 1 / 9, 1 / 9),
        (1 / 9, - 1 / 3, 1 / 9), (1 / 9, 1 / 9, - 1 / 3)]) \<and>
   fst (filter_taubin float_env (1 / 4) (1 / 2) 2 None near_world) = Inr () \<and>
   cells (snd (filter_taubin float_env (1 / 4) (1 / 2) 2 None near_world))
     (vertices (mesh (snd (filter_taubin float_env (1 / 4) (1 / 2) 2 None near_world)))) =
     [(18014398509481982, - 1, 0), (18014398509481996, - 1, 0), (18014398509481982, 34, 0)] \<and>
   \<bar>(coord (cells (snd (filter_taubin float_env (1 / 4) (1 / 2) 2 None near_world))
        (vertices (mesh (snd (filter_taubin float_env (1 / 4) (1 / 2) 2 None near_world)))) ! 0) 0 -
      18014398509481984) - (1 - 2)\<bar>
     \<le> 1 / 2 ^ 53 * (\<bar>18014398509481984 + 1\<bar> + \<bar>18014398509481984 - 2\<bar>)"
proof -
  let ?L = "\<lparr>shape = (4, 4), row = [0, 0, 0, 1, 1, 1, 2, 2, 2, 3, 3, 3],
           col = [1, 2, 3, 0, 2, 3, 0, 1, 3, 0, 1, 2],
           data = [1 / 3, 1 / 3, 1 / 3, 1 / 3, 1 / 3, 1 / 3, 1 / 3, 1 / 3, 1 / 3, 1 / 3, 1 / 3, 1 / 3 :: real]\<rparr>"
  let ?v0 = "[(0, 0, 0), (1, 0, 0), (0, 1, 0), (0, 0, 1)] :: ndarray"
  let ?d0 = "[(1 / 3, 1 / 3, 1 / 3), (- 1, 1 / 3, 1 / 3), (1 / 3, - 1, 1 / 3), (1 / 3, 1 / 3, - 1)] :: ndarray"
  let ?v1 = "[(1 / 6, 1 / 6, 1 / 6), (1 / 2, 1 / 6, 1 / 6), (1 / 6, 1 / 2, 1 / 6), (1 / 6, 1 / 6, 1 / 2)] :: ndarray"
  let ?d1 = "[(1 / 9, 1 / 9, 1 / 9), (- 1 / 3, 1 / 9, 1 / 9),
        (1 / 9, - 1 / 3, 1 / 9), (1 / 9, 1 / 9, - 1 / 3)] :: ndarray"
  let ?w0 = "[(18014398509481984, 0, 0), (18014398509481992, 0, 0), (18014398509481984, 32, 0)] :: ndarray"
  let ?e0 = "[(4, 16, 0), (- 8, 16, 0), (4, - 32, 0)] :: ndarray"
  let ?w1 = "[(18014398509481984, 4, 0), (18014398509481992, 4, 0), (18014398509481984, 24, 0)] :: ndarray"
  let ?e1 = "[(4, 10, 0), (- 8, 10, 0), (4, - 20, 0)] :: ndarray"
  have h1: "?v0 = cells tetra_world (vertices (mesh tetra_world))"
    by (simp add: tetra_vertices)
  have h2: "shape ?L = (length ?v0, length ?v0)" by simp
  have h3: "exact = rnd example_env" by simp
  have h4: "?d0 = laplacian_delta exact ?L ?v0"
    by (simp only: laplacian_delta_def tetra_matvec) (simp add: vzero_def exact_def)
  have h5: "?v1 = map2 (vadd exact) ?v0 (np_scale exact (1 / 2) ?d0)"
    by (simp add: np_scale_def exact_def)
  have h6: "?d1 = laplacian_delta exact ?L ?v1"
    by (simp only: laplacian_delta_def tetra_matvec) (simp add: vzero_def exact_def)
  note t = taubin_alternation [OF tetra_operator h1 h2 h3 h4 h5 h6 refl, of "53 / 100" 2]
  have e: "map2 (vsub exact) ?v1 (np_scale exact (53 / 100) ?d1) =
      [(97 / 900, 97 / 900, 97 / 900), (203 / 300, 97 / 900, 97 / 900),
       (97 / 900, 203 / 300, 97 / 900), (97 / 900, 97 / 900, 203 / 300)]"
    by (simp add: np_scale_def exact_def)
  have g1: "?w0 = cells near_world (vertices (mesh near_world))"
    by (simp add: near_vertices)
  have g3: "fl64 = rnd float_env" by simp
  have g4: "?e0 = laplacian_delta fl64 triangle_operator ?w0"
    by (simp only: near_delta)
  have g5: "?w1 = map2 (vadd fl64) ?w0 (np_scale fl64 (1 / 4) ?e0)"
    by (simp only: near_first_pass)
  have g6: "?e1 = laplacian_delta fl64 triangle_operator ?w1"
    by (simp only: near_second_delta)
  note f = taubin_alternation [OF near_operator g1 near_shape [folded g1] g3 g4 g5 g6 refl,
      of "1 / 2" 2 "1 / 2 ^ 53"]
  have err: "\<forall>x. \<bar>fl64 x - x\<bar> \<le> 1 / 2 ^ 53 * \<bar>x\<bar>"
    using fl64_error by simp
  from f err have b: "\<forall>k<length ?w0. \<forall>c<3.
      \<bar>(coord (cells (snd (filter_taubin float_env (1 / 4) (1 / 2) 2 None near_world))
          (vertices (mesh (snd (filter_taubin float_env (1 / 4) (1 / 2) 2 None near_world)))) ! k) c -
        coord (?w0 ! k) c) -
       (coord (np_scale fl64 (1 / 4) ?e0 ! k) c - coord (np_scale fl64 (1 / 2) ?e1 ! k) c)\<bar>
      \<le> 1 / 2 ^ 53 * (\<bar>coord (?w0 ! k) c + coord (np_scale fl64 (1 / 4) ?e0 ! k) c\<bar> +
             \<bar>coord (?w1 ! k) c - coord (np_scale fl64 (1 / 2) ?e1 ! k) c\<bar>)"
    by blast
  have b0: "\<bar>(coord (cells (snd (filter_taubin float_env (1 / 4) (1 / 2) 2 None near_world))
        (vertices (mesh (snd (filter_taubin float_env (1 / 4) (1 / 2) 2 None near_world)))) ! 0) 0 -
      18014398509481984) - (1 - 2)\<bar>
     \<le> 1 / 2 ^ 53 * (\<bar>18014398509481984 + 1\<bar> + \<bar>18014398509481984 - 2\<bar>)"
    using b [rule_format, of 0 0] by (simp add: np_scale_def)
  from f have f2: "cells (snd (filter_taubin float_env (1 / 4) (1 / 2) 2 None near_world))
     (vertices (mesh (snd (filter_taubin float_env (1 / 4) (1 / 2) 2 None near_world)))) =
     map2 (vsub fl64) ?w1 (np_scale fl64 (1 / 2) ?e1)"
    by blast
  from t [THEN conjunct2, THEN conjunct1]
    t [THEN conjunct2, THEN conjunct2, THEN conjunct2, THEN conjunct1]
    t [THEN conjunct2, THEN conjunct2, THEN conjunct2, THEN conjunct2, THEN conjunct1]
    f [THEN conjunct2, THEN conjunct1] f2 b0
  show ?thesis
    by (simp only: e near_second_pass h3 [symmetric] simp_thms)
qed

text \<open>
  Claim C9 as stated fails in float64. On the triangle \<open>near_world\<close> with \<open>\<lambda> = 1/4\<close> and
  \<open>\<nu> = 1/2\<close> the first coordinates of \<open>\<lambda>\<cdot>d0 - \<nu>\<cdot>d1\<close> are \<open>- 1\<close>, \<open>2\<close> and \<open>- 1\<close>. The
  first pass leaves the first coordinates where they are, because \<open>2\<^sup>5\<^sup>4 + 1\<close> and
  \<open>2\<^sup>5\<^sup>4 + 6\<close> are rounded, and the call displaces them by \<open>- 2\<close>, \<open>4\<close> and \<open>- 2\<close>.
\<close>

theorem taubin_displacement_counterexample:
  "fst (get_operator float_env None near_world) = Inr triangle_operator \<and>
   cells near_world (vertices (mesh near_world)) =
     [(18014398509481984, 0, 0), (18014398509481992, 0, 0), (18014398509481984, 32, 0)] \<and>
   laplacian_delta fl64 triangle_operator
     [(18014398509481984, 0, 0), (18014398509481992, 0, 0), (18014398509481984, 32, 0)] =
     [(4, 16, 0), (- 8, 16, 0), (4, - 32, 0)] \<and>
   cells (snd (filter_taubin float_env (1 / 4) (1 / 2) 1 None near_world))
     (vertices (mesh (snd (filter_taubin float_env (1 / 4) (1 / 2) 1 None near_world)))) =
     [(18014398509481984, 4, 0), (18014398509481992, 4, 0), (18014398509481984, 24, 0)] \<and>
   laplacian_delta fl64 triangle_operator
     [(18014398509481984, 4, 0), (18014398509481992, 4, 0), (18014398509481984, 24, 0)] =
     [(4, 10, 0), (- 8, 10, 0), (4, - 20, 0)] \<and>
   map2 (vsub fl64) (np_scale fl64 (1 / 4) [(4, 16, 0), (- 8, 16, 0), (4, - 32, 0)])
     (np_scale fl64 (1 / 2) [(4, 10, 0), (- 8, 10, 0), (4, - 20, 0)]) =
     [(- 1, - 1, 0), (2, - 1, 0), (- 1, 2, 0)] \<and>
   cells (snd (filter_taubin float_env (1 / 4) (1 / 2) 2 None near_world))
     (vertices (mesh (snd (filter_taubin float_env (1 / 4) (1 / 2) 2 None near_world)))) =
     [(18014398509481982, - 1, 0), (18014398509481996, - 1, 0), (18014398509481982, 34, 0)] \<and>
   map2 (vsub fl64)
     [(18014398509481982, - 1, 0), (18014398509481996, - 1, 0), (18014398509481982, 34, 0)]
     [(18014398509481984, 0, 0), (18014398509481992, 0, 0), (18014398509481984, 32, 0)] =
     [(- 2, - 1, 0), (4, - 1, 0), (- 2, 2, 0)]"
proof -
  have one: "range_py 1 = [0]" by (simp add: range_py_def)
  have a: "cells (snd (filter_taubin float_env (1 / 4) (1 / 2) 1 None near_world))
     (vertices (mesh (snd (filter_taubin float_env (1 / 4) (1 / 2) 1 None near_world)))) =
     [(18014398509481984, 4, 0), (18014398509481992, 4, 0), (18014398509481984, 24, 0)]"
    by (simp add: filter_taubin_run [OF near_operator refl near_shape] near_vertices one
        taubin_update_def near_delta near_first_pass)
  have b: "cells (snd (filter_taubin float_env (1 / 4) (1 / 2) 2 None near_world))
     (vertices (mesh (snd (filter_taubin float_env (1 / 4) (1 / 2) 2 None near_world)))) =
     [(18014398509481982, - 1, 0), (18014398509481996, - 1, 0), (18014398509481982, 34, 0)]"
    by (simp add: filter_taubin_run [OF near_operator refl near_shape] near_vertices range_py_two
        taubin_update_def near_delta near_first_pass near_second_delta near_second_pass)
  have c: "map2 (vsub fl64) (np_scale fl64 (1 / 4) [(4, 16, 0), (- 8, 16, 0), (4, - 32, 0)])
     (np_scale fl64 (1 / 2) [(4, 10, 0), (- 8, 10, 0), (4, - 20, 0)]) =
     [(- 1, - 1, 0), (2, - 1, 0), (- 1, 2, 0)]"
    by (simp add: np_scale_def)
  have d: "map2 (vsub fl64)
     [(18014398509481982, - 1, 0), (18014398509481996, - 1, 0), (18014398509481982, 34, 0)]
     [(18014398509481984, 0, 0), (18014398509481992, 0, 0), (18014398509481984, 32, 0)] =
     [(- 2, - 1, 0), (4, - 1, 0), (- 2, 2, 0)]"
    by simp
  show ?thesis
    by (simp only: near_operator near_vertices near_delta near_second_delta a b c d fst_conv
        simp_thms)
qed

section \<open>Explicit diffusion\<close>

lemma equal_weight_rows:
  assumes "laplacian_matrix E vs ns True = Inr M"
  shows "row_entries (real_matrix M) i =
     (if i < length ns then map (\<lambda>j. (i, j, 1 / real (length (ns ! i)))) (ns ! i) else [])"
proof -
  have ne: "\<forall>n\<in>set ns. n \<noteq> []"
  proof (rule ccontr)
    assume "\<not> (\<forall>n\<in>set ns. n \<noteq> [])"
    then have "[] \<in> set ns" by auto
    then show False using assms by (simp add: laplacian_matrix_equal_fail)
  qed
  define L :: spmat where
    "L = \<lparr>shape = (length vs, length vs), row = row_index ns, col = concat ns,
          data = concat (map (\<lambda>n. replicate (length n) (1 / real (length n))) ns)\<rparr>"
  have "M = np_matrix L"
    using assms laplacian_matrix_equal_cases [OF ne, of E vs]
    by (simp add: L_def split: if_splits)
  then have L: "real_matrix M = L" by simp
  have "entries L = blocks (\<lambda>n. 1 / real (length n)) 0 ns"
    by (simp add: L_def entries_def row_index_def zip_blocks)
  then show ?thesis
    by (simp add: L row_entries_def filter_blocks)
qed

lemma get_operator_None:
  assumes "get_operator E None s = (Inr L, s')"
  shows "\<exists>M. laplacian_matrix E (cells s (vertices (mesh s))) (vertex_neighbors (mesh s)) True
           = Inr M \<and> L = real_matrix M"
  using assms by (auto simp add: get_operator_None_run split: sum.splits)

lemma get_operator_None_ok:
  assumes "scipy E" and "vs = cells s (vertices (mesh s))" and "ns = vertex_neighbors (mesh s)"
    and "ns \<noteq> []" and "\<forall>n\<in>set ns. n \<noteq> []" and "length ns = length vs"
    and "\<forall>n\<in>set ns. \<forall>j\<in>set n. j < length vs"
  shows "\<exists>L. get_operator E None s = (Inr L, s) \<and> shape L = (length vs, length vs)"
proof -
  have r: "list_all (\<lambda>i. i < length vs) (row_index ns)"
    using assms(6) list_all_row_index [of ns] by simp
  have c: "list_all (\<lambda>j. j < length vs) (concat ns)"
    using assms(7) by (auto simp add: list_all_iff)
  show ?thesis
    using assms(1,4) r c laplacian_matrix_equal_cases [OF assms(5), of E vs]
    by (simp add: get_operator_None_run assms(2,3) [symmetric])
qed

lemma vadd_exact_assoc: "vadd exact (vadd exact a b) c = vadd exact a (vadd exact b c)"
  by (rule vec3_eqI) (simp add: coord_exact)

lemma vadd_exact_zero: "vadd exact a vzero = a" "vadd exact vzero a = a"
  by (rule vec3_eqI, simp add: coord_exact vzero_def)+

lemma foldl_vadd_exact:
  "foldl (vadd exact) a xs = vadd exact a (foldl (vadd exact) vzero xs)"
proof (induction xs arbitrary: a)
  case Nil
  show ?case by (simp add: vadd_exact_zero)
next
  case (Cons x xs)
  have "foldl (vadd exact) a (x # xs) = foldl (vadd exact) (vadd exact a x) xs" by simp
  also have "\<dots> = vadd exact (vadd exact a x) (foldl (vadd exact) vzero xs)"
    by (rule Cons.IH)
  also have "\<dots> = vadd exact a (vadd exact x (foldl (vadd exact) vzero xs))"
    by (rule vadd_exact_assoc)
  also have "vadd exact x (foldl (vadd exact) vzero xs) = foldl (vadd exact) x xs"
    by (rule Cons.IH [symmetric])
  also have "foldl (vadd exact) x xs = foldl (vadd exact) vzero (x # xs)"
    by (simp add: vadd_exact_zero)
  finally show ?case .
qed

lemma vsum_exact_Cons: "vsum exact (x # xs) = vadd exact x (vsum exact xs)"
  unfolding vsum_def foldl_Cons vadd_exact_zero by (rule foldl_vadd_exact)

lemma smul_vadd: "smul exact k (vadd exact a b) = vadd exact (smul exact k a) (smul exact k b)"
  by (rule vec3_eqI) (simp add: coord_exact algebra_simps)

lemma smul_vzero: "smul exact k vzero = vzero"
  by (simp add: vzero_def exact_def)

lemma vsum_smul: "vsum exact (map (\<lambda>j. smul exact k (f j)) xs) = smul exact k (vsum exact (map f xs))"
proof (induction xs)
  case Nil
  show ?case by (simp add: vsum_def smul_vzero)
next
  case (Cons x xs)
  then show ?case by (simp add: vsum_exact_Cons smul_vadd)
qed

lemma equal_weight_matvec:
  assumes "laplacian_matrix E vs ns True = Inr M" and "length ns = length vs"
  shows "matvec exact (real_matrix M) v = map (centroid v) ns"
proof (rule nth_equalityI)
  have sh: "shape (real_matrix M) = (length vs, length vs)"
    using assms(1) by (simp add: laplacian_matrix_row real_matrix_def)
  show "length (matvec exact (real_matrix M) v) = length (map (centroid v) ns)"
    using sh assms(2) by (simp add: length_matvec)
  fix i assume "i < length (matvec exact (real_matrix M) v)"
  then have i: "i < length ns" using sh assms(2) by (simp add: length_matvec)
  have "matvec_row exact (real_matrix M) v i =
      vsum exact (map (\<lambda>j. smul exact (1 / real (length (ns ! i))) (v ! j)) (ns ! i))"
    using i by (simp add: matvec_row_def equal_weight_rows [OF assms(1)] comp_def)
  also have "\<dots> = centroid v (ns ! i)"
    by (simp add: vsum_smul centroid_def)
  finally show "matvec exact (real_matrix M) v ! i = map (centroid v) ns ! i"
    using i sh assms(2) by (simp add: matvec_def)
qed

lemma explicit_update_pointwise:
  assumes "fst (shape L) = length v"
  shows "explicit_update r L lamb v = map2 (explicit_vertex r lamb) v (matvec r L v)"
proof (rule nth_equalityI)
  show "length (explicit_update r L lamb v) =
      length (map2 (explicit_vertex r lamb) v (matvec r L v))"
    using assms by (simp add: length_explicit_update length_matvec)
  fix k assume "k < length (explicit_update r L lamb v)"
  then have k: "k < length v" using assms by (simp add: length_explicit_update)
  show "explicit_update r L lamb v ! k = map2 (explicit_vertex r lamb) v (matvec r L v) ! k"
  proof (rule vec3_eqI)
    fix c :: nat
    show "coord (explicit_update r L lamb v ! k) c =
        coord (map2 (explicit_vertex r lamb) v (matvec r L v) ! k) c"
      using k assms
      by (simp add: explicit_update_def laplacian_delta_def np_scale_def length_matvec
          coord_vadd coord_vsub coord_smul coord_explicit_vertex explicit_coordinate_def)
  qed
qed

lemma explicit_update_one:
  assumes "fst (shape L) = length v"
  shows "explicit_update exact L 1 v = matvec exact L v"
proof (rule nth_equalityI)
  show "length (explicit_update exact L 1 v) = length (matvec exact L v)"
    using assms by (simp add: length_explicit_update length_matvec)
  fix k assume "k < length (explicit_update exact L 1 v)"
  then have k: "k < length v" using assms by (simp add: length_explicit_update)
  show "explicit_update exact L 1 v ! k = matvec exact L v ! k"
    using k assms
    by (intro vec3_eqI)
      (simp add: explicit_update_pointwise length_matvec coord_explicit_vertex
        explicit_coordinate_def exact_def)
qed

text \<open>
  Claim C6, as amended. With an operator of the size of the vertex array, the explicit
  step writes \<open>v + \<lambda>\<cdot>(L\<cdot>v - v)\<close>, every row computed from the buffer \<open>v\<close> entering the step
  and every operation rounded, and a call without volume constraint completes with that
  update applied once per iteration. For \<open>\<lambda> = 1\<close> one pass leaves \<open>L\<cdot>v\<close> in exact
  arithmetic, which for the operator the call builds itself is the centroid of the
  neighbours of every vertex. Under a rounding of relative error \<open>u \<le> 1/4\<close> every
  coordinate \<open>x\<close> of a vertex ends within \<open>u\<cdot>(\<bar>p\<bar> + 3\<cdot>\<bar>p - x\<bar>)\<close> of the coordinate \<open>p\<close> of
  \<open>L\<cdot>v\<close>. For float64 \<open>u\<close> is \<open>2\<^sup>-\<^sup>5\<^sup>3\<close>, as long as no operation overflows or underflows.
\<close>

theorem explicit_diffusion:
  fixes s :: "'a trimesh_scheme world"
  assumes "get_operator E op s = (Inr L, s)" and "v0 = cells s (vertices (mesh s))"
    and "shape L = (length v0, length v0)" and "r = rnd E"
    and "s' = snd (filter_laplacian E lamb iterations False False op s)"
  shows "(\<forall>(t :: 'a trimesh_scheme world) a. length (cells t a) = length v0 \<longrightarrow>
            explicit_step E L lamb a t =
              (Inr a, t\<lparr>cells := (cells t)(a :=
                 map2 (explicit_vertex r lamb) (cells t a) (matvec r L (cells t a)))\<rparr>)) \<and>
         fst (filter_laplacian E lamb iterations False False op s) = Inr () \<and>
         cells s' (vertices (mesh s')) = (explicit_update r L lamb ^^ nat iterations) v0 \<and>
         (lamb = 1 \<and> iterations = 1 \<and> r = exact \<longrightarrow>
            cells s' (vertices (mesh s')) = matvec exact L v0) \<and>
         (lamb = 1 \<and> iterations = 1 \<and> r = exact \<and> op = None \<and>
          length (vertex_neighbors (mesh s)) = length v0 \<longrightarrow>
            cells s' (vertices (mesh s')) = map (centroid v0) (vertex_neighbors (mesh s))) \<and>
         (lamb = 1 \<and> iterations = 1 \<and> (\<forall>x. \<bar>r x - x\<bar> \<le> u * \<bar>x\<bar>) \<and> u \<le> 1 / 4 \<longrightarrow>
            (\<forall>k<length v0. \<forall>c<3.
               \<bar>coord (cells s' (vertices (mesh s')) ! k) c - coord (matvec r L v0 ! k) c\<bar>
               \<le> u * (\<bar>coord (matvec r L v0 ! k) c\<bar> +
                       3 * \<bar>coord (matvec r L v0 ! k) c - coord (v0 ! k) c\<bar>)))"
proof -
  note run = filter_laplacian_explicit_run [OF assms(1,2,3), of lamb iterations]
  have step: "\<forall>(t :: 'a trimesh_scheme world) a. length (cells t a) = length v0 \<longrightarrow>
            explicit_step E L lamb a t =
              (Inr a, t\<lparr>cells := (cells t)(a :=
                 map2 (explicit_vertex r lamb) (cells t a) (matvec r L (cells t a)))\<rparr>)"
  proof (intro allI impI)
    fix t :: "'a trimesh_scheme world" and a
    assume "length (cells t a) = length v0"
    then have sh: "shape L = (length (cells t a), length (cells t a))"
      using assms(3) by simp
    then have "fst (shape L) = length (cells t a)" by simp
    then show "explicit_step E L lamb a t =
              (Inr a, t\<lparr>cells := (cells t)(a :=
                 map2 (explicit_vertex r lamb) (cells t a) (matvec r L (cells t a)))\<rparr>)"
      by (simp add: explicit_step_run [OF sh] assms(4) explicit_update_pointwise)
  qed
  have ok: "fst (filter_laplacian E lamb iterations False False op s) = Inr ()"
    by (simp add: run)
  have fin: "cells s' (vertices (mesh s')) = (explicit_update r L lamb ^^ nat iterations) v0"
    by (simp add: assms(5) assms(4) run)
  have one: "cells s' (vertices (mesh s')) = matvec exact L v0"
    if "lamb = 1 \<and> iterations = 1 \<and> r = exact"
    using that assms(3) by (simp add: fin explicit_update_one)
  have cen: "cells s' (vertices (mesh s')) = map (centroid v0) (vertex_neighbors (mesh s))"
    if a: "lamb = 1 \<and> iterations = 1 \<and> r = exact \<and> op = None \<and>
          length (vertex_neighbors (mesh s)) = length v0"
  proof -
    from assms(1,2) a obtain M where
      M: "laplacian_matrix E v0 (vertex_neighbors (mesh s)) True = Inr M"
      and L: "L = real_matrix M"
      using get_operator_None [of E s L s] by auto
    from M a have "matvec exact (real_matrix M) v0 = map (centroid v0) (vertex_neighbors (mesh s))"
      by (intro equal_weight_matvec) simp_all
    with one a L show ?thesis by simp
  qed
  have bound: "\<forall>k<length v0. \<forall>c<3.
               \<bar>coord (cells s' (vertices (mesh s')) ! k) c - coord (matvec r L v0 ! k) c\<bar>
               \<le> u * (\<bar>coord (matvec r L v0 ! k) c\<bar> +
                       3 * \<bar>coord (matvec r L v0 ! k) c - coord (v0 ! k) c\<bar>)"
    if a: "lamb = 1 \<and> iterations = 1 \<and> (\<forall>x. \<bar>r x - x\<bar> \<le> u * \<bar>x\<bar>) \<and> u \<le> 1 / 4"
  proof (intro allI impI)
    fix k c :: nat
    assume k: "k < length v0"
    from a have h: "\<And>x. \<bar>r x - x\<bar> \<le> u * \<bar>x\<bar>" and u: "u \<le> 1 / 4" by simp_all
    have "cells s' (vertices (mesh s')) = map2 (explicit_vertex r 1) v0 (matvec r L v0)"
      using a assms(3) by (simp add: fin explicit_update_pointwise)
    then have "coord (cells s' (vertices (mesh s')) ! k) c =
        r (coord (v0 ! k) c + r (1 * r (coord (matvec r L v0 ! k) c - coord (v0 ! k) c)))"
      using k assms(3)
      by (simp add: length_matvec coord_explicit_vertex explicit_coordinate_def)
    then show "\<bar>coord (cells s' (vertices (mesh s')) ! k) c - coord (matvec r L v0 ! k) c\<bar>
               \<le> u * (\<bar>coord (matvec r L v0 ! k) c\<bar> +
                       3 * \<bar>coord (matvec r L v0 ! k) c - coord (v0 ! k) c\<bar>)"
      using one_step_error [of r u, OF h u] by (simp only:)
  qed
  from step ok fin one cen bound show ?thesis by blast
qed

lemma far_vertices:
  "cells far_world (vertices (mesh far_world)) = [(18014398509481984, 0, 0), (0, 0, 0), (2, 4, 0)]"
  by (simp add: far_world_def)

lemma far_operator: "get_operator float_env None far_world = (Inr triangle_operator, far_world)"
  by (rule triangle_operator_built) (simp_all add: far_world_def)

lemma far_shape:
  "shape triangle_operator = (length (cells far_world (vertices (mesh far_world))),
     length (cells far_world (vertices (mesh far_world))))"
  by (simp add: far_vertices triangle_operator_def)

lemma far_matvec:
  "matvec fl64 triangle_operator [(18014398509481984, 0, 0), (0, 0, 0), (2, 4, 0)] =
     [(1, 2, 0), (9007199254740992, 2, 0), (9007199254740992, 0, 0)]"
  by (simp add: triangle_matvec vzero_def)

lemma far_pass:
  "explicit_update fl64 triangle_operator 1 [(18014398509481984, 0, 0), (0, 0, 0), (2, 4, 0)] =
     [(0, 2, 0), (9007199254740992, 2, 0), (9007199254740992, 0, 0)]"
  by (simp add: explicit_update_def laplacian_delta_def far_matvec np_scale_def)

theorem explicit_diffusion_witness:
  "fst (filter_laplacian example_env (1 / 2) 1 False False None cube_world) = Inr () \<and>
   cells (snd (filter_laplacian example_env (1 / 2) 1 False False None cube_world))
     (vertices (mesh (snd (filter_laplacian example_env (1 / 2) 1 False False None cube_world)))) =
     [(1 / 6, 1 / 6, 1 / 6), (1 / 6, 1 / 6, 5 / 6), (1 / 6, 5 / 6, 1 / 6), (1 / 6, 5 / 6, 5 / 6),
      (5 / 6, 1 / 6, 1 / 6), (5 / 6, 1 / 6, 5 / 6), (5 / 6, 5 / 6, 1 / 6), (5 / 6, 5 / 6, 5 / 6)] \<and>
   cells (snd (filter_laplacian example_env 1 1 False False None cube_world))
     (vertices (mesh (snd (filter_laplacian example_env 1 1 False False None cube_world)))) =
     [(1 / 3, 1 / 3, 1 / 3), (1 / 3, 1 / 3, 2 / 3), (1 / 3, 2 / 3, 1 / 3), (1 / 3, 2 / 3, 2 / 3),
      (2 / 3, 1 / 3, 1 / 3), (2 / 3, 1 / 3, 2 / 3), (2 / 3, 2 / 3, 1 / 3), (2 / 3, 2 / 3, 2 / 3)] \<and>
   fst (filter_laplacian float_env 1 1 False False None far_world) = Inr () \<and>
   cells (snd (filter_laplacian float_env 1 1 False False None far_world))
     (vertices (mesh (snd (filter_laplacian float_env 1 1 False False None far_world)))) =
     [(0, 2, 0), (9007199254740992, 2, 0), (9007199254740992, 0, 0)] \<and>
   \<bar>coord (cells (snd (filter_laplacian float_env 1 1 False False None far_world))
       (vertices (mesh (snd (filter_laplacian float_env 1 1 False False None far_world)))) ! 0) 0 - 1\<bar>
     \<le> 1 / 2 ^ 53 * (\<bar>1\<bar> + 3 * \<bar>1 - 18014398509481984\<bar>)"
proof -
  let ?v0 = "[(0, 0, 0), (0, 0, 1), (0, 1, 0), (0, 1, 1),
              (1, 0, 0), (1, 0, 1), (1, 1, 0), (1, 1, 1)] :: ndarray"
  let ?ns = "[[1, 2, 4], [0, 3, 5], [0, 3, 6], [1, 2, 7],
              [0, 5, 6], [1, 4, 7], [2, 4, 7], [3, 5, 6]] :: nat list list"
  let ?c = "[(1 / 3, 1 / 3, 1 / 3), (1 / 3, 1 / 3, 2 / 3), (1 / 3, 2 / 3, 1 / 3), (1 / 3, 2 / 3, 2 / 3),
      (2 / 3, 1 / 3, 1 / 3), (2 / 3, 1 / 3, 2 / 3), (2 / 3, 2 / 3, 1 / 3), (2 / 3, 2 / 3, 2 / 3)] :: ndarray"
  let ?w0 = "[(18014398509481984, 0, 0), (0, 0, 0), (2, 4, 0)] :: ndarray"
  have h2: "?v0 = cells cube_world (vertices (mesh cube_world))"
    and hn: "?ns = vertex_neighbors (mesh cube_world)"
    by (simp_all add: cube_world_def)
  have "\<exists>L. get_operator example_env None cube_world = (Inr L, cube_world) \<and>
      shape L = (length ?v0, length ?v0)"
    by (rule get_operator_None_ok [OF _ h2 hn]) (simp_all add: example_env_def)
  then obtain L where h1: "get_operator example_env None cube_world = (Inr L, cube_world)"
    and h3: "shape L = (length ?v0, length ?v0)"
    by blast
  have h4: "exact = rnd example_env" by simp
  from get_operator_None [OF h1] obtain M where
    M: "laplacian_matrix example_env ?v0 ?ns True = Inr M" and L: "L = real_matrix M"
    by (auto simp add: h2 [symmetric] hn [symmetric])
  have cen: "map (centroid ?v0) ?ns = ?c"
    by (simp add: centroid_def vsum_def vzero_def exact_def)
  have mv: "matvec exact L ?v0 = ?c"
    unfolding L using equal_weight_matvec [OF M, of ?v0] by (simp only: cen) simp
  note half = explicit_diffusion [OF h1 h2 h3 h4 refl, of "1 / 2" 1]
  note full = explicit_diffusion [OF h1 h2 h3 h4 refl, of 1 1]
  have fh: "fst (filter_laplacian example_env (1 / 2) 1 False False None cube_world) = Inr ()"
    using half by blast
  from half have "cells (snd (filter_laplacian example_env (1 / 2) 1 False False None cube_world))
     (vertices (mesh (snd (filter_laplacian example_env (1 / 2) 1 False False None cube_world)))) =
     (explicit_update exact L (1 / 2) ^^ nat 1) ?v0"
    by blast
  also have "\<dots> = map2 (explicit_vertex exact (1 / 2)) ?v0 (matvec exact L ?v0)"
    using h3 by (simp add: explicit_update_pointwise)
  also have "\<dots> = [(1 / 6, 1 / 6, 1 / 6), (1 / 6, 1 / 6, 5 / 6), (1 / 6, 5 / 6, 1 / 6), (1 / 6, 5 / 6, 5 / 6),
      (5 / 6, 1 / 6, 1 / 6), (5 / 6, 1 / 6, 5 / 6), (5 / 6, 5 / 6, 1 / 6), (5 / 6, 5 / 6, 5 / 6)]"
    by (simp add: mv explicit_coordinate_def exact_def)
  finally have vh: "cells (snd (filter_laplacian example_env (1 / 2) 1 False False None cube_world))
     (vertices (mesh (snd (filter_laplacian example_env (1 / 2) 1 False False None cube_world)))) =
     [(1 / 6, 1 / 6, 1 / 6), (1 / 6, 1 / 6, 5 / 6), (1 / 6, 5 / 6, 1 / 6), (1 / 6, 5 / 6, 5 / 6),
      (5 / 6, 1 / 6, 1 / 6), (5 / 6, 1 / 6, 5 / 6), (5 / 6, 5 / 6, 1 / 6), (5 / 6, 5 / 6, 5 / 6)]" .
  have "(1::real) = 1 \<and> (1::int) = 1 \<and> exact = exact \<and> (None :: spmat option) = None \<and>
      length (vertex_neighbors (mesh cube_world)) = length ?v0"
    by (simp add: cube_world_def)
  with full have "cells (snd (filter_laplacian example_env 1 1 False False None cube_world))
       (vertices (mesh (snd (filter_laplacian example_env 1 1 False False None cube_world)))) =
     map (centroid ?v0) (vertex_neighbors (mesh cube_world))"
    by blast
  then have vf: "cells (snd (filter_laplacian example_env 1 1 False False None cube_world))
       (vertices (mesh (snd (filter_laplacian example_env 1 1 False False None cube_world)))) = ?c"
    by (simp only: hn [symmetric] cen)
  have g1: "?w0 = cells far_world (vertices (mesh far_world))"
    by (simp add: far_vertices)
  have g4: "fl64 = rnd float_env" by simp
  note f = explicit_diffusion [OF far_operator g1 far_shape [folded g1] g4 refl,
      of 1 1 "1 / 2 ^ 53"]
  have ff: "fst (filter_laplacian float_env 1 1 False False None far_world) = Inr ()"
    using f by blast
  from f have "cells (snd (filter_laplacian float_env 1 1 False False None far_world))
     (vertices (mesh (snd (filter_laplacian float_env 1 1 False False None far_world)))) =
     (explicit_update fl64 triangle_operator 1 ^^ nat 1) ?w0"
    by blast
  then have vff: "cells (snd (filter_laplacian float_env 1 1 False False None far_world))
     (vertices (mesh (snd (filter_laplacian float_env 1 1 False False None far_world)))) =
     [(0, 2, 0), (9007199254740992, 2, 0), (9007199254740992, 0, 0)]"
    by (simp add: far_pass)
  have err: "(1::real) = 1 \<and> (1::int) = 1 \<and> (\<forall>x. \<bar>fl64 x - x\<bar> \<le> 1 / 2 ^ 53 * \<bar>x\<bar>) \<and>
      (1::real) / 2 ^ 53 \<le> 1 / 4"
    using fl64_error by simp
  with f have b: "\<forall>k<length ?w0. \<forall>c<3.
      \<bar>coord (cells (snd (filter_laplacian float_env 1 1 False False None far_world))
          (vertices (mesh (snd (filter_laplacian float_env 1 1 False False None far_world)))) ! k) c -
        coord (matvec fl64 triangle_operator ?w0 ! k) c\<bar>
      \<le> 1 / 2 ^ 53 * (\<bar>coord (matvec fl64 triangle_operator ?w0 ! k) c\<bar> +
             3 * \<bar>coord (matvec fl64 triangle_operator ?w0 ! k) c - coord (?w0 ! k) c\<bar>)"
    by blast
  have b0: "\<bar>coord (cells (snd (filter_laplacian float_env 1 1 False False None far_world))
       (vertices (mesh (snd (filter_laplacian float_env 1 1 False False None far_world)))) ! 0) 0 - 1\<bar>
     \<le> 1 / 2 ^ 53 * (\<bar>1\<bar> + 3 * \<bar>1 - 18014398509481984\<bar>)"
    using b [rule_format, of 0 0] by (simp add: far_matvec)
  from fh vh vf ff vff b0 show ?thesis by (simp only: simp_thms)
qed

text \<open>
  Claim C6 as stated fails in float64. On the triangle \<open>far_world\<close> with \<open>\<lambda> = 1\<close> the
  operator the call builds maps each vertex to the mean of the other two, so \<open>L\<cdot>v\<close> and
  the centroid of the neighbours of vertex 0 are \<open>(1, 2, 0)\<close>. The pass computes
  \<open>1 - 2\<^sup>5\<^sup>4\<close>, which is rounded to \<open>- 2\<^sup>5\<^sup>4\<close>, and leaves vertex 0 at \<open>(0, 2, 0)\<close>.
\<close>

theorem explicit_centroid_counterexample:
  "fst (get_operator float_env None far_world) = Inr triangle_operator \<and>
   cells far_world (vertices (mesh far_world)) = [(18014398509481984, 0, 0), (0, 0, 0), (2, 4, 0)] \<and>
   matvec fl64 triangle_operator [(18014398509481984, 0, 0), (0, 0, 0), (2, 4, 0)] =
     [(1, 2, 0), (9007199254740992, 2, 0), (9007199254740992, 0, 0)] \<and>
   map (centroid [(18014398509481984, 0, 0), (0, 0, 0), (2, 4, 0)]) (vertex_neighbors (mesh far_world)) =
     [(1, 2, 0), (9007199254740993, 2, 0), (9007199254740992, 0, 0)] \<and>
   fst (filter_laplacian float_env 1 1 False False None far_world) = Inr () \<and>
   cells (snd (filter_laplacian float_env 1 1 False False None far_world))
     (vertices (mesh (snd (filter_laplacian float_env 1 1 False False None far_world)))) =
     [(0, 2, 0), (9007199254740992, 2, 0), (9007199254740992, 0, 0)]"
proof -
  have c: "map (centroid [(18014398509481984, 0, 0), (0, 0, 0), (2, 4, 0)]) (vertex_neighbors (mesh far_world)) =
     [(1, 2, 0), (9007199254740993, 2, 0), (9007199254740992, 0, 0)]"
    by (simp add: far_world_def centroid_def vsum_def vzero_def exact_def)
  have r: "filter_laplacian float_env 1 1 False False None far_world =
     (Inr (),
      far_world\<lparr>cells := (cells far_world)(fresh far_world :=
           (explicit_update (rnd float_env) triangle_operator 1 ^^ nat 1)
             (cells far_world (vertices (mesh far_world)))),
        fresh := Suc (fresh far_world), mesh := (mesh far_world)\<lparr>vertices := fresh far_world\<rparr>\<rparr>)"
    by (rule filter_laplacian_explicit_run [OF far_operator refl far_shape])
  have v: "cells (snd (filter_laplacian float_env 1 1 False False None far_world))
     (vertices (mesh (snd (filter_laplacian float_env 1 1 False False None far_world)))) =
     [(0, 2, 0), (9007199254740992, 2, 0), (9007199254740992, 0, 0)]"
    by (simp add: r far_vertices far_pass)
  have o: "fst (filter_laplacian float_env 1 1 False False None far_world) = Inr ()"
    by (simp add: r)
  show ?thesis
    by (simp only: far_operator far_vertices far_matvec c o v fst_conv simp_thms)
qed

section \<open>The Humphrey filter\<close>

text \<open>
  Claim C8. With an operator of the size of the vertex array, every pass of
  \<open>filter_humphrey\<close> takes the buffer \<open>q\<close> entering it and the positions \<open>v0\<close> from before
  the call and leaves \<open>p - (\<beta>\<cdot>b + (1 - \<beta>)\<cdot>L\<cdot>b)\<close> with \<open>p = L\<cdot>q\<close> and
  \<open>b = p - (\<alpha>\<cdot>v0 + (1 - \<alpha>)\<cdot>q)\<close>, every operation rounded. The call completes with
  that update applied once per iteration, always against the same \<open>v0\<close>, and the array the
  mesh referred to before the call still holds \<open>v0\<close>.
\<close>

theorem humphrey_iteration:
  fixes s :: "'a trimesh_scheme world"
  assumes "get_operator E op s = (Inr L, s)" and "v0 = cells s (vertices (mesh s))"
    and "shape L = (length v0, length v0)" and "vertices (mesh s) < fresh s"
  shows "(\<forall>(t :: 'a trimesh_scheme world) a i. length (cells t a) = length v0 \<longrightarrow>
            humphrey_pass E alpha beta L v0 i a t =
              (Inr (fresh t),
               t\<lparr>cells := (cells t)(fresh t :=
                   (let r = rnd E; q = cells t a; p = matvec r L q;
                        b = map2 (vsub r) p
                              (map2 (vadd r) (np_scale r alpha v0) (np_scale r (r (1 - alpha)) q))
                    in map2 (vsub r) p
                         (map2 (vadd r) (np_scale r beta b)
                            (np_scale r (r (1 - beta)) (matvec r L b))))),
                 fresh := Suc (fresh t)\<rparr>)) \<and>
         (\<exists>s'. filter_humphrey E alpha beta iterations op s = (Inr (), s') \<and>
            cells s' (vertices (mesh s')) =
              (humphrey_update (rnd E) alpha beta L v0 ^^ nat iterations) v0 \<and>
            cells s' (vertices (mesh s)) = v0)"
proof (rule conjI)
  show "\<forall>(t :: 'a trimesh_scheme world) a i. length (cells t a) = length v0 \<longrightarrow>
            humphrey_pass E alpha beta L v0 i a t =
              (Inr (fresh t),
               t\<lparr>cells := (cells t)(fresh t :=
                   (let r = rnd E; q = cells t a; p = matvec r L q;
                        b = map2 (vsub r) p
                              (map2 (vadd r) (np_scale r alpha v0) (np_scale r (r (1 - alpha)) q))
                    in map2 (vsub r) p
                         (map2 (vadd r) (np_scale r beta b)
                            (np_scale r (r (1 - beta)) (matvec r L b))))),
                 fresh := Suc (fresh t)\<rparr>)"
  proof (intro allI impI)
    fix t :: "'a trimesh_scheme world" and a i
    assume l: "length (cells t a) = length v0"
    then have "shape L = (length (cells t a), length (cells t a))"
      using assms(3) by simp
    from humphrey_pass_run [OF this l [symmetric], of E alpha beta i]
    show "humphrey_pass E alpha beta L v0 i a t =
              (Inr (fresh t),
               t\<lparr>cells := (cells t)(fresh t :=
                   (let r = rnd E; q = cells t a; p = matvec r L q;
                        b = map2 (vsub r) p
                              (map2 (vadd r) (np_scale r alpha v0) (np_scale r (r (1 - alpha)) q))
                    in map2 (vsub r) p
                         (map2 (vadd r) (np_scale r beta b)
                            (np_scale r (r (1 - beta)) (matvec r L b))))),
                 fresh := Suc (fresh t)\<rparr>)"
      by (simp add: humphrey_update_def Let_def)
  qed
  from filter_humphrey_run [OF assms(1,2,3), of alpha beta iterations]
  obtain s' where run: "filter_humphrey E alpha beta iterations op s = (Inr (), s')"
    and fin: "cells s' (vertices (mesh s')) =
      (humphrey_update (rnd E) alpha beta L v0 ^^ nat iterations) v0"
    by blast
  note d = finalD [OF final_filter_humphrey order_refl run]
  have "cells s' (vertices (mesh s)) = v0"
    using d(1) assms(2,4) by simp
  with run fin show "\<exists>s'. filter_humphrey E alpha beta iterations op s = (Inr (), s') \<and>
            cells s' (vertices (mesh s')) =
              (humphrey_update (rnd E) alpha beta L v0 ^^ nat iterations) v0 \<and>
            cells s' (vertices (mesh s)) = v0"
    by blast
qed

theorem humphrey_iteration_witness:
  "\<exists>s'. filter_humphrey example_env (1 / 10) (1 / 2) 1 None tetra_world = (Inr (), s') \<and>
      cells s' (vertices (mesh s')) =
        [(2 / 9, 2 / 9, 2 / 9), (1 / 3, 2 / 9, 2 / 9), (2 / 9, 1 / 3, 2 / 9), (2 / 9, 2 / 9, 1 / 3)] \<and>
      cells s' 0 = [(0, 0, 0), (1, 0, 0), (0, 1, 0), (0, 0, 1)]"
proof -
  let ?L = "\<lparr>shape = (4, 4), row = [0, 0, 0, 1, 1, 1, 2, 2, 2, 3, 3, 3],
           col = [1, 2, 3, 0, 2, 3, 0, 1, 3, 0, 1, 2],
           data = [1 / 3, 1 / 3, 1 / 3, 1 / 3, 1 / 3, 1 / 3, 1 / 3, 1 / 3, 1 / 3, 1 / 3, 1 / 3, 1 / 3 :: real]\<rparr>"
  let ?v0 = "[(0, 0, 0), (1, 0, 0), (0, 1, 0), (0, 0, 1)] :: ndarray"
  have h2: "?v0 = cells tetra_world (vertices (mesh tetra_world))"
    by (simp add: tetra_vertices)
  have h3: "shape ?L = (length ?v0, length ?v0)" by simp
  have z: "vertices (mesh tetra_world) = 0" by (simp add: tetra_world_def)
  have v: "(humphrey_update (rnd example_env) (1 / 10) (1 / 2) ?L ?v0 ^^ nat 1) ?v0 =
      [(2 / 9, 2 / 9, 2 / 9), (1 / 3, 2 / 9, 2 / 9), (2 / 9, 1 / 3, 2 / 9), (2 / 9, 2 / 9, 1 / 3)]"
  proof -
    have "humphrey_update exact (1 / 10) (1 / 2) ?L ?v0 ?v0 =
      [(2 / 9, 2 / 9, 2 / 9), (1 / 3, 2 / 9, 2 / 9), (2 / 9, 1 / 3, 2 / 9), (2 / 9, 2 / 9, 1 / 3)]"
      by (simp add: humphrey_update_def Let_def tetra_matvec np_scale_def vzero_def exact_def
          del: One_nat_def)
    then show ?thesis by simp
  qed
  from humphrey_iteration [OF tetra_operator h2 h3 tetra_vertices(2), of "1 / 10" "1 / 2" 1]
  show ?thesis
    unfolding v z by blast
qed

section \<open>Implicit diffusion\<close>

lemma resolve_eye: "scipy E \<Longrightarrow> resolve E ''eye'' = Inr ()"
  by (simp add: resolve_def module_names_def)

lemma resolve_spsolve: "scipy E \<Longrightarrow> resolve E ''spsolve'' = Inr ()"
  by (simp add: resolve_def module_names_def)

lemma system_matrix_run:
  assumes "scipy E" and "shape L = (n, n)"
  shows "system_matrix E lamb L =
     Inr \<lparr>shape = (n, n), row = [0..<n] @ [0..<n] @ row L, col = [0..<n] @ [0..<n] @ col L,
          data = replicate n 1 @ map (\<lambda>d. lamb * d) (replicate n 1 @ map (\<lambda>d. - 1 * d) (data L))\<rparr>"
  using assms
  by (simp add: system_matrix_def eye_def resolve_eye mat_sub_def mat_add_def mat_scale_def Let_def)

lemma entry_triplet_sum: "entry M i j = triplet_sum (entries M) i j"
  by (simp add: entry_def row_entries_def triplet_sum_def)

lemma triplet_sum_append: "triplet_sum (xs @ ys) i j = triplet_sum xs i j + triplet_sum ys i j"
  by (simp add: triplet_sum_def)

lemma triplet_sum_scale:
  "triplet_sum (zip r (zip c (map (\<lambda>d. k * d) ds))) i j = k * triplet_sum (zip r (zip c ds)) i j"
proof (induction r arbitrary: c ds)
  case Nil
  show ?case by (simp add: triplet_sum_def)
next
  case (Cons a r)
  show ?case
  proof (cases c)
    case Nil
    then show ?thesis by (simp add: triplet_sum_def)
  next
    case c: (Cons b c')
    show ?thesis
    proof (cases ds)
      case Nil
      then show ?thesis by (simp add: triplet_sum_def)
    next
      case (Cons d ds')
      have "triplet_sum ((a, b, k * d) # zip r (zip c' (map (\<lambda>d. k * d) ds'))) i j =
          (if a = i \<and> b = j then k * d else 0) + triplet_sum (zip r (zip c' (map (\<lambda>d. k * d) ds'))) i j"
        by (simp add: triplet_sum_def)
      moreover have "triplet_sum ((a, b, d) # zip r (zip c' ds')) i j =
          (if a = i \<and> b = j then d else 0) + triplet_sum (zip r (zip c' ds')) i j"
        by (simp add: triplet_sum_def)
      ultimately show ?thesis
        using Cons.IH [of c' ds'] by (simp add: c Cons algebra_simps)
    qed
  qed
qed

lemma triplet_sum_eye:
  "triplet_sum (zip [0..<n] (zip [0..<n] (replicate n k))) i j = (if i = j \<and> i < n then k else 0)"
proof (induction n)
  case 0
  show ?case by (simp add: triplet_sum_def)
next
  case (Suc n)
  have "zip [0..<Suc n] (zip [0..<Suc n] (replicate (Suc n) k)) =
      zip [0..<n] (zip [0..<n] (replicate n k)) @ [(n, n, k)]"
    by (simp add: replicate_append_same [symmetric])
  then have "triplet_sum (zip [0..<Suc n] (zip [0..<Suc n] (replicate (Suc n) k))) i j =
      triplet_sum (zip [0..<n] (zip [0..<n] (replicate n k))) i j + triplet_sum [(n, n, k)] i j"
    by (simp only: triplet_sum_append)
  also have "triplet_sum [(n, n, k)] i j = (if i = j \<and> i = n then k else 0)"
    by (auto simp add: triplet_sum_def)
  finally show ?case using Suc.IH by auto
qed

lemma system_matrix_entry:
  assumes "system_matrix E lamb L = Inr A" and "scipy E" and "shape L = (n, n)"
  shows "entry A i j =
     (if i = j \<and> i < n then 1 else 0) + lamb * ((if i = j \<and> i < n then 1 else 0) - entry L i j)"
proof -
  have A: "A = \<lparr>shape = (n, n), row = [0..<n] @ [0..<n] @ row L, col = [0..<n] @ [0..<n] @ col L,
          data = replicate n 1 @ map (\<lambda>d. lamb * d) (replicate n 1 @ map (\<lambda>d. - 1 * d) (data L))\<rparr>"
    using assms(1) by (simp add: system_matrix_run [OF assms(2,3)])
  have "entries A =
      zip [0..<n] (zip [0..<n] (replicate n 1)) @
      zip [0..<n] (zip [0..<n] (map (\<lambda>d. lamb * d) (replicate n 1))) @
      zip (row L) (zip (col L) (map (\<lambda>d. lamb * d) (map (\<lambda>d. - 1 * d) (data L))))"
    by (simp add: A entries_def)
  then have "entry A i j =
      triplet_sum (zip [0..<n] (zip [0..<n] (replicate n 1))) i j +
      (lamb * triplet_sum (zip [0..<n] (zip [0..<n] (replicate n 1))) i j +
       lamb * (- 1 * triplet_sum (zip (row L) (zip (col L) (data L))) i j))"
    by (simp only: entry_triplet_sum triplet_sum_append triplet_sum_scale)
  then show ?thesis
    by (simp add: triplet_sum_eye entry_triplet_sum entries_def algebra_simps)
qed

lemma implicit_step_run:
  assumes "scipy E"
  shows "implicit_step E (Some A) a s =
     (case spsolve E A (cells s a) of
        Inl e \<Rightarrow> (Inl e, s)
      | Inr x \<Rightarrow> (Inr (fresh s), s\<lparr>cells := (cells s)(fresh s := x), fresh := Suc (fresh s)\<rparr>))"
  by (cases "spsolve E A (cells s a)")
    (simp_all add: implicit_step_def resolve_spsolve [OF assms] bind_lift_run bind_load_run
      lift_def alloc_def)

lemma implicit_pass_run:
  assumes "scipy E"
  shows "laplacian_pass E lamb True False L (Some A) v_ini i a s =
     (case spsolve E A (cells s a) of
        Inl e \<Rightarrow> (Inl e, s)
      | Inr x \<Rightarrow> (Inr (fresh s), s\<lparr>cells := (cells s)(fresh s := x), fresh := Suc (fresh s)\<rparr>))"
  by (cases "spsolve E A (cells s a)")
    (simp_all add: laplacian_pass_def bind_def implicit_step_run [OF assms] ret_def)

lemma for_each_implicit:
  assumes "scipy E"
  shows "for_each js (laplacian_pass E lamb True False L (Some A) v_ini) a s = (r, s') \<Longrightarrow>
     (case solve_n E A (length js) (cells s a) of
        Inl e \<Rightarrow> r = Inl e
      | Inr v \<Rightarrow> (\<exists>b. r = Inr b \<and> cells s' b = v))"
proof (induction js arbitrary: a s)
  case Nil
  then show ?case by (auto simp add: ret_def)
next
  case (Cons i js)
  show ?case
  proof (cases "spsolve E A (cells s a)")
    case (Inl e)
    have step: "laplacian_pass E lamb True False L (Some A) v_ini i a s = (Inl e, s)"
      by (simp add: implicit_pass_run [OF assms] Inl)
    from Cons.prems have "r = Inl e"
      by (simp only: for_each.simps bind_def step prod.case sum.case) simp
    then show ?thesis by (simp add: Inl)
  next
    case (Inr x)
    let ?s1 = "s\<lparr>cells := (cells s)(fresh s := x), fresh := Suc (fresh s)\<rparr>"
    have step: "laplacian_pass E lamb True False L (Some A) v_ini i a s = (Inr (fresh s), ?s1)"
      by (simp add: implicit_pass_run [OF assms] Inr)
    from Cons.prems
    have "for_each js (laplacian_pass E lamb True False L (Some A) v_ini) (fresh s) ?s1 = (r, s')"
      by (simp only: for_each.simps bind_def step prod.case sum.case)
    from Cons.IH [OF this] show ?thesis
      by (simp add: Inr)
  qed
qed

lemma filter_laplacian_implicit_run:
  assumes "get_operator E op s = (Inr L, s)" and "v0 = cells s (vertices (mesh s))"
    and "system_matrix E lamb L = Inr A"
    and "for_each (range_py iterations) (laplacian_pass E lamb True False L (Some A) None)
           (fresh s) (s\<lparr>cells := (cells s)(fresh s := v0), fresh := Suc (fresh s)\<rparr>) = (r, s2)"
  shows "filter_laplacian E lamb iterations True False op s =
     (case r of Inl e \<Rightarrow> (Inl e, s2)
      | Inr b \<Rightarrow> (Inr (), s2\<lparr>mesh := (mesh s2)\<lparr>vertices := b\<rparr>\<rparr>))"
  unfolding filter_laplacian_def
  by (cases r)
    (simp_all add: bind_def assms(1) copy_vertices_run assms(2) [symmetric] ret_def lift_def
      assms(3) assms(4) set_vertices_def)

text \<open>
  Claim C7. In implicit mode with scipy present and a square operator, the system matrix
  is built and is \<open>I + \<lambda>\<cdot>(I - L)\<close> entry by entry. A pass binds the buffer to what the solver
  returns for that matrix and the buffer entering the pass, which solves the system if the
  solver only returns solutions. The whole call is the solver applied \<open>iterations\<close> times
  with this one matrix, each result the next right-hand side, starting from the positions
  of the mesh: it completes with the last result, or fails with the solver's first failure.
\<close>

theorem implicit_diffusion:
  fixes s :: "'a trimesh_scheme world"
  assumes "get_operator E op s = (Inr L, s)" and "v0 = cells s (vertices (mesh s))"
    and "scipy E" and "shape L = (n, n)"
  shows "\<exists>A. system_matrix E lamb L = Inr A \<and> shape A = (n, n) \<and>
     (\<forall>i j. entry A i j =
        (if i = j \<and> i < n then 1 else 0) +
        lamb * ((if i = j \<and> i < n then 1 else 0) - entry L i j)) \<and>
     (\<forall>(t :: 'a trimesh_scheme world) a i x. spsolve E A (cells t a) = Inr x \<longrightarrow>
        laplacian_pass E lamb True False L (Some A) None i a t =
          (Inr (fresh t), t\<lparr>cells := (cells t)(fresh t := x), fresh := Suc (fresh t)\<rparr>)) \<and>
     ((\<forall>b x. spsolve E A b = Inr x \<longrightarrow> matvec exact A x = b) \<longrightarrow>
        (\<forall>(t :: 'a trimesh_scheme world) a i b t'.
           laplacian_pass E lamb True False L (Some A) None i a t = (Inr b, t') \<longrightarrow>
           matvec exact A (cells t' b) = cells t a)) \<and>
     (\<forall>v. solve_n E A (nat iterations) v0 = Inr v \<longrightarrow>
        (\<exists>s'. filter_laplacian E lamb iterations True False op s = (Inr (), s') \<and>
           cells s' (vertices (mesh s')) = v)) \<and>
     (\<forall>e. solve_n E A (nat iterations) v0 = Inl e \<longrightarrow>
        fst (filter_laplacian E lamb iterations True False op s) = Inl e)"
proof -
  from system_matrix_run [OF assms(3,4), of lamb]
  obtain A where A: "system_matrix E lamb L = Inr A" and sh: "shape A = (n, n)"
    by simp
  let ?s1 = "s\<lparr>cells := (cells s)(fresh s := v0), fresh := Suc (fresh s)\<rparr>"
  let ?body = "laplacian_pass E lamb True False L (Some A) None"
  obtain r s2 where loop: "for_each (range_py iterations) ?body (fresh s) ?s1 = (r, s2)"
    by (cases "for_each (range_py iterations) ?body (fresh s) ?s1")
  note run = filter_laplacian_implicit_run [OF assms(1,2) A loop]
  have sol: "case solve_n E A (nat iterations) v0 of
        Inl e \<Rightarrow> r = Inl e
      | Inr v \<Rightarrow> (\<exists>b. r = Inr b \<and> cells s2 b = v)"
    using for_each_implicit [OF assms(3) loop] by (simp add: length_range_py)
  have e: "\<forall>i j. entry A i j =
        (if i = j \<and> i < n then 1 else 0) +
        lamb * ((if i = j \<and> i < n then 1 else 0) - entry L i j)"
    by (intro allI system_matrix_entry [OF A assms(3,4)])
  have p: "\<forall>(t :: 'a trimesh_scheme world) a i x. spsolve E A (cells t a) = Inr x \<longrightarrow>
        laplacian_pass E lamb True False L (Some A) None i a t =
          (Inr (fresh t), t\<lparr>cells := (cells t)(fresh t := x), fresh := Suc (fresh t)\<rparr>)"
    by (simp add: implicit_pass_run [OF assms(3)])
  have snd: "(\<forall>b x. spsolve E A b = Inr x \<longrightarrow> matvec exact A x = b) \<longrightarrow>
        (\<forall>(t :: 'a trimesh_scheme world) a i b t'.
           laplacian_pass E lamb True False L (Some A) None i a t = (Inr b, t') \<longrightarrow>
           matvec exact A (cells t' b) = cells t a)"
  proof (intro impI allI)
    fix t t' :: "'a trimesh_scheme world" and a i b
    assume sound: "\<forall>b x. spsolve E A b = Inr x \<longrightarrow> matvec exact A x = b"
      and pass: "laplacian_pass E lamb True False L (Some A) None i a t = (Inr b, t')"
    show "matvec exact A (cells t' b) = cells t a"
    proof (cases "spsolve E A (cells t a)")
      case (Inl e)
      with pass show ?thesis by (simp add: implicit_pass_run [OF assms(3)])
    next
      case (Inr x)
      from pass have "cells t' b = x"
        by (auto simp add: implicit_pass_run [OF assms(3)] Inr)
      with sound Inr show ?thesis by simp
    qed
  qed
  have ok: "\<forall>v. solve_n E A (nat iterations) v0 = Inr v \<longrightarrow>
        (\<exists>s'. filter_laplacian E lamb iterations True False op s = (Inr (), s') \<and>
           cells s' (vertices (mesh s')) = v)"
  proof (intro allI impI)
    fix v assume "solve_n E A (nat iterations) v0 = Inr v"
    with sol obtain b where "r = Inr b" and "cells s2 b = v" by auto
    then have "filter_laplacian E lamb iterations True False op s =
        (Inr (), s2\<lparr>mesh := (mesh s2)\<lparr>vertices := b\<rparr>\<rparr>) \<and>
        cells (s2\<lparr>mesh := (mesh s2)\<lparr>vertices := b\<rparr>\<rparr>)
          (vertices (mesh (s2\<lparr>mesh := (mesh s2)\<lparr>vertices := b\<rparr>\<rparr>))) = v"
      by (simp add: run)
    then show "\<exists>s'. filter_laplacian E lamb iterations True False op s = (Inr (), s') \<and>
           cells s' (vertices (mesh s')) = v"
      by blast
  qed
  have bad: "\<forall>e. solve_n E A (nat iterations) v0 = Inl e \<longrightarrow>
        fst (filter_laplacian E lamb iterations True False op s) = Inl e"
  proof (intro allI impI)
    fix e assume "solve_n E A (nat iterations) v0 = Inl e"
    with sol have "r = Inl e" by simp
    then show "fst (filter_laplacian E lamb iterations True False op s) = Inl e"
      by (simp add: run)
  qed
  from A sh e p snd ok bad show ?thesis by blast
qed

lemma table_solver_sound: "table_solver table A b = Inr x \<Longrightarrow> matvec exact A x = b"
proof -
  assume a: "table_solver table A b = Inr x"
  then have "find (\<lambda>x. matvec exact A x = b) (b # table) = Some x"
    unfolding table_solver_def
    by (cases "find (\<lambda>x. matvec exact A x = b) (b # table)") (simp_all del: find.simps)
  then show "matvec exact A x = b"
    unfolding find_Some_iff by blast
qed

text \<open>
  On the tetrahedron with \<open>\<lambda> = 2\<close> the system matrix has \<open>3\<close> on the diagonal and
  \<open>- 2/3\<close> elsewhere. Two passes take the positions to the first and then to the second
  array of \<open>known_solutions\<close>: each solves the system whose right-hand side is the buffer
  before it.
\<close>

theorem implicit_diffusion_witness:
  "\<exists>A b t' s'. system_matrix example_env 2
        \<lparr>shape = (4, 4), row = [0, 0, 0, 1, 1, 1, 2, 2, 2, 3, 3, 3],
         col = [1, 2, 3, 0, 2, 3, 0, 1, 3, 0, 1, 2],
         data = [1 / 3, 1 / 3, 1 / 3, 1 / 3, 1 / 3, 1 / 3, 1 / 3, 1 / 3, 1 / 3, 1 / 3, 1 / 3, 1 / 3]\<rparr>
        = Inr A \<and>
      entry A 0 0 = 3 \<and> entry A 0 1 = - 2 / 3 \<and>
      laplacian_pass example_env 2 True False
        \<lparr>shape = (4, 4), row = [0, 0, 0, 1, 1, 1, 2, 2, 2, 3, 3, 3],
         col = [1, 2, 3, 0, 2, 3, 0, 1, 3, 0, 1, 2],
         data = [1 / 3, 1 / 3, 1 / 3, 1 / 3, 1 / 3, 1 / 3, 1 / 3, 1 / 3, 1 / 3, 1 / 3, 1 / 3, 1 / 3]\<rparr>
        (Some A) None 0 0 tetra_world = (Inr b, t') \<and>
      cells t' b =
        [(2 / 11, 2 / 11, 2 / 11), (5 / 11, 2 / 11, 2 / 11), (2 / 11, 5 / 11, 2 / 11),
         (2 / 11, 2 / 11, 5 / 11)] \<and>
      matvec exact A (cells t' b) = [(0, 0, 0), (1, 0, 0), (0, 1, 0), (0, 0, 1)] \<and>
      filter_laplacian example_env 2 2 True False None tetra_world = (Inr (), s') \<and>
      cells s' (vertices (mesh s')) =
        [(28 / 121, 28 / 121, 28 / 121), (37 / 121, 28 / 121, 28 / 121),
         (28 / 121, 37 / 121, 28 / 121), (28 / 121, 28 / 121, 37 / 121)] \<and>
      matvec exact A (cells s' (vertices (mesh s'))) =
        [(2 / 11, 2 / 11, 2 / 11), (5 / 11, 2 / 11, 2 / 11), (2 / 11, 5 / 11, 2 / 11),
         (2 / 11, 2 / 11, 5 / 11)]"
proof -
  let ?L = "\<lparr>shape = (4, 4), row = [0, 0, 0, 1, 1, 1, 2, 2, 2, 3, 3, 3],
           col = [1, 2, 3, 0, 2, 3, 0, 1, 3, 0, 1, 2],
           data = [1 / 3, 1 / 3, 1 / 3, 1 / 3, 1 / 3, 1 / 3, 1 / 3, 1 / 3, 1 / 3, 1 / 3, 1 / 3, 1 / 3 :: real]\<rparr>"
  let ?v0 = "[(0, 0, 0), (1, 0, 0), (0, 1, 0), (0, 0, 1)] :: ndarray"
  let ?x1 = "[(2 / 11, 2 / 11, 2 / 11), (5 / 11, 2 / 11, 2 / 11), (2 / 11, 5 / 11, 2 / 11),
         (2 / 11, 2 / 11, 5 / 11)] :: ndarray"
  let ?x2 = "[(28 / 121, 28 / 121, 28 / 121), (37 / 121, 28 / 121, 28 / 121),
         (28 / 121, 37 / 121, 28 / 121), (28 / 121, 28 / 121, 37 / 121)] :: ndarray"
  have sc: "scipy example_env" by (simp add: example_env_def)
  have h2: "?v0 = cells tetra_world (vertices (mesh tetra_world))"
    by (simp add: tetra_vertices)
  have h4: "shape ?L = (4, 4)" by simp
  from implicit_diffusion [OF tetra_operator h2 sc h4, of 2 2]
  obtain A where A: "system_matrix example_env 2 ?L = Inr A"
    and ent: "\<forall>i j. entry A i j =
        (if i = j \<and> i < 4 then 1 else 0) + 2 * ((if i = j \<and> i < 4 then 1 else 0) - entry ?L i j)"
    and pass: "\<forall>(t :: trimesh world) a i x. spsolve example_env A (cells t a) = Inr x \<longrightarrow>
        laplacian_pass example_env 2 True False ?L (Some A) None i a t =
          (Inr (fresh t), t\<lparr>cells := (cells t)(fresh t := x), fresh := Suc (fresh t)\<rparr>)"
    and snd: "(\<forall>b x. spsolve example_env A b = Inr x \<longrightarrow> matvec exact A x = b) \<longrightarrow>
        (\<forall>(t :: trimesh world) a i b t'.
           laplacian_pass example_env 2 True False ?L (Some A) None i a t = (Inr b, t') \<longrightarrow>
           matvec exact A (cells t' b) = cells t a)"
    and ok: "\<forall>v. solve_n example_env A (nat 2) ?v0 = Inr v \<longrightarrow>
        (\<exists>s'. filter_laplacian example_env 2 2 True False None tetra_world = (Inr (), s') \<and>
           cells s' (vertices (mesh s')) = v)"
    by blast
  have l00: "entry ?L 0 0 = 0" and l01: "entry ?L 0 1 = 1 / 3"
    by (simp_all add: entry_def row_entries_def entries_def)
  have e00: "entry A 0 0 = 3"
    using ent [rule_format, of 0 0] unfolding l00 by simp
  have e01: "entry A 0 1 = - 2 / 3"
    using ent [rule_format, of 0 1] unfolding l01 by simp
  have Aeq: "A = \<lparr>shape = (4, 4), row = [0..<4] @ [0..<4] @ row ?L, col = [0..<4] @ [0..<4] @ col ?L,
          data = replicate 4 1 @ map (\<lambda>d. 2 * d) (replicate 4 1 @ map (\<lambda>d. - 1 * d) (data ?L))\<rparr>"
    using A by (simp only: system_matrix_run [OF sc h4] sum.inject)
  have mv: "matvec exact A [a, b, c, d] =
      [vsum exact [smul exact 1 a, smul exact 2 a, smul exact (- 2 / 3) b, smul exact (- 2 / 3) c,
                   smul exact (- 2 / 3) d],
       vsum exact [smul exact 1 b, smul exact 2 b, smul exact (- 2 / 3) a, smul exact (- 2 / 3) c,
                   smul exact (- 2 / 3) d],
       vsum exact [smul exact 1 c, smul exact 2 c, smul exact (- 2 / 3) a, smul exact (- 2 / 3) b,
                   smul exact (- 2 / 3) d],
       vsum exact [smul exact 1 d, smul exact 2 d, smul exact (- 2 / 3) a, smul exact (- 2 / 3) b,
                   smul exact (- 2 / 3) c]]" for a b c d
    by (simp add: Aeq matvec_def matvec_row_def row_entries_def entries_def upt_rec
        numeral_eq_Suc)
  have m0: "matvec exact A ?v0 \<noteq> ?v0"
    by (simp only: mv) (simp add: vsum_def vzero_def exact_def)
  have m1: "matvec exact A ?x1 = ?v0"
    by (simp only: mv) (simp add: vsum_def vzero_def exact_def)
  have m2: "matvec exact A ?x2 = ?x1"
    by (simp only: mv) (simp add: vsum_def vzero_def exact_def)
  have n1: "?v0 \<noteq> ?x1" by simp
  have s1: "spsolve example_env A ?v0 = Inr ?x1"
    using m0 m1 by (simp add: example_env_def table_solver_def known_solutions_def)
  have s2: "spsolve example_env A ?x1 = Inr ?x2"
    using m1 m2 n1 by (simp add: example_env_def table_solver_def known_solutions_def)
  have sound: "\<forall>b x. spsolve example_env A b = Inr x \<longrightarrow> matvec exact A x = b"
    by (auto simp add: example_env_def dest: table_solver_sound)
  have c0: "cells tetra_world 0 = ?v0" by (simp add: tetra_world_def)
  let ?t1 = "tetra_world\<lparr>cells := (cells tetra_world)(fresh tetra_world := ?x1),
                    fresh := Suc (fresh tetra_world)\<rparr>"
  from pass s1 c0 have p0: "laplacian_pass example_env 2 True False ?L (Some A) None 0 0 tetra_world =
      (Inr (fresh tetra_world), ?t1)"
    by simp
  from snd sound p0 c0 have q0: "matvec exact A (cells ?t1 (fresh tetra_world)) = ?v0"
    by metis
  have c1: "cells ?t1 (fresh tetra_world) = ?x1" by simp
  have "solve_n example_env A (nat 2) ?v0 = Inr ?x2"
    by (simp add: numeral_eq_Suc s1 s2)
  with ok obtain s' where r: "filter_laplacian example_env 2 2 True False None tetra_world = (Inr (), s')"
    and v: "cells s' (vertices (mesh s')) = ?x2"
    by blast
  have q1: "matvec exact A (cells s' (vertices (mesh s'))) = ?x1"
    by (simp only: v m2)
  from A e00 e01 p0 c1 q0 r v q1 show ?thesis by blast
qed

end
